(* ===== verification/Prelude.thy ===== *)
theory Prelude
  imports Main "HOL-Library.Word" "HOL-Library.List_Lexorder" "HOL-Library.Char_ord"
    "HOL-Library.FSet"
begin

text \<open>
  Shared vocabulary of the development.

  \<^item> Machine integers: identifiers are 128-bit words (a \<^verbatim>\<open>Uuid\<close>, ordered as its big-endian
    bytes), counters are 64-bit words, bytes are 8-bit words, and \<^verbatim>\<open>i64\<close> times are integers
    whose saturating subtraction is written out.
  \<^item> Ordered maps: a \<^verbatim>\<open>BTreeMap\<close> is its list of entries in increasing key order, so that
    iteration order, \<^verbatim>\<open>len\<close> and equality are those of the program. The operations are
    \<open>bt_insert\<close>, \<open>bt_remove\<close>, \<open>bt_modify\<close>, \<open>bt_retain\<close> and \<open>map_of\<close> for lookup. The locale
    \<open>ordered_map\<close> is the interface the components use; it is interpreted here on these lists.
  \<^item> Results: a fallible function returns a sum whose left summand is the error.
\<close>

named_theorems vault_defs \<open>definitions of the policy operations\<close>

section \<open>Machine integers\<close>

type_synonym u8 = "8 word"
type_synonym u64 = "64 word"
type_synonym uuid = "128 word"
type_synonym time = int

abbreviation nil_uuid :: uuid where "nil_uuid \<equiv> 0"
abbreviation u64_max :: u64 where "u64_max \<equiv> - 1"

definition time_min :: time where "time_min = - (2 ^ 63)"
definition time_max :: time where "time_max = 2 ^ 63 - 1"

definition sat_sub :: "time \<Rightarrow> time \<Rightarrow> time" where
  "sat_sub a b = max time_min (min time_max (a - b))"

definition checked_inc :: "u64 \<Rightarrow> u64 option" where
  "checked_inc n = (if n = u64_max then None else Some (n + 1))"

lemma unat_inc: "n \<noteq> u64_max \<Longrightarrow> unat (n + 1) = unat n + 1" for n :: u64
proof -
  assume "n \<noteq> u64_max"
  then have "1 + n \<noteq> 0" by (metis add.commute add_eq_0_iff)
  then show ?thesis by (simp add: unatSuc add.commute)
qed

lemma less_inc: "n \<noteq> u64_max \<Longrightarrow> n < n + 1" for n :: u64
  by (simp add: word_less_nat_alt unat_inc)

lemma le_inc: "n \<noteq> u64_max \<Longrightarrow> n \<le> n + 1" for n :: u64
  by (simp add: word_le_nat_alt unat_inc)

lemma inc_nonzero: "n \<noteq> u64_max \<Longrightarrow> n + 1 \<noteq> 0" for n :: u64
  by (metis add.commute add_eq_0_iff)

lemma checked_inc_Some: "checked_inc n = Some m \<Longrightarrow> unat m = unat n + 1 \<and> m \<noteq> 0"
  by (auto simp: checked_inc_def unat_inc inc_nonzero split: if_splits)

lemma sat_sub_bounds: "time_min \<le> sat_sub a b \<and> sat_sub a b \<le> time_max"
  by (simp add: sat_sub_def time_min_def time_max_def)

section \<open>Lists\<close>

lemma in_set_butlast_or_last: "x \<in> set xs \<Longrightarrow> x \<in> set (butlast xs) \<or> x = last xs"
  by (induction xs) auto

section \<open>Ordered maps\<close>

type_synonym ('k, 'v) btmap = "('k \<times> 'v) list"

fun bt_insert :: "'k::linorder \<Rightarrow> 'v \<Rightarrow> ('k, 'v) btmap \<Rightarrow> ('k, 'v) btmap" where
  "bt_insert k v [] = [(k, v)]"
| "bt_insert k v (p # m) =
     (if k = fst p then (k, v) # m
      else if k < fst p then (k, v) # p # m
      else p # bt_insert k v m)"

definition bt_remove :: "'k \<Rightarrow> ('k, 'v) btmap \<Rightarrow> ('k, 'v) btmap" where
  "bt_remove k m = filter (\<lambda>p. fst p \<noteq> k) m"

definition bt_retain :: "('k \<Rightarrow> 'v \<Rightarrow> bool) \<Rightarrow> ('k, 'v) btmap \<Rightarrow> ('k, 'v) btmap" where
  "bt_retain P m = filter (\<lambda>p. P (fst p) (snd p)) m"

definition bt_modify :: "'k \<Rightarrow> ('v \<Rightarrow> 'v) \<Rightarrow> ('k, 'v) btmap \<Rightarrow> ('k, 'v) btmap" where
  "bt_modify k f m = map (\<lambda>p. if fst p = k then (k, f (snd p)) else p) m"

definition bt_map :: "('k \<Rightarrow> 'v \<Rightarrow> 'w) \<Rightarrow> ('k, 'v) btmap \<Rightarrow> ('k, 'w) btmap" where
  "bt_map f m = map (\<lambda>p. (fst p, f (fst p) (snd p))) m"

definition bt_extend :: "('k::linorder, 'v) btmap \<Rightarrow> ('k, 'v) btmap \<Rightarrow> ('k, 'v) btmap" where
  "bt_extend m n = fold (\<lambda>p. bt_insert (fst p) (snd p)) n m"

definition bt_values :: "('k, 'v) btmap \<Rightarrow> 'v list" where
  "bt_values m = map snd m"

definition bt_keys :: "('k, 'v) btmap \<Rightarrow> 'k list" where
  "bt_keys m = map fst m"

definition bt_contains :: "('k, 'v) btmap \<Rightarrow> 'k \<Rightarrow> bool" where
  "bt_contains m k \<longleftrightarrow> map_of m k \<noteq> None"

definition bt_wf :: "('k::linorder, 'v) btmap \<Rightarrow> bool" where
  "bt_wf m \<longleftrightarrow> sorted_wrt (<) (map fst m)"

subsection \<open>Lookup laws\<close>

lemma map_of_bt_insert [simp]: "map_of (bt_insert k v m) = (map_of m)(k \<mapsto> v)"
  by (induction m) (auto simp: fun_eq_iff)

lemma map_of_bt_remove [simp]: "map_of (bt_remove k m) = (map_of m)(k := None)"
  by (induction m) (auto simp: bt_remove_def fun_eq_iff)

lemma map_of_bt_modify [simp]:
  "map_of (bt_modify k f m) j = (if j = k then map_option f (map_of m k) else map_of m j)"
  by (induction m) (auto simp: bt_modify_def)

lemma map_of_bt_map [simp]: "map_of (bt_map f m) k = map_option (f k) (map_of m k)"
  by (induction m) (auto simp: bt_map_def)

lemma map_of_bt_extend: "map_of (bt_extend m n) k =
    (case map_of (rev n) k of None \<Rightarrow> map_of m k | Some v \<Rightarrow> Some v)"
  by (induction n arbitrary: m)
     (auto simp: bt_extend_def map_add_def split: option.splits)

lemma bt_contains_iff: "bt_contains m k \<longleftrightarrow> k \<in> fst ` set m"
  by (auto simp: bt_contains_def map_of_eq_None_iff)

lemma set_bt_keys [simp]: "set (bt_keys m) = fst ` set m"
  by (simp add: bt_keys_def)

lemma set_bt_values [simp]: "set (bt_values m) = snd ` set m"
  by (simp add: bt_values_def)

lemma keys_bt_insert [simp]: "fst ` set (bt_insert k v m) = insert k (fst ` set m)"
  by (induction m) auto

lemma keys_bt_modify [simp]: "map fst (bt_modify k f m) = map fst m"
  by (induction m) (auto simp: bt_modify_def)

lemma keys_bt_map [simp]: "map fst (bt_map f m) = map fst m"
  by (simp add: bt_map_def)

lemma keys_bt_extend: "fst ` set (bt_extend m n) = fst ` set m \<union> fst ` set n"
  by (induction n arbitrary: m) (auto simp: bt_extend_def)

lemma length_bt_modify [simp]: "length (bt_modify k f m) = length m"
  by (simp add: bt_modify_def)

lemma length_bt_map [simp]: "length (bt_map f m) = length m"
  by (simp add: bt_map_def)

lemma length_bt_insert: "length (bt_insert k v m) \<le> length m + 1"
  by (induction m) auto

lemma length_bt_insert_fresh: "map_of m k = None \<Longrightarrow> length (bt_insert k v m) = length m + 1"
  by (induction m) (auto split: if_splits)

subsection \<open>Well-formedness\<close>

lemma bt_wf_Nil [simp]: "bt_wf []"
  by (simp add: bt_wf_def)

lemma bt_wf_distinct: "bt_wf m \<Longrightarrow> distinct (map fst m)"
  by (auto simp: bt_wf_def strict_sorted_iff)

lemma bt_wf_insert [simp]: "bt_wf m \<Longrightarrow> bt_wf (bt_insert k v m)"
proof (induction m)
  case Nil
  then show ?case by (simp add: bt_wf_def)
next
  case (Cons p m)
  have "fst ` set (bt_insert k v m) = insert k (fst ` set m)" by simp
  with Cons show ?case
    by (force simp: bt_wf_def image_iff simp flip: set_map)
qed

lemma bt_insert_last: "\<forall>p \<in> set m. fst p < k \<Longrightarrow> bt_insert k v m = m @ [(k, v)]"
  by (induction m) auto

lemma bt_wf_remove [simp]: "bt_wf m \<Longrightarrow> bt_wf (bt_remove k m)"
  by (simp add: bt_wf_def bt_remove_def sorted_wrt_map sorted_wrt_filter)

lemma bt_wf_retain [simp]: "bt_wf m \<Longrightarrow> bt_wf (bt_retain P m)"
  by (simp add: bt_wf_def bt_retain_def sorted_wrt_map sorted_wrt_filter)

lemma bt_wf_modify [simp]: "bt_wf (bt_modify k f m) = bt_wf m"
  by (simp add: bt_wf_def)

lemma bt_wf_map [simp]: "bt_wf (bt_map f m) = bt_wf m"
  by (simp add: bt_wf_def)

lemma bt_wf_extend [simp]: "bt_wf m \<Longrightarrow> bt_wf (bt_extend m n)"
  by (induction n arbitrary: m) (simp_all add: bt_extend_def)

lemma bt_mem_iff: "bt_wf m \<Longrightarrow> (k, v) \<in> set m \<longleftrightarrow> map_of m k = Some v"
  by (simp add: bt_wf_distinct)

lemma bt_values_iff: "bt_wf m \<Longrightarrow> v \<in> snd ` set m \<longleftrightarrow> (\<exists>k. map_of m k = Some v)"
  by (force simp: bt_mem_iff [symmetric] image_iff)

lemma map_of_bt_retain: "bt_wf m \<Longrightarrow> map_of (bt_retain P m) k =
    (case map_of m k of None \<Rightarrow> None | Some v \<Rightarrow> if P k v then Some v else None)"
proof (induction m)
  case (Cons p m)
  have tl: "bt_wf m" using Cons.prems by (simp add: bt_wf_def)
  have fresh: "map_of m (fst p) = None"
    using bt_wf_distinct [OF Cons.prems] by (simp add: map_of_eq_None_iff)
  show ?case
    using Cons.IH [OF tl] fresh by (cases p) (auto simp: bt_retain_def)
qed (simp add: bt_retain_def)

lemma map_of_rev_wf: "bt_wf m \<Longrightarrow> map_of (rev m) = map_of m"
  using bt_wf_distinct [of m] by (intro map_of_eqI) (auto simp: rev_map [symmetric])

lemma map_of_extend: "bt_wf n \<Longrightarrow> map_of (bt_extend m n) = map_of m ++ map_of n"
  by (auto simp: map_of_bt_extend map_of_rev_wf map_add_def fun_eq_iff)

lemma bt_wf_ext:
  assumes "bt_wf m" "bt_wf n" and eq: "map_of m = map_of n"
  shows "m = n"
proof -
  have set: "set m = set n"
    using assms bt_mem_iff [OF assms(1)] bt_mem_iff [OF assms(2)] by auto
  then have "map fst m = map fst n"
    using assms(1,2) unfolding bt_wf_def
    by (intro strict_sorted_equal) auto
  moreover have "map snd m = map (the \<circ> map_of m) (map fst m)"
    using bt_mem_iff [OF assms(1)] by (auto intro!: nth_equalityI simp: comp_def)
  moreover have "map snd n = map (the \<circ> map_of n) (map fst n)"
    using bt_mem_iff [OF assms(2)] by (auto intro!: nth_equalityI simp: comp_def)
  ultimately show ?thesis using eq by (metis zip_map_fst_snd)
qed

subsection \<open>The interface\<close>

text \<open>
  What the components rely on from a \<^verbatim>\<open>BTreeMap\<close>: lookup after insertion and removal, and that the
  entries determine the map. The laws below are proved once from it.
\<close>

locale ordered_map =
  fixes look :: "'m \<Rightarrow> 'k \<Rightarrow> 'v option"
    and empty :: 'm
    and ins :: "'k \<Rightarrow> 'v \<Rightarrow> 'm \<Rightarrow> 'm"
    and del :: "'k \<Rightarrow> 'm \<Rightarrow> 'm"
    and wf :: "'m \<Rightarrow> bool"
  assumes wf_empty: "wf empty" and look_empty: "look empty = Map.empty"
    and wf_ins: "wf m \<Longrightarrow> wf (ins k v m)" and look_ins: "look (ins k v m) = (look m)(k \<mapsto> v)"
    and wf_del: "wf m \<Longrightarrow> wf (del k m)" and look_del: "look (del k m) = (look m)(k := None)"
    and ext: "wf m \<Longrightarrow> wf n \<Longrightarrow> look m = look n \<Longrightarrow> m = n"
begin

lemma ins_overwrites: "wf m \<Longrightarrow> ins k v (ins k w m) = ins k v m"
  by (intro ext) (simp_all add: wf_ins look_ins)

lemma ins_commute: "wf m \<Longrightarrow> j \<noteq> k \<Longrightarrow> ins j v (ins k w m) = ins k w (ins j v m)"
  by (intro ext) (simp_all add: wf_ins look_ins fun_upd_twist)

lemma ins_present: "wf m \<Longrightarrow> look m k = Some v \<Longrightarrow> ins k v m = m"
  by (intro ext) (simp_all add: wf_ins look_ins fun_upd_idem)

lemma del_ins: "wf m \<Longrightarrow> look m k = None \<Longrightarrow> del k (ins k v m) = m"
  by (intro ext) (simp_all add: wf_ins look_ins wf_del look_del fun_upd_idem)

end

interpretation bt: ordered_map map_of "[]" bt_insert bt_remove bt_wf
  by unfold_locales (auto intro: bt_wf_ext)

end
