(* ===== verification/Vault_Types.thy ===== *)
theory Vault_Types
  imports Prelude
begin

text \<open>
  The data model of the policy core (\<^verbatim>\<open>src/src/agent/mod.rs\<close>): enumerations as datatypes,
  structs as records with a prefix per struct, the staging state \<open>application\<close>, and the
  methods on single values (which fields are secret, when an input is valid). A \<^verbatim>\<open>String\<close> is
  its list of bytes, so that \<open>length\<close> is \<^verbatim>\<open>len()\<close> and the list order is \<^verbatim>\<open>Ord\<close>. Serialisation and
  hashing come from other crates; the functions the code calls are collected in the record
  \<open>externals\<close> and passed to the operations that use them.
\<close>

section \<open>Enumerations\<close>

datatype field = Label | Username | Password | ApiKey | Notes

datatype permission =
  MetadataRead | SecretUse | SecretRead | SecretWrite | AccessGrant | EntryDelete

datatype credential_kind = KLogin | KApiKey

datatype signup_state =
  SPending | SSubmitted | SReportedSuccess | SVerifiedLogin | SRejected | SHumanRequired | SUnknown

datatype error =
  Denied | Invalid | Conflict | ReplayConflict | ClockRecoveryRequired | Capacity
  | InteractionRequired | GenerationUnavailable | NotPublished | RecoveryRequired
  | InvalidStorage | InUse

datatype delivery_status = DAccepted | DRejected | DHumanRequired | DUnknown

datatype private_action = ActUse | ActRegister | ActLogin

datatype cached_kind =
  CkCreate | CkPatch | CkMetadataPatch | CkDelete | CkShare | CkRevoke | CkReportOutcome

datatype audit_action = AuMutation | AuMetadataRead | AuSecretRead | AuSecretUse

text \<open>Fields are ordered as they are declared, which is the key order of credential values.\<close>

fun field_rank :: "field \<Rightarrow> nat" where
  "field_rank Label = 0"
| "field_rank Username = 1"
| "field_rank Password = 2"
| "field_rank ApiKey = 3"
| "field_rank Notes = 4"

lemma field_rank_inject: "field_rank f = field_rank g \<Longrightarrow> f = g"
  by (cases f; cases g) simp_all

instantiation field :: linorder
begin

definition less_eq_field :: "field \<Rightarrow> field \<Rightarrow> bool" where
  "less_eq_field f g \<longleftrightarrow> field_rank f \<le> field_rank g"

definition less_field :: "field \<Rightarrow> field \<Rightarrow> bool" where
  "less_field f g \<longleftrightarrow> field_rank f < field_rank g"

instance
  by standard (auto simp: less_eq_field_def less_field_def dest: field_rank_inject)

end

definition secret :: "field \<Rightarrow> bool" where
  "secret f \<longleftrightarrow> f = Password \<or> f = ApiKey"

type_synonym fields = "field set"
type_synonym permissions = "permission set"

section \<open>Contexts, approvals and credential values\<close>

record auth_context =
  ctx_owner :: string
  ctx_principal :: string
  ctx_workspace :: string
  ctx_admin :: bool
  ctx_session_deadline :: "time option"

definition from_authenticated_peer :: "string \<Rightarrow> string \<Rightarrow> string \<Rightarrow> auth_context" where
  "from_authenticated_peer owner princ workspace =
     \<lparr>ctx_owner = owner, ctx_principal = princ, ctx_workspace = workspace,
      ctx_admin = False, ctx_session_deadline = None\<rparr>"

definition from_authenticated_session ::
    "string \<Rightarrow> string \<Rightarrow> string \<Rightarrow> time \<Rightarrow> auth_context" where
  "from_authenticated_session owner princ workspace deadline =
     \<lparr>ctx_owner = owner, ctx_principal = princ, ctx_workspace = workspace,
      ctx_admin = False, ctx_session_deadline = Some deadline\<rparr>"

definition from_authenticated_admin :: "string \<Rightarrow> string \<Rightarrow> string \<Rightarrow> auth_context" where
  "from_authenticated_admin owner princ workspace =
     \<lparr>ctx_owner = owner, ctx_principal = princ, ctx_workspace = workspace,
      ctx_admin = True, ctx_session_deadline = None\<rparr>"

record share_bounds =
  sb_recipients :: "string fset"
  sb_fields :: fields
  sb_permissions :: permissions
  sb_destinations :: "string fset"
  sb_expires_at :: time
  sb_allow_follow_active :: bool

record task_approval =
  tk_id :: uuid
  tk_owner :: string
  tk_principal :: string
  tk_workspace :: string
  tk_service :: string
  tk_origin :: string
  tk_fields :: fields
  tk_permissions :: permissions
  tk_destinations :: "string fset"
  tk_expires_at :: time
  tk_share :: "share_bounds option"

type_synonym secret_input = "(field, string) btmap"

definition metadata_only :: "secret_input \<Rightarrow> bool" where
  "metadata_only v \<longleftrightarrow> list_all (\<lambda>f. \<not> secret f) (bt_keys v)"

definition changes_credential :: "secret_input \<Rightarrow> bool" where
  "changes_credential v \<longleftrightarrow> list_ex (\<lambda>f. secret f \<or> f = Username) (bt_keys v)"

definition input_fields :: "secret_input \<Rightarrow> fields" where
  "input_fields v = set (bt_keys v)"

definition input_valid :: "secret_input \<Rightarrow> bool" where
  "input_valid v \<longleftrightarrow> v \<noteq> [] \<and> length v \<le> 5 \<and>
     list_all (\<lambda>(f, s). length s \<le> 8192 \<and> (\<not> secret f \<or> s \<noteq> [])) v"

section \<open>Records, grants and requests\<close>

record vault_record =
  vr_id :: uuid
  vr_owner :: string
  vr_workspace :: string
  vr_created_by :: string
  vr_task :: uuid
  vr_service :: string
  vr_origin :: string
  vr_kind :: credential_kind
  vr_revision :: u64
  vr_secret_version :: u64
  vr_values :: secret_input
  vr_signup :: signup_state
  vr_deleted :: bool
  vr_restored :: bool

record grant_spec =
  gs_recipient :: string
  gs_fields :: fields
  gs_permissions :: permissions
  gs_destinations :: "string fset"
  gs_expires_at :: time
  gs_follow_active :: bool

record grant =
  gr_record :: uuid
  gr_spec :: grant_spec
  gr_revoked :: bool
  gr_version :: u64
  gr_issuer_task :: uuid
  gr_admin_issued :: bool

record generation_policy =
  gp_length :: u8
  gp_symbols :: bool
  gp_require_classes :: bool

definition policy_valid :: "generation_policy \<Rightarrow> bool" where
  "policy_valid p \<longleftrightarrow> 16 \<le> gp_length p \<and> gp_length p \<le> 128"

datatype mutation =
    Create credential_kind secret_input
  | Generate credential_kind "string option" "generation_policy option"
  | Patch uuid u64 secret_input
  | Delete uuid u64
  | Share uuid u64 grant_spec
  | Revoke uuid u64 uuid
  | ReportOutcome uuid u64 signup_state

record receipt =
  rc_record :: uuid
  rc_revision :: u64
  rc_grant :: "uuid option"

record metadata_view =
  mv_revision :: u64
  mv_signup :: signup_state
  mv_fields :: "(field, string) btmap"

record private_use =
  pu_request :: uuid
  pu_record :: uuid
  pu_fields :: fields
  pu_destination :: string
  pu_action :: private_action

record delivery_receipt =
  dr_attempt :: uuid
  dr_status :: delivery_status

text \<open>Request keys are map keys: compared field by field in declaration order.\<close>

datatype request_key =
  RequestKey (rk_owner: string) (rk_principal: string) (rk_task: uuid) (rk_id: uuid)

text \<open>The derived order compares the fields in the order of their declaration.\<close>

definition key_less :: "request_key \<Rightarrow> request_key \<Rightarrow> bool" where
  "key_less a b \<longleftrightarrow>
     rk_owner a < rk_owner b \<or> rk_owner a = rk_owner b \<and>
     (rk_principal a < rk_principal b \<or> rk_principal a = rk_principal b \<and>
     (rk_task a < rk_task b \<or> rk_task a = rk_task b \<and> rk_id a < rk_id b))"

instantiation request_key :: linorder
begin

definition less_request_key :: "request_key \<Rightarrow> request_key \<Rightarrow> bool" where
  "less_request_key a b = key_less a b"

definition less_eq_request_key :: "request_key \<Rightarrow> request_key \<Rightarrow> bool" where
  "less_eq_request_key a b \<longleftrightarrow> a < b \<or> a = b"

instance
proof
  fix a b c :: request_key
  show "(a < b) = (a \<le> b \<and> \<not> b \<le> a)"
    by (auto simp: less_request_key_def key_less_def less_eq_request_key_def)
  show "a \<le> a" by (simp add: less_eq_request_key_def)
  show "a \<le> b \<Longrightarrow> b \<le> c \<Longrightarrow> a \<le> c"
    by (auto simp: less_request_key_def key_less_def less_eq_request_key_def)
  show "a \<le> b \<Longrightarrow> b \<le> a \<Longrightarrow> a = b"
    by (auto simp: less_request_key_def key_less_def less_eq_request_key_def)
  show "a \<le> b \<or> b \<le> a"
    by (cases a; cases b) (auto simp: less_request_key_def key_less_def less_eq_request_key_def)
qed

end

type_synonym digest = "u8 list"

record remembered =
  rm_fingerprint :: digest
  rm_result :: receipt
  rm_kind :: cached_kind
  rm_at :: "time option"

record record_baseline =
  rb_through :: u64
  rb_secret_version :: u64
  rb_delete_pruned :: bool
  rb_pruned_grants :: "uuid list"
  rb_registration_dispatched :: bool
  rb_verified_login :: bool

definition default_baseline :: record_baseline where
  "default_baseline = \<lparr>rb_through = 0, rb_secret_version = 0, rb_delete_pruned = False,
     rb_pruned_grants = [], rb_registration_dispatched = False, rb_verified_login = False\<rparr>"

record delivery_attempt =
  da_task :: uuid
  da_record :: uuid
  da_version :: u64
  da_destination :: string
  da_fields :: fields
  da_status :: "delivery_status option"
  da_key :: request_key
  da_fingerprint :: digest
  da_action :: private_action
  da_dispatched :: bool
  da_at :: "time option"

record audit_event =
  ae_task :: uuid
  ae_record :: uuid
  ae_request :: "uuid option"
  ae_action :: audit_action
  ae_at :: time
  ae_principal :: string

section \<open>The staging state\<close>

record application =
  app_tasks :: "(uuid, task_approval) btmap"
  app_records :: "(uuid, vault_record) btmap"
  app_grants :: "(uuid, grant) btmap"
  app_requests :: "(request_key, remembered) btmap"
  app_audit :: "audit_event list"
  app_last_time :: "time option"
  app_clock_frozen :: bool
  app_generation :: u64
  app_revoked_tasks :: "uuid fset"
  app_deliveries :: "(uuid, delivery_attempt) btmap"
  app_baselines :: "(uuid, record_baseline) btmap"
  app_predecessor :: "digest option"

definition default_application :: application where
  "default_application = \<lparr>app_tasks = [], app_records = [], app_grants = [], app_requests = [],
     app_audit = [], app_last_time = None, app_clock_frozen = False, app_generation = 0,
     app_revoked_tasks = {||}, app_deliveries = [], app_baselines = [], app_predecessor = None\<rparr>"

text \<open>Functions of other crates that the policy core calls: JSON encoding and SHA-256.\<close>

record externals =
  ex_mutation_json :: "mutation \<Rightarrow> u8 list option"
  ex_use_json :: "private_use \<Rightarrow> u8 list option"
  ex_sha256 :: "u8 list \<Rightarrow> digest"

section \<open>Facts about values\<close>

lemma metadata_only_no_secret: "metadata_only v \<Longrightarrow> f \<in> input_fields v \<Longrightarrow> \<not> secret f"
  by (auto simp: metadata_only_def input_fields_def list_all_iff)

lemma input_fields_empty [simp]: "input_fields [] = {}"
  by (simp add: input_fields_def)

lemma input_fields_extend [simp]:
  "input_fields (bt_extend v w) = input_fields v \<union> input_fields w"
  by (simp add: input_fields_def keys_bt_extend)

lemma card_field_set: "card (F :: field set) \<le> 5"
proof -
  have "F \<subseteq> {Label, Username, Password, ApiKey, Notes}"
    by (auto intro: field.exhaust)
  then have "card F \<le> card {Label, Username, Password, ApiKey, Notes}"
    by (intro card_mono) auto
  then show ?thesis by simp
qed

lemma bt_wf_length_fields: "bt_wf v \<Longrightarrow> length (v :: secret_input) \<le> 5"
  using card_field_set [of "fst ` set v"] distinct_card [OF bt_wf_distinct, of v]
  by simp

text \<open>Extending valid values with valid values gives valid values.\<close>

lemma set_bt_insert: "set (bt_insert k v m) \<subseteq> insert (k, v) (set m)"
  by (induction m) auto

lemma set_bt_extend: "set (bt_extend m n) \<subseteq> set m \<union> set n"
proof (induction n arbitrary: m)
  case (Cons p n)
  have "set (bt_insert (fst p) (snd p) m) \<subseteq> insert p (set m)"
    using set_bt_insert [of "fst p" "snd p" m] by simp
  with Cons [of "bt_insert (fst p) (snd p) m"] show ?case
    by (auto simp: bt_extend_def)
qed (simp add: bt_extend_def)

lemma bt_insert_nonempty [simp]: "bt_insert k v m \<noteq> []"
  by (cases m) auto

lemma bt_extend_nonempty: "n \<noteq> [] \<or> m \<noteq> [] \<Longrightarrow> bt_extend m n \<noteq> []"
  by (induction n arbitrary: m) (auto simp: bt_extend_def)

lemma input_valid_extend:
  assumes "bt_wf v" and "input_valid v" and "input_valid w"
  shows "input_valid (bt_extend v w)"
proof -
  have "length (bt_extend v w) \<le> 5"
    using assms(1) by (intro bt_wf_length_fields) simp
  then show ?thesis
    using assms set_bt_extend [of v w] bt_extend_nonempty [of w v]
    by (fastforce simp: input_valid_def list_all_iff)
qed

end
