(* ===== verification/Generation.thy ===== *)
theory Generation
  imports Vault_Types
begin

unbundle bit_operations_syntax

text \<open>
  Private credential generation (\<^verbatim>\<open>src/src/agent/mod.rs\<close>, lines 316 to 407). The operating
  system's generator is outside the repository: a call of \<^verbatim>\<open>try_fill_bytes\<close> either fails or fills
  the whole buffer. \<open>entropy\<close> is the list of outcomes of the successive calls; after the listed
  outcomes every call fails. A run of the program that returns makes finitely many calls, so every
  such run is one of the model, and every loop below is a recursion that ends.
\<close>

type_synonym entropy = "(nat \<Rightarrow> u8) option list"

fun try_fill_bytes :: "nat \<Rightarrow> entropy \<Rightarrow> u8 list option \<times> entropy" where
  "try_fill_bytes n [] = (None, [])"
| "try_fill_bytes n (None # e) = (None, e)"
| "try_fill_bytes n (Some f # e) = (Some (map f [0..<n]), e)"

lemma length_try_fill_bytes: "try_fill_bytes n e = (Some bs, e') \<Longrightarrow> length bs = n \<and> length e' < length e"
  by (induction n e rule: try_fill_bytes.induct) auto

section \<open>Definitions\<close>

definition generation_fields :: "credential_kind \<Rightarrow> string option \<Rightarrow> error + fields" where
  "generation_fields kind username =
     (case (kind, username) of
        (KLogin, Some name) \<Rightarrow>
          if name \<noteq> [] \<and> length name \<le> 2048 then Inr {Username, Password} else Inl Invalid
      | (KApiKey, None) \<Rightarrow> Inr {ApiKey}
      | _ \<Rightarrow> Inl Invalid)"

definition generation_alphabet :: string where
  "generation_alphabet = ''ABCDEFGHIJKLMNOPQRSTUVWXYZabcdefghijklmnopqrstuvwxyz0123456789-_''"

definition generation_symbols :: string where
  "generation_symbols = ''!@#$%^&*+=?''"

definition generation_index :: "u8 \<Rightarrow> nat \<Rightarrow> nat option" where
  "generation_index byte span =
     (if span = 0 \<or> 256 < span then None
      else let limit = (256 div span) * span; value = unat byte
           in if value < limit then Some (value mod span) else None)"

fun push_block :: "string \<Rightarrow> nat \<Rightarrow> string \<Rightarrow> u8 list \<Rightarrow> string" where
  "push_block alphabet len acc [] = acc"
| "push_block alphabet len acc (byte # bytes) =
     (if length acc = len then acc
      else case generation_index byte (length alphabet) of
             Some i \<Rightarrow> push_block alphabet len (acc @ [alphabet ! i]) bytes
           | None \<Rightarrow> push_block alphabet len acc bytes)"

function sample_loop ::
    "string \<Rightarrow> nat \<Rightarrow> string \<Rightarrow> entropy \<Rightarrow> (error + string) \<times> entropy" where
  "sample_loop alphabet len acc e =
     (if length acc < len then
        (case try_fill_bytes 128 e of
           (None, e') \<Rightarrow> (Inl GenerationUnavailable, e')
         | (Some random, e') \<Rightarrow> sample_loop alphabet len (push_block alphabet len acc random) e')
      else (Inr acc, e))"
  by pat_completeness auto
termination
  by (relation "measure (\<lambda>(alphabet, len, acc, e). length e)")
     (auto dest: length_try_fill_bytes [OF sym])

declare sample_loop.simps [simp del]

definition sample_secret :: "string \<Rightarrow> nat \<Rightarrow> entropy \<Rightarrow> (error + string) \<times> entropy" where
  "sample_secret alphabet len e = sample_loop alphabet len [] e"

record classes =
  cl_upper :: bool
  cl_lower :: bool
  cl_digit :: bool
  cl_symbol :: bool

definition classes_step :: "bool \<Rightarrow> char \<Rightarrow> classes \<Rightarrow> classes" where
  "classes_step symbols byte c =
     (if CHR ''A'' \<le> byte \<and> byte \<le> CHR ''Z'' then c\<lparr>cl_upper := True\<rparr>
      else if CHR ''a'' \<le> byte \<and> byte \<le> CHR ''z'' then c\<lparr>cl_lower := True\<rparr>
      else if CHR ''0'' \<le> byte \<and> byte \<le> CHR ''9'' then c\<lparr>cl_digit := True\<rparr>
      else if symbols \<and> byte \<in> set generation_symbols then c\<lparr>cl_symbol := True\<rparr>
      else c)"

definition classes_present :: "string \<Rightarrow> bool \<Rightarrow> bool" where
  "classes_present s symbols =
     (let c = fold (classes_step symbols) s
            \<lparr>cl_upper = False, cl_lower = False, cl_digit = False, cl_symbol = \<not> symbols\<rparr>
      in cl_upper c \<and> cl_lower c \<and> cl_digit c \<and> cl_symbol c)"

fun generate_attempts ::
    "nat \<Rightarrow> generation_policy \<Rightarrow> string \<Rightarrow> entropy \<Rightarrow> error + string" where
  "generate_attempts 0 policy alphabet e = Inl GenerationUnavailable"
| "generate_attempts (Suc n) policy alphabet e =
     (case sample_secret alphabet (unat (gp_length policy)) e of
        (Inl err, e') \<Rightarrow> Inl err
      | (Inr s, e') \<Rightarrow>
          if \<not> gp_require_classes policy \<or> classes_present s (gp_symbols policy) then Inr s
          else generate_attempts n policy alphabet e')"

definition generate_secret :: "generation_policy option \<Rightarrow> entropy \<Rightarrow> error + string" where
  "generate_secret policy e =
     (case policy of
        None \<Rightarrow>
          (case try_fill_bytes 32 e of
             (None, _) \<Rightarrow> Inl GenerationUnavailable
           | (Some random, _) \<Rightarrow>
               Inr (map (\<lambda>byte. generation_alphabet ! unat (byte AND 63)) random))
      | Some p \<Rightarrow>
          if \<not> policy_valid p then Inl Invalid
          else generate_attempts 128 p
                 (generation_alphabet @ (if gp_symbols p then generation_symbols else [])) e)"

definition generate_values ::
    "credential_kind \<Rightarrow> string option \<Rightarrow> generation_policy option \<Rightarrow> entropy \<Rightarrow> error + secret_input" where
  "generate_values kind username policy e =
     (case generate_secret policy e of
        Inl err \<Rightarrow> Inl err
      | Inr s \<Rightarrow>
          (case kind of
             KLogin \<Rightarrow>
               (case username of
                  None \<Rightarrow> Inl Invalid
                | Some name \<Rightarrow> Inr (bt_insert Password s (bt_insert Username name [])))
           | KApiKey \<Rightarrow> Inr (bt_insert ApiKey s [])))"

section \<open>Sampling\<close>

lemma generation_index_less: "generation_index b n = Some i \<Longrightarrow> i < n"
  by (auto simp: generation_index_def Let_def split: if_splits)

lemma card_u8_image: "card {b :: u8. P (unat b)} = card {v. v < 256 \<and> P v}"
proof -
  have less: "unat b < 256" for b :: u8
    using unsigned_less [of b] by simp
  have "bij_betw unat {b :: u8. P (unat b)} {v. v < 256 \<and> P v}"
  proof (rule bij_betw_byWitness [where f' = word_of_nat])
    show "unat ` {b :: u8. P (unat b)} \<subseteq> {v. v < 256 \<and> P v}"
      using less by auto
    show "word_of_nat ` {v. v < 256 \<and> P v} \<subseteq> {b :: u8. P (unat b)}"
      by (auto simp: unat_of_nat)
  qed (auto simp: unat_of_nat)
  then show ?thesis by (rule bij_betw_same_card)
qed

lemma card_residues:
  fixes n i q :: nat
  assumes "i < n"
  shows "card {v. v < q * n \<and> v mod n = i} = q"
proof -
  have "{v. v < q * n \<and> v mod n = i} = (\<lambda>k. k * n + i) ` {..<q}"
  proof (intro equalityI subsetI)
    fix v assume v: "v \<in> {v. v < q * n \<and> v mod n = i}"
    then have "v = (v div n) * n + i" by (metis (mono_tags) mem_Collect_eq div_mult_mod_eq)
    moreover have "v div n < q" using v by (auto simp: less_mult_imp_div_less)
    ultimately show "v \<in> (\<lambda>k. k * n + i) ` {..<q}" by blast
  next
    fix v assume "v \<in> (\<lambda>k. k * n + i) ` {..<q}"
    then obtain k where k: "k < q" "v = k * n + i" by auto
    have "v < (k + 1) * n" using k assms by simp
    also have "(k + 1) * n \<le> q * n" using k by (intro mult_le_mono1) simp
    finally show "v \<in> {v. v < q * n \<and> v mod n = i}" using k assms by simp
  qed
  moreover have "inj_on (\<lambda>k. k * n + i) {..<q}" using assms by (auto simp: inj_on_def)
  ultimately show ?thesis by (simp add: card_image)
qed

lemma push_block_props:
  assumes "length acc \<le> len" "set acc \<subseteq> set alphabet"
  shows "length (push_block alphabet len acc bytes) \<le> len \<and>
         set (push_block alphabet len acc bytes) \<subseteq> set alphabet"
  using assms
proof (induction alphabet len acc bytes rule: push_block.induct)
  case (2 alphabet len acc byte bytes)
  show ?case
  proof (cases "generation_index byte (length alphabet)")
    case None
    with 2 show ?thesis by (cases "length acc = len") auto
  next
    case (Some i)
    then have "i < length alphabet" by (rule generation_index_less)
    with 2 Some show ?thesis by (cases "length acc = len") auto
  qed
qed auto

lemma sample_loop_props:
  assumes "sample_loop alphabet len acc e = (Inr s, e')"
    and "length acc \<le> len" "set acc \<subseteq> set alphabet"
  shows "length s = len \<and> set s \<subseteq> set alphabet"
  using assms
proof (induction alphabet len acc e rule: sample_loop.induct)
  case (1 alphabet len acc e)
  show ?case
  proof (cases "length acc < len")
    case True
    then obtain random e1 where fill: "try_fill_bytes 128 e = (Some random, e1)"
      using "1.prems"(1)
      by (auto simp: sample_loop.simps [of alphabet len acc e] split: prod.splits option.splits)
    with True "1.prems"(1)
    have "sample_loop alphabet len (push_block alphabet len acc random) e1 = (Inr s, e')"
      by (simp add: sample_loop.simps [of alphabet len acc e])
    with "1.IH" [OF True fill [symmetric] refl] push_block_props [OF "1.prems"(2,3)]
    show ?thesis by blast
  next
    case False
    with "1.prems" show ?thesis by (simp add: sample_loop.simps [of alphabet len acc e])
  qed
qed

lemma sample_secret_props:
  "sample_secret alphabet len e = (Inr s, e') \<Longrightarrow> length s = len \<and> set s \<subseteq> set alphabet"
  unfolding sample_secret_def by (rule sample_loop_props) auto

lemma generate_attempts_props:
  "generate_attempts n p alphabet e = Inr s \<Longrightarrow>
     length s = unat (gp_length p) \<and> set s \<subseteq> set alphabet \<and>
     (gp_require_classes p \<longrightarrow> classes_present s (gp_symbols p))"
  by (induction n p alphabet e rule: generate_attempts.induct)
     (auto split: prod.splits sum.splits if_splits dest: sample_secret_props)

end
