(* ===== verification/Policy.thy ===== *)
theory Policy
  imports Generation
begin

text \<open>
  The policy operations of \<^verbatim>\<open>Application\<close> (\<^verbatim>\<open>src/src/agent/mod.rs\<close>, lines 460 to 782): the
  trusted clock, task approval and revocation, the authorisation checks and the operations that
  agents and the administrator call. A method that takes \<^verbatim>\<open>&mut self\<close> returns the new state with
  its result, also on an error, because the clock moves before the checks. The clock value, the
  identifier that \<^verbatim>\<open>Uuid::new_v4\<close> returns and the entropy of one call are arguments.
\<close>

section \<open>Audit, registration and clock\<close>

definition audit_push :: "application \<Rightarrow> audit_event \<Rightarrow> application" where
  "audit_push app event =
     (let kept = (if length (app_audit app) = 10000 then tl (app_audit app) else app_audit app)
      in app\<lparr>app_audit := kept @ [event]\<rparr>)"

definition registration_sealed :: "application \<Rightarrow> uuid \<Rightarrow> bool" where
  "registration_sealed app rid \<longleftrightarrow>
     (case map_of (app_baselines app) rid of
        Some base \<Rightarrow> rb_registration_dispatched base | None \<Rightarrow> False)
     \<or> list_ex (\<lambda>d. da_record d = rid \<and> da_action d = ActRegister \<and> da_dispatched d)
         (bt_values (app_deliveries app))"

definition audit_events :: "application \<Rightarrow> auth_context \<Rightarrow> error + audit_event list" where
  "audit_events app admin =
     (if \<not> ctx_admin admin then Inl Denied
      else Inr (filter (\<lambda>event.
             case map_of (app_tasks app) (ae_task event) of
               Some t \<Rightarrow> tk_owner t = ctx_owner admin \<and> tk_workspace t = ctx_workspace admin
             | None \<Rightarrow> False) (app_audit app)))"

definition clock_skew_tolerance :: time where "clock_skew_tolerance = 5"

definition effective_time :: "application \<Rightarrow> time \<Rightarrow> error + time" where
  "effective_time app now =
     (if app_clock_frozen app then Inl ClockRecoveryRequired
      else case app_last_time app of
             Some high \<Rightarrow>
               if now < high then
                 (if sat_sub high now \<le> clock_skew_tolerance then Inr high
                  else Inl ClockRecoveryRequired)
               else Inr now
           | None \<Rightarrow> Inr now)"

definition clock :: "application \<Rightarrow> time \<Rightarrow> (error + time) \<times> application" where
  "clock app now =
     (case effective_time app now of
        Inl e \<Rightarrow> (Inl e, app\<lparr>app_clock_frozen := True\<rparr>)
      | Inr effective \<Rightarrow>
          (Inr effective,
           if (case app_last_time app of None \<Rightarrow> True | Some high \<Rightarrow> high < now)
           then app\<lparr>app_last_time := Some now\<rparr> else app))"

section \<open>Tasks\<close>

definition name_ok :: "string \<Rightarrow> bool" where
  "name_ok s \<longleftrightarrow> s \<noteq> [] \<and> length s \<le> 2048"

definition task_fields_ok :: "task_approval \<Rightarrow> time \<Rightarrow> bool" where
  "task_fields_ok t now \<longleftrightarrow>
     \<not> (tk_id t = nil_uuid \<or> tk_expires_at t \<le> now \<or> tk_fields t = {} \<or> tk_permissions t = {}
        \<or> tk_owner t = [] \<or> tk_principal t = [] \<or> tk_workspace t = [] \<or> tk_service t = [] \<or> tk_origin t = []
        \<or> list_ex (\<lambda>s. 2048 < length s)
            [tk_owner t, tk_principal t, tk_workspace t, tk_service t, tk_origin t]
        \<or> 32 < fcard (tk_destinations t) \<or> (\<exists>s |\<in>| tk_destinations t. \<not> name_ok s))"

definition share_bounds_ok :: "task_approval \<Rightarrow> share_bounds \<Rightarrow> time \<Rightarrow> bool" where
  "share_bounds_ok t b now \<longleftrightarrow>
     \<not> (sb_recipients b = {||} \<or> 32 < fcard (sb_recipients b)
        \<or> (\<exists>s |\<in>| sb_recipients b. \<not> name_ok s)
        \<or> \<not> sb_fields b \<subseteq> tk_fields t \<or> \<not> sb_permissions b \<subseteq> tk_permissions t
        \<or> \<not> sb_destinations b |\<subseteq>| tk_destinations t \<or> tk_expires_at t < sb_expires_at b
        \<or> sb_expires_at b \<le> now \<or> AccessGrant \<in> sb_permissions b)"

definition approve_task ::
    "application \<Rightarrow> auth_context \<Rightarrow> task_approval \<Rightarrow> time \<Rightarrow> (error + unit) \<times> application" where
  "approve_task app0 admin t now0 =
     (case clock app0 now0 of
        (Inl e, app) \<Rightarrow> (Inl e, app)
      | (Inr now, app) \<Rightarrow>
          if \<not> ctx_admin admin \<or> ctx_owner admin \<noteq> tk_owner t \<or> ctx_workspace admin \<noteq> tk_workspace t
          then (Inl Denied, app)
          else if list_ex (\<lambda>k. tk_owner k \<noteq> tk_owner t \<or> tk_workspace k \<noteq> tk_workspace t)
                    (bt_values (app_tasks app))
          then (Inl Denied, app)
          else if \<not> task_fields_ok t now then (Inl Invalid, app)
          else if (case tk_share t of None \<Rightarrow> False | Some b \<Rightarrow> \<not> share_bounds_ok t b now)
          then (Inl Invalid, app)
          else if bt_contains (app_tasks app) (tk_id t) then (Inl Conflict, app)
          else if 10000 \<le> length (app_tasks app) then (Inl Capacity, app)
          else (Inr (), app\<lparr>app_tasks := bt_insert (tk_id t) t (app_tasks app)\<rparr>))"

definition revoke_task ::
    "application \<Rightarrow> auth_context \<Rightarrow> uuid \<Rightarrow> time \<Rightarrow> (error + unit) \<times> application" where
  "revoke_task app0 admin tid now0 =
     (case clock app0 now0 of
        (Inl e, app) \<Rightarrow> (Inl e, app)
      | (Inr now, app) \<Rightarrow>
          (case map_of (app_tasks app) tid of
             None \<Rightarrow> (Inl Denied, app)
           | Some t \<Rightarrow>
               if \<not> ctx_admin admin \<or> ctx_owner admin \<noteq> tk_owner t \<or> ctx_workspace admin \<noteq> tk_workspace t
               then (Inl Denied, app)
               else (Inr (), app\<lparr>app_revoked_tasks := finsert tid (app_revoked_tasks app)\<rparr>)))"

definition task_of :: "application \<Rightarrow> auth_context \<Rightarrow> uuid \<Rightarrow> time \<Rightarrow> error + task_approval" where
  "task_of app ctx tid now =
     (case map_of (app_tasks app) tid of
        None \<Rightarrow> Inl Denied
      | Some t \<Rightarrow>
          if tk_owner t \<noteq> ctx_owner ctx \<or> tk_workspace t \<noteq> ctx_workspace ctx
             \<or> tk_principal t \<noteq> ctx_principal ctx
             \<or> tk_expires_at t \<le> now \<or> tid |\<in>| app_revoked_tasks app
             \<or> (case ctx_session_deadline ctx of Some deadline \<Rightarrow> deadline \<le> now | None \<Rightarrow> False)
          then Inl Denied else Inr t)"

definition trusted_task_context ::
    "application \<Rightarrow> auth_context \<Rightarrow> uuid \<Rightarrow> time \<Rightarrow> error + auth_context" where
  "trusted_task_context app admin tid now =
     (if \<not> ctx_admin admin then Inl Denied
      else case map_of (app_tasks app) tid of
             None \<Rightarrow> Inl Denied
           | Some t \<Rightarrow>
               if tk_owner t \<noteq> ctx_owner admin \<or> tk_workspace t \<noteq> ctx_workspace admin then Inl Denied
               else let ctx = from_authenticated_peer (tk_owner t) (tk_principal t) (tk_workspace t)
                    in case task_of app ctx tid now of Inl e \<Rightarrow> Inl e | Inr _ \<Rightarrow> Inr ctx)"

section \<open>Authorisation\<close>

definition record_of :: "application \<Rightarrow> auth_context \<Rightarrow> uuid \<Rightarrow> error + vault_record" where
  "record_of app ctx rid =
     (case map_of (app_records app) rid of
        None \<Rightarrow> Inl Denied
      | Some r \<Rightarrow>
          if vr_owner r \<noteq> ctx_owner ctx \<or> vr_workspace r \<noteq> ctx_workspace ctx \<or> vr_deleted r
          then Inl Denied else Inr r)"

definition grant_allows ::
    "application \<Rightarrow> auth_context \<Rightarrow> vault_record \<Rightarrow> permission \<Rightarrow> fields \<Rightarrow> string option \<Rightarrow> time
       \<Rightarrow> grant \<Rightarrow> bool" where
  "grant_allows app ctx r perm fs dest now g \<longleftrightarrow>
     gr_record g = vr_id r \<and> \<not> gr_revoked g \<and> now < gs_expires_at (gr_spec g)
     \<and> (if gs_follow_active (gr_spec g) then gr_version g \<le> vr_secret_version r
        else gr_version g = vr_secret_version r)
     \<and> gr_issuer_task g |\<notin>| app_revoked_tasks app
     \<and> (case map_of (app_tasks app) (gr_issuer_task g) of
          Some issuer \<Rightarrow> now < tk_expires_at issuer | None \<Rightarrow> False)
     \<and> gs_recipient (gr_spec g) = ctx_principal ctx \<and> perm \<in> gs_permissions (gr_spec g)
     \<and> fs \<subseteq> gs_fields (gr_spec g)
     \<and> (case dest of None \<Rightarrow> True | Some d \<Rightarrow> d |\<in>| gs_destinations (gr_spec g))"

definition can ::
    "application \<Rightarrow> auth_context \<Rightarrow> task_approval \<Rightarrow> vault_record \<Rightarrow> permission \<Rightarrow> fields
       \<Rightarrow> string option \<Rightarrow> time \<Rightarrow> bool" where
  "can app ctx t r perm fs dest now =
     (if vr_service r \<noteq> tk_service t \<or> vr_origin r \<noteq> tk_origin t \<or> perm \<notin> tk_permissions t
         \<or> \<not> fs \<subseteq> tk_fields t
         \<or> (case dest of None \<Rightarrow> False | Some d \<Rightarrow> d |\<notin>| tk_destinations t)
      then False
      else if vr_created_by r = ctx_principal ctx \<and> vr_task r = tk_id t then True
      else list_ex (grant_allows app ctx r perm fs dest now) (bt_values (app_grants app)))"

definition kind_matches :: "credential_kind \<Rightarrow> secret_input \<Rightarrow> bool" where
  "kind_matches kind v \<longleftrightarrow>
     \<not> (kind = KLogin \<and> (\<not> bt_contains v Password \<or> bt_contains v ApiKey)
        \<or> kind = KApiKey \<and> (\<not> bt_contains v ApiKey \<or> bt_contains v Password))"

definition grant_spec_ok :: "vault_record \<Rightarrow> grant_spec \<Rightarrow> time \<Rightarrow> bool" where
  "grant_spec_ok r s now \<longleftrightarrow>
     \<not> (gs_fields s = {} \<or> gs_permissions s = {} \<or> gs_expires_at s \<le> now
        \<or> gs_recipient s = [] \<or> 2048 < length (gs_recipient s)
        \<or> AccessGrant \<in> gs_permissions s \<or> \<not> gs_fields s \<subseteq> input_fields (vr_values r)
        \<or> 32 < fcard (gs_destinations s) \<or> (\<exists>d |\<in>| gs_destinations s. \<not> name_ok d)
        \<or> (SecretUse \<in> gs_permissions s \<and> gs_destinations s = {||}))"

definition authorize_share ::
    "application \<Rightarrow> auth_context \<Rightarrow> task_approval \<Rightarrow> vault_record \<Rightarrow> grant_spec \<Rightarrow> time \<Rightarrow> error + unit" where
  "authorize_share app ctx t r s now =
     (if \<not> grant_spec_ok r s now then Inl Invalid
      else if \<not> ctx_admin ctx then
        (case tk_share t of
           None \<Rightarrow> Inl Denied
         | Some b \<Rightarrow>
             if \<not> can app ctx t r AccessGrant (gs_fields s) None now
                \<or> (gs_follow_active s \<and> \<not> sb_allow_follow_active b)
                \<or> gs_recipient s |\<notin>| sb_recipients b \<or> \<not> gs_fields s \<subseteq> sb_fields b
                \<or> \<not> gs_permissions s \<subseteq> sb_permissions b
                \<or> \<not> gs_destinations s |\<subseteq>| sb_destinations b
                \<or> sb_expires_at b < gs_expires_at s
             then Inl Denied
             else if \<exists>perm \<in> gs_permissions s. \<not> can app ctx t r perm (gs_fields s) None now
             then Inl Denied
             else Inr ())
      else if vr_service r \<noteq> tk_service t \<or> vr_origin r \<noteq> tk_origin t
              \<or> \<not> gs_fields s \<subseteq> tk_fields t
              \<or> \<not> gs_permissions s \<subseteq> tk_permissions t
              \<or> \<not> gs_destinations s |\<subseteq>| tk_destinations t
              \<or> tk_expires_at t < gs_expires_at s
      then Inl Denied
      else Inr ())"

fun mutation_target :: "mutation \<Rightarrow> (uuid \<times> u64) option" where
  "mutation_target (Patch rid expected _) = Some (rid, expected)"
| "mutation_target (Delete rid expected) = Some (rid, expected)"
| "mutation_target (Share rid expected _) = Some (rid, expected)"
| "mutation_target (Revoke rid expected _) = Some (rid, expected)"
| "mutation_target (ReportOutcome rid expected _) = Some (rid, expected)"
| "mutation_target (Create _ _) = None"
| "mutation_target (Generate _ _ _) = None"

definition is_delete :: "mutation \<Rightarrow> bool" where
  "is_delete op \<longleftrightarrow> (case op of Delete _ _ \<Rightarrow> True | _ \<Rightarrow> False)"

definition is_creation :: "mutation \<Rightarrow> bool" where
  "is_creation op \<longleftrightarrow> (case op of Create _ _ \<Rightarrow> True | Generate _ _ _ \<Rightarrow> True | _ \<Rightarrow> False)"

text \<open>The checks of one kind of record mutation (the second \<^verbatim>\<open>match\<close> of \<^verbatim>\<open>authorize\<close>).\<close>

fun authorize_op ::
    "application \<Rightarrow> auth_context \<Rightarrow> task_approval \<Rightarrow> vault_record \<Rightarrow> mutation \<Rightarrow> time \<Rightarrow> error + unit" where
  "authorize_op app ctx t r (Patch rid expected v) now =
     (if \<not> input_valid v then Inl Invalid
      else if \<not> can app ctx t r SecretWrite (input_fields v) None now then Inl Denied
      else if vr_kind r = KLogin \<and> bt_contains v ApiKey \<or> vr_kind r = KApiKey \<and> bt_contains v Password
      then Inl Invalid else Inr ())"
| "authorize_op app ctx t r (Delete rid expected) now =
     (if \<not> ctx_admin ctx \<and> \<not> can app ctx t r EntryDelete (input_fields (vr_values r)) None now
      then Inl Denied else Inr ())"
| "authorize_op app ctx t r (Share rid expected s) now = authorize_share app ctx t r s now"
| "authorize_op app ctx t r (Revoke rid expected gid) now =
     (case map_of (app_grants app) gid of
        None \<Rightarrow> Inl Denied
      | Some g \<Rightarrow>
          if gr_record g \<noteq> rid
             \<or> (\<not> ctx_admin ctx \<and> \<not> can app ctx t r AccessGrant (gs_fields (gr_spec g)) None now)
          then Inl Denied else Inr ())"
| "authorize_op app ctx t r (ReportOutcome rid expected state) now =
     (if state = SVerifiedLogin \<or> \<not> can app ctx t r SecretWrite {} None now
      then Inl Denied else Inr ())"
| "authorize_op app ctx t r (Create _ _) now = Inr ()"
| "authorize_op app ctx t r (Generate _ _ _) now = Inr ()"

definition authorize_target ::
    "application \<Rightarrow> auth_context \<Rightarrow> task_approval \<Rightarrow> mutation \<Rightarrow> uuid \<times> u64 \<Rightarrow> time \<Rightarrow> bool \<Rightarrow> error + unit" where
  "authorize_target app ctx t op target now retry =
     (case map_of (app_records app) (fst target) of
        None \<Rightarrow> Inl Denied
      | Some r \<Rightarrow>
          if vr_owner r \<noteq> ctx_owner ctx \<or> vr_workspace r \<noteq> ctx_workspace ctx
             \<or> (vr_deleted r \<and> \<not> (retry \<and> is_delete op))
          then Inl Denied
          else case authorize_op app ctx t r op now of
                 Inl e \<Rightarrow> Inl e
               | Inr _ \<Rightarrow>
                   if \<not> retry \<and> vr_revision r \<noteq> snd target then Inl Conflict
                   else if \<not> retry \<and> vr_revision r = u64_max then Inl Capacity
                   else Inr ())"

definition authorize ::
    "application \<Rightarrow> auth_context \<Rightarrow> task_approval \<Rightarrow> mutation \<Rightarrow> time \<Rightarrow> bool \<Rightarrow> error + unit" where
  "authorize app ctx t op now retry =
     (case op of
        Generate kind username policy \<Rightarrow>
          if (case policy of Some p \<Rightarrow> \<not> policy_valid p | None \<Rightarrow> False) then Inl Invalid
          else (case generation_fields kind username of
                  Inl e \<Rightarrow> Inl e
                | Inr fs \<Rightarrow>
                    if SecretWrite \<notin> tk_permissions t \<or> \<not> fs \<subseteq> tk_fields t then Inl Denied
                    else Inr ())
      | Create kind v \<Rightarrow>
          if \<not> input_valid v then Inl Invalid
          else if SecretWrite \<notin> tk_permissions t \<or> \<not> input_fields v \<subseteq> tk_fields t then Inl Denied
          else if \<not> kind_matches kind v then Inl Invalid
          else Inr ()
      | _ \<Rightarrow>
          (case mutation_target op of
             None \<Rightarrow> Inr ()
           | Some target \<Rightarrow> authorize_target app ctx t op target now retry))"

section \<open>Mutations\<close>

definition cached_kind_of :: "mutation \<Rightarrow> cached_kind" where
  "cached_kind_of op =
     (case op of
        Create _ _ \<Rightarrow> CkCreate
      | Generate _ _ _ \<Rightarrow> CkCreate
      | Patch _ _ v \<Rightarrow> if changes_credential v then CkPatch else CkMetadataPatch
      | Delete _ _ \<Rightarrow> CkDelete
      | Share _ _ _ \<Rightarrow> CkShare
      | Revoke _ _ _ \<Rightarrow> CkRevoke
      | ReportOutcome _ _ _ \<Rightarrow> CkReportOutcome)"

definition materialize :: "application \<Rightarrow> mutation \<Rightarrow> entropy \<Rightarrow> error + mutation" where
  "materialize app op ent =
     (case op of
        Generate kind username policy \<Rightarrow>
          if 10000 \<le> length (app_records app) then Inl Capacity
          else (case generate_values kind username policy ent of
                  Inl e \<Rightarrow> Inl e
                | Inr v \<Rightarrow> Inr (Create kind v))
      | _ \<Rightarrow> Inr op)"

definition patch_record :: "secret_input \<Rightarrow> vault_record \<Rightarrow> vault_record" where
  "patch_record v r =
     (let r = (if changes_credential v
               then r\<lparr>vr_secret_version := vr_secret_version r + 1, vr_signup := SPending\<rparr> else r)
      in r\<lparr>vr_values := bt_extend (vr_values r) v, vr_revision := vr_revision r + 1\<rparr>)"

definition bump_revision :: "vault_record \<Rightarrow> vault_record" where
  "bump_revision r = r\<lparr>vr_revision := vr_revision r + 1\<rparr>"

definition new_record ::
    "auth_context \<Rightarrow> task_approval \<Rightarrow> uuid \<Rightarrow> uuid \<Rightarrow> credential_kind \<Rightarrow> secret_input \<Rightarrow> vault_record" where
  "new_record ctx t tid rid kind v =
     \<lparr>vr_id = rid, vr_owner = ctx_owner ctx, vr_workspace = ctx_workspace ctx,
      vr_created_by = ctx_principal ctx, vr_task = tid, vr_service = tk_service t,
      vr_origin = tk_origin t, vr_kind = kind, vr_revision = 1, vr_secret_version = 1,
      vr_values = v, vr_signup = SPending, vr_deleted = False, vr_restored = False\<rparr>"

text \<open>
  The effect of an authorised mutation (the \<^verbatim>\<open>let receipt = match op\<close> block of \<^verbatim>\<open>mutate\<close>). The
  state changes in the order of the code, so an error keeps what was changed before it.
\<close>

fun perform ::
    "application \<Rightarrow> auth_context \<Rightarrow> task_approval \<Rightarrow> uuid \<Rightarrow> mutation \<Rightarrow> uuid
       \<Rightarrow> (error + receipt) \<times> application" where
  "perform app ctx t tid (Create kind v) fresh =
     (if 10000 \<le> length (app_records app) then (Inl Capacity, app)
      else (Inr \<lparr>rc_record = fresh, rc_revision = 1, rc_grant = None\<rparr>,
            app\<lparr>app_records := bt_insert fresh (new_record ctx t tid fresh kind v) (app_records app)\<rparr>))"
| "perform app ctx t tid (Patch rid expected v) fresh =
     (case map_of (app_records app) rid of
        None \<Rightarrow> (Inl Denied, app)
      | Some r \<Rightarrow>
          if changes_credential v \<and> vr_secret_version r = u64_max then (Inl Capacity, app)
          else (Inr \<lparr>rc_record = rid, rc_revision = vr_revision r + 1, rc_grant = None\<rparr>,
                app\<lparr>app_records := bt_modify rid (patch_record v) (app_records app)\<rparr>))"
| "perform app ctx t tid (Share rid expected s) fresh =
     (if 10000 \<le> length (app_grants app) then (Inl Capacity, app)
      else case map_of (app_records app) rid of
             None \<Rightarrow> (Inl Denied, app)
           | Some r \<Rightarrow>
               (Inr \<lparr>rc_record = rid, rc_revision = vr_revision r + 1, rc_grant = Some fresh\<rparr>,
                app\<lparr>app_grants := bt_insert fresh
                       \<lparr>gr_record = rid, gr_spec = s, gr_revoked = False,
                        gr_version = vr_secret_version r, gr_issuer_task = tid,
                        gr_admin_issued = ctx_admin ctx\<rparr> (app_grants app),
                    app_records := bt_modify rid bump_revision (app_records app)\<rparr>))"
| "perform app ctx t tid (Revoke rid expected gid) fresh =
     (case map_of (app_grants app) gid of
        None \<Rightarrow> (Inl Denied, app)
      | Some g \<Rightarrow>
          let app = app\<lparr>app_grants :=
                bt_modify gid (\<lambda>g. g\<lparr>gr_revoked := True\<rparr>) (app_grants app)\<rparr>
          in case map_of (app_records app) rid of
               None \<Rightarrow> (Inl Denied, app)
             | Some r \<Rightarrow>
                 (Inr \<lparr>rc_record = rid, rc_revision = vr_revision r + 1, rc_grant = Some gid\<rparr>,
                  app\<lparr>app_records := bt_modify rid bump_revision (app_records app)\<rparr>))"
| "perform app ctx t tid (Delete rid expected) fresh =
     (case map_of (app_records app) rid of
        None \<Rightarrow> (Inl Denied, app)
      | Some r \<Rightarrow>
          (Inr \<lparr>rc_record = rid, rc_revision = vr_revision r + 1, rc_grant = None\<rparr>,
           app\<lparr>app_records := bt_modify rid
                  (\<lambda>r. r\<lparr>vr_deleted := True, vr_values := [], vr_revision := vr_revision r + 1\<rparr>)
                  (app_records app),
               app_grants := bt_map
                  (\<lambda>_ g. if gr_record g = rid then g\<lparr>gr_revoked := True\<rparr> else g) (app_grants app)\<rparr>))"
| "perform app ctx t tid (ReportOutcome rid expected state) fresh =
     (case map_of (app_records app) rid of
        None \<Rightarrow> (Inl Denied, app)
      | Some r \<Rightarrow>
          (Inr \<lparr>rc_record = rid, rc_revision = vr_revision r + 1, rc_grant = None\<rparr>,
           app\<lparr>app_records := bt_modify rid
                  (\<lambda>r. r\<lparr>vr_signup := state, vr_revision := vr_revision r + 1\<rparr>) (app_records app)\<rparr>))"
| "perform app ctx t tid (Generate kind username policy) fresh = (Inl Invalid, app)"

text \<open>The retained result of a request identifier, if the input is the same.\<close>

definition cached_receipt ::
    "application \<Rightarrow> auth_context \<Rightarrow> mutation \<Rightarrow> digest \<Rightarrow> remembered \<Rightarrow> error + receipt" where
  "cached_receipt app ctx op fingerprint previous =
     (if rm_fingerprint previous \<noteq> fingerprint then Inl ReplayConflict
      else if is_creation op
      then (case record_of app ctx (rc_record (rm_result previous)) of
              Inl e \<Rightarrow> Inl e | Inr _ \<Rightarrow> Inr (rm_result previous))
      else Inr (rm_result previous))"

definition execute ::
    "application \<Rightarrow> auth_context \<Rightarrow> task_approval \<Rightarrow> request_key \<Rightarrow> mutation \<Rightarrow> digest \<Rightarrow> time
       \<Rightarrow> uuid \<Rightarrow> entropy \<Rightarrow> (error + receipt) \<times> application" where
  "execute app ctx t key op fingerprint now fresh ent =
     (case authorize app ctx t op now False of
        Inl e \<Rightarrow> (Inl e, app)
      | Inr _ \<Rightarrow>
          if 10000 \<le> length (app_requests app) then (Inl Capacity, app)
          else (case materialize app op ent of
                  Inl e \<Rightarrow> (Inl e, app)
                | Inr op' \<Rightarrow>
                    (case perform app ctx t (rk_task key) op' fresh of
                       (Inl e, app') \<Rightarrow> (Inl e, app')
                     | (Inr receipt, app') \<Rightarrow>
                         (Inr receipt,
                          audit_push
                            (app'\<lparr>app_requests := bt_insert key
                               \<lparr>rm_fingerprint = fingerprint, rm_result = receipt,
                                rm_kind = cached_kind_of op, rm_at = Some now\<rparr> (app_requests app')\<rparr>)
                            \<lparr>ae_task = rk_task key, ae_record = rc_record receipt,
                             ae_request = Some (rk_id key), ae_action = AuMutation, ae_at = now,
                             ae_principal = ctx_principal ctx\<rparr>))))"

definition mutate ::
    "externals \<Rightarrow> application \<Rightarrow> auth_context \<Rightarrow> uuid \<Rightarrow> uuid \<Rightarrow> mutation \<Rightarrow> time \<Rightarrow> uuid \<Rightarrow> entropy
       \<Rightarrow> (error + receipt) \<times> application" where
  "mutate ext app0 ctx tid request op now0 fresh ent =
     (case clock app0 now0 of
        (Inl e, app) \<Rightarrow> (Inl e, app)
      | (Inr now, app) \<Rightarrow>
          if request = nil_uuid then (Inl Invalid, app)
          else case task_of app ctx tid now of
            Inl e \<Rightarrow> (Inl e, app)
          | Inr t \<Rightarrow>
            (case authorize app ctx t op now True of
               Inl e \<Rightarrow> (Inl e, app)
             | Inr _ \<Rightarrow>
               let key = RequestKey (ctx_owner ctx) (ctx_principal ctx) tid request in
               if list_ex (\<lambda>d. da_key d = key) (bt_values (app_deliveries app))
               then (Inl ReplayConflict, app)
               else case ex_mutation_json ext op of
                 None \<Rightarrow> (Inl Invalid, app)
               | Some bytes \<Rightarrow>
                 if 65536 < length bytes then (Inl Invalid, app)
                 else
                   let fingerprint = ex_sha256 ext bytes in
                   (case map_of (app_requests app) key of
                      Some previous \<Rightarrow> (cached_receipt app ctx op fingerprint previous, app)
                    | None \<Rightarrow> execute app ctx t key op fingerprint now fresh ent)))"

section \<open>Reads\<close>

definition restrict_input :: "secret_input \<Rightarrow> fields \<Rightarrow> secret_input" where
  "restrict_input v fs = filter (\<lambda>p. fst p \<in> fs) v"

definition select ::
    "application \<Rightarrow> auth_context \<Rightarrow> uuid \<Rightarrow> uuid \<Rightarrow> fields \<Rightarrow> permission \<Rightarrow> string option \<Rightarrow> time
       \<Rightarrow> error + secret_input" where
  "select app ctx tid rid fs perm dest now =
     (if fs = {} then Inl Invalid
      else if perm = MetadataRead \<and> (\<exists>f \<in> fs. secret f) then Inl Denied
      else case task_of app ctx tid now of
        Inl e \<Rightarrow> Inl e
      | Inr t \<Rightarrow>
        (case record_of app ctx rid of
           Inl e \<Rightarrow> Inl e
         | Inr r \<Rightarrow>
             if \<not> can app ctx t r perm fs dest now then Inl Denied
             else if \<exists>f \<in> fs. \<not> bt_contains (vr_values r) f then Inl Denied
             else Inr (restrict_input (vr_values r) fs)))"

definition read_secret ::
    "application \<Rightarrow> auth_context \<Rightarrow> uuid \<Rightarrow> uuid \<Rightarrow> fields \<Rightarrow> time \<Rightarrow> (error + secret_input) \<times> application" where
  "read_secret app0 ctx tid rid fs now0 =
     (case clock app0 now0 of
        (Inl e, app) \<Rightarrow> (Inl e, app)
      | (Inr now, app) \<Rightarrow>
          (case select app ctx tid rid fs SecretRead None now of
             Inl e \<Rightarrow> (Inl e, app)
           | Inr v \<Rightarrow>
               (Inr v, audit_push app
                  \<lparr>ae_task = tid, ae_record = rid, ae_request = None, ae_action = AuSecretRead,
                   ae_at = now, ae_principal = ctx_principal ctx\<rparr>)))"

definition metadata ::
    "application \<Rightarrow> auth_context \<Rightarrow> uuid \<Rightarrow> uuid \<Rightarrow> fields \<Rightarrow> time \<Rightarrow> (error + metadata_view) \<times> application" where
  "metadata app0 ctx tid rid fs now0 =
     (case clock app0 now0 of
        (Inl e, app) \<Rightarrow> (Inl e, app)
      | (Inr now, app) \<Rightarrow>
          (case select app ctx tid rid fs MetadataRead None now of
             Inl e \<Rightarrow> (Inl e, app)
           | Inr v \<Rightarrow>
               (case record_of app ctx rid of
                  Inl e \<Rightarrow> (Inl e, app)
                | Inr r \<Rightarrow>
                    (Inr \<lparr>mv_revision = vr_revision r, mv_signup = vr_signup r, mv_fields = v\<rparr>,
                     audit_push app
                       \<lparr>ae_task = tid, ae_record = rid, ae_request = None, ae_action = AuMetadataRead,
                        ae_at = now, ae_principal = ctx_principal ctx\<rparr>))))"

end
