(* ===== verification/Generation_Facts.thy ===== *)
theory Generation_Facts
  imports Policy
begin

text \<open>
  What private credential generation guarantees: uniform characters, the requested length, alphabet
  and character classes, values that the validation of new records accepts, and that sampling ends
  once the generator has delivered enough usable bytes.
\<close>

unbundle bit_operations_syntax

section \<open>Uniform characters\<close>

lemma generation_alphabet_facts [simp]:
  "length generation_alphabet = 64" "distinct generation_alphabet" "generation_alphabet \<noteq> []"
  by code_simp+

lemma unat_and_63: "unat (b AND 63 :: u8) = unat b mod 64"
proof -
  have "b AND 63 = take_bit 6 b"
    by (simp add: take_bit_eq_mask mask_eq_exp_minus_1)
  then show ?thesis by (simp add: take_bit_eq_mod unat_mod)
qed

text \<open>
  Rejection sampling is unbiased: for every alphabet size up to 256, each index is the image of
  exactly \<open>256 div span\<close> byte values.
\<close>

theorem generation_index_uniform:
  assumes "0 < span" and "span \<le> 256" and "i < span"
  shows "card {b :: u8. generation_index b span = Some i} = 256 div span"
proof -
  have "{b :: u8. generation_index b span = Some i}
      = {b. unat b < 256 div span * span \<and> unat b mod span = i}"
    using assms by (auto simp: generation_index_def Let_def)
  moreover have "{v. v < 256 \<and> v < 256 div span * span \<and> v mod span = i}
      = {v. v < 256 div span * span \<and> v mod span = i}"
    by (auto intro: order.strict_trans2 [OF _ div_times_less_eq_dividend])
  ultimately show ?thesis
    using card_u8_image [of "\<lambda>v. v < 256 div span * span \<and> v mod span = i"]
      card_residues [OF assms(3), of "256 div span"] by simp
qed

theorem generation_index_uniform_witness:
  "card {b :: u8. generation_index b 75 = Some 74} = 3"
  using generation_index_uniform [of 75 74] by simp

text \<open>
  The mask of the default policy is unbiased: every character of the alphabet is drawn by
  exactly four of the 256 byte values.
\<close>

theorem default_alphabet_uniform:
  assumes "c \<in> set generation_alphabet"
  shows "card {b :: u8. generation_alphabet ! unat (b AND 63) = c} = 4"
proof -
  obtain i where i: "i < 64" "generation_alphabet ! i = c"
    using assms by (auto simp: in_set_conv_nth)
  have "{b :: u8. generation_alphabet ! unat (b AND 63) = c} = {b. unat b mod 64 = i}"
    using i by (auto simp: unat_and_63 nth_eq_iff_index_eq)
  then show ?thesis
    using card_u8_image [of "\<lambda>v. v mod 64 = i"] card_residues [OF i(1), of 4] by simp
qed

theorem default_alphabet_uniform_witness:
  "card {b :: u8. generation_alphabet ! unat (b AND 63) = CHR ''_''} = 4"
  by (rule default_alphabet_uniform) code_simp

section \<open>Generated values\<close>

lemma generate_secret_props:
  assumes "generate_secret policy e = Inr s"
  shows "case policy of
      None \<Rightarrow> length s = 32 \<and> set s \<subseteq> set generation_alphabet
    | Some p \<Rightarrow> policy_valid p \<and> length s = unat (gp_length p)
        \<and> set s \<subseteq> set generation_alphabet \<union> (if gp_symbols p then set generation_symbols else {})
        \<and> (gp_require_classes p \<longrightarrow> classes_present s (gp_symbols p))"
proof (cases policy)
  case None
  have "unat (b AND 63 :: u8) < 64" for b by (simp add: unat_and_63)
  then show ?thesis
    using assms None
    by (auto simp: generate_secret_def split: prod.splits option.splits dest: length_try_fill_bytes)
next
  case (Some p)
  then show ?thesis
    using assms
    by (auto simp: generate_secret_def split: if_splits dest!: generate_attempts_props)
qed

lemma generate_secret_length:
  assumes "generate_secret policy e = Inr s" shows "16 \<le> length s \<and> length s \<le> 128"
  using generate_secret_props [OF assms]
  by (cases policy) (auto simp: policy_valid_def word_le_nat_alt)

lemma generate_values_props:
  assumes v: "generate_values kind username policy e = Inr v"
    and fs: "generation_fields kind username = Inr fs"
  shows "bt_wf v \<and> input_valid v \<and> input_fields v = fs \<and> kind_matches kind v"
proof -
  obtain s where s: "generate_secret policy e = Inr s"
    using v by (auto simp: generate_values_def split: sum.splits)
  then have len: "s \<noteq> []" "length s \<le> 8192"
    using generate_secret_length [OF s] by auto
  show ?thesis
  proof (cases kind)
    case KLogin
    then obtain name where "username = Some name" "length name \<le> 2048" "fs = {Username, Password}"
      using fs by (auto simp: generation_fields_def split: option.splits if_splits)
    moreover from this have "v = [(Username, name), (Password, s)]"
      using v s KLogin by (auto simp: generate_values_def less_field_def)
    ultimately show ?thesis
      using len KLogin
      by (auto simp: bt_wf_def less_field_def input_valid_def input_fields_def bt_keys_def secret_def
          kind_matches_def bt_contains_def)
  next
    case KApiKey
    then have "fs = {ApiKey}" "v = [(ApiKey, s)]"
      using v s fs by (auto simp: generate_values_def generation_fields_def split: option.splits)
    then show ?thesis
      using len KApiKey
      by (auto simp: bt_wf_def input_valid_def input_fields_def bt_keys_def secret_def
          kind_matches_def bt_contains_def)
  qed
qed

text \<open>What the class flags mean.\<close>

lemma classes_step_eq:
  "classes_step symbols x c =
     \<lparr>cl_upper = cl_upper c \<or> CHR ''A'' \<le> x \<and> x \<le> CHR ''Z'',
      cl_lower = cl_lower c \<or> CHR ''a'' \<le> x \<and> x \<le> CHR ''z'',
      cl_digit = cl_digit c \<or> CHR ''0'' \<le> x \<and> x \<le> CHR ''9'',
      cl_symbol = cl_symbol c \<or> symbols \<and> x \<in> set generation_symbols\<rparr>"
proof -
  have sym: "list_all (\<lambda>b. \<not> (CHR ''A'' \<le> b \<and> b \<le> CHR ''Z'') \<and> \<not> (CHR ''a'' \<le> b \<and> b \<le> CHR ''z'')
      \<and> \<not> (CHR ''0'' \<le> b \<and> b \<le> CHR ''9'')) generation_symbols"
    by code_simp
  have up: "\<not> (CHR ''a'' \<le> x \<and> x \<le> CHR ''Z'')" "\<not> (CHR ''A'' \<le> x \<and> x \<le> CHR ''9'')"
    "\<not> (CHR ''a'' \<le> x \<and> x \<le> CHR ''9'')"
    by (auto simp: less_eq_char_def)
  show ?thesis
    using bspec [OF sym [unfolded list_all_iff], of x] up
    by (cases c) (auto simp: classes_step_def)
qed

lemma classes_fold:
  "fold (classes_step symbols) s c =
     \<lparr>cl_upper = cl_upper c \<or> (\<exists>b \<in> set s. CHR ''A'' \<le> b \<and> b \<le> CHR ''Z''),
      cl_lower = cl_lower c \<or> (\<exists>b \<in> set s. CHR ''a'' \<le> b \<and> b \<le> CHR ''z''),
      cl_digit = cl_digit c \<or> (\<exists>b \<in> set s. CHR ''0'' \<le> b \<and> b \<le> CHR ''9''),
      cl_symbol = cl_symbol c \<or> (symbols \<and> (\<exists>b \<in> set s. b \<in> set generation_symbols))\<rparr>"
  by (induction s arbitrary: c) (auto simp: classes_step_eq)

text \<open>
  C36: A generated secret has the requested length and alphabet, and when classes are required it
  holds an upper-case letter, a lower-case letter, a digit and (if allowed) a symbol.
\<close>

theorem generate_secret_meets_policy:
  assumes "generate_secret (Some p) e = Inr s"
  shows "length s = unat (gp_length p) \<and> 16 \<le> length s \<and> length s \<le> 128
    \<and> set s \<subseteq> set generation_alphabet \<union> (if gp_symbols p then set generation_symbols else {})
    \<and> (gp_require_classes p \<longrightarrow>
         (\<exists>b \<in> set s. CHR ''A'' \<le> b \<and> b \<le> CHR ''Z'') \<and> (\<exists>b \<in> set s. CHR ''a'' \<le> b \<and> b \<le> CHR ''z'')
         \<and> (\<exists>b \<in> set s. CHR ''0'' \<le> b \<and> b \<le> CHR ''9'')
         \<and> (gp_symbols p \<longrightarrow> (\<exists>b \<in> set s. b \<in> set generation_symbols)))"
  using generate_secret_props [OF assms] generate_secret_length [OF assms]
  by (auto simp: classes_present_def classes_fold Let_def)

theorem generate_secret_meets_policy_witness:
  "(let p = \<lparr>gp_length = 16, gp_symbols = True, gp_require_classes = True\<rparr>;
        s = ''ABab12!ABab12!AB'';
        e = [Some (\<lambda>i. [0, 1, 26, 27, 53, 54, 64] ! (i mod 7))]
    in generate_secret (Some p) e = Inr s \<and> length s = unat (gp_length p))"
proof -
  have run: "generate_secret (Some \<lparr>gp_length = 16, gp_symbols = True, gp_require_classes = True\<rparr>)
      [Some (\<lambda>i. [0, 1, 26, 27, 53, 54, 64] ! (i mod 7))] = Inr ''ABab12!ABab12!AB''"
    by code_simp
  show ?thesis using generate_secret_meets_policy [OF run] run by simp
qed

section \<open>Sampling ends\<close>

lemma push_block_length: "length acc \<le> len \<Longrightarrow> length (push_block alphabet len acc bytes) \<le> len"
  by (induction alphabet len acc bytes rule: push_block.induct) (auto split: option.splits)

lemma push_block_grows:
  "length acc \<le> length (push_block alphabet len acc bytes)"
  "length acc < len \<Longrightarrow> \<exists>b \<in> set bytes. generation_index b (length alphabet) \<noteq> None \<Longrightarrow>
     length acc < length (push_block alphabet len acc bytes)"
proof (induction alphabet len acc bytes rule: push_block.induct)
  case (2 alphabet len acc byte bytes)
  {
    case 1
    show ?case using 2 by (cases "generation_index byte (length alphabet)") auto
  next
    case 2
    then show ?case
      using "2.IH" by (cases "generation_index byte (length alphabet)") (auto simp: less_eq_Suc_le)
  }
qed auto

text \<open>A block of generator output that advances the sampling: at least one byte is not rejected.\<close>

definition useful_block :: "nat \<Rightarrow> (nat \<Rightarrow> u8) option \<Rightarrow> bool" where
  "useful_block span b =
     (case b of None \<Rightarrow> False
      | Some f \<Rightarrow> list_ex (\<lambda>i. generation_index (f i) span \<noteq> None) [0..<128])"

lemma sample_loop_returns:
  assumes "list_all (useful_block (length alphabet)) e" and "len - length acc \<le> length e"
    and "length acc \<le> len"
  shows "\<exists>s e'. sample_loop alphabet len acc e = (Inr s, e')"
  using assms
proof (induction e arbitrary: acc)
  case Nil
  then show ?case by (simp add: sample_loop.simps)
next
  case (Cons b e)
  show ?case
  proof (cases "length acc < len")
    case True
    obtain f where f: "b = Some f" "\<exists>x \<in> set (map f [0..<128]). generation_index x (length alphabet) \<noteq> None"
      using Cons.prems(1) by (cases b) (auto simp: useful_block_def list_ex_iff)
    let ?acc = "push_block alphabet len acc (map f [0..<128])"
    have "length acc < length ?acc" by (rule push_block_grows(2) [OF True f(2)])
    moreover have "length ?acc \<le> len"
      using Cons.prems(3) by (rule push_block_length)
    ultimately have "\<exists>s e'. sample_loop alphabet len ?acc e = (Inr s, e')"
      using Cons.prems by (intro Cons.IH) auto
    then show ?thesis using True f(1) by (subst sample_loop.simps) simp
  qed (simp add: sample_loop.simps)
qed

text \<open>
  Sampling ends with a secret once the generator delivers as many useful blocks as characters are
  wanted, for every alphabet; the loop has no other way to run on.
\<close>

theorem sample_secret_returns:
  assumes "list_all (useful_block (length alphabet)) e" and "len \<le> length e"
  shows "\<exists>s e'. sample_secret alphabet len e = (Inr s, e') \<and> length s = len \<and> set s \<subseteq> set alphabet"
proof -
  obtain s e' where "sample_secret alphabet len e = (Inr s, e')"
    using sample_loop_returns [of alphabet e len "[]"] assms by (auto simp: sample_secret_def)
  then show ?thesis using sample_secret_props by blast
qed

theorem sample_secret_returns_witness:
  "\<exists>s e'. sample_secret ''xyz'' 2 [Some (\<lambda>_. 254), Some (\<lambda>_. 7)] = (Inr s, e') \<and> length s = 2"
proof -
  have "list_all (useful_block (length ''xyz'')) [Some (\<lambda>_. 254), Some (\<lambda>_. 7)]" by code_simp
  from sample_secret_returns [OF this, of 2] show ?thesis by auto
qed

text \<open>
  Generated credential values are exactly the fields the authorisation check allowed, in key
  order, and pass the validity and kind checks of an explicit creation.
\<close>

theorem generate_values_acceptable:
  assumes "generation_fields kind username = Inr fs"
    and "generate_values kind username policy e = Inr v"
  shows "bt_wf v \<and> input_fields v = fs \<and> input_valid v \<and> kind_matches kind v"
  using generate_values_props [OF assms(2,1)] by blast

theorem generate_values_acceptable_witness:
  "\<exists>v. generate_values KLogin (Some ''bob'') None [Some (\<lambda>_. 0)] = Inr v \<and> kind_matches KLogin v"
proof -
  have fs: "generation_fields KLogin (Some ''bob'') = Inr {Username, Password}"
    by (simp add: generation_fields_def)
  have v: "generate_values KLogin (Some ''bob'') None [Some (\<lambda>_. 0)]
      = Inr [(Username, ''bob''), (Password, replicate 32 CHR ''A'')]"
    by code_simp
  show ?thesis using generate_values_acceptable [OF fs v] v by blast
qed

end
