(* ===== verification/Policy_Facts.thy ===== *)
theory Policy_Facts
  imports Policy
begin

text \<open>
  Behaviour of the single policy operations: the clock and its high-water mark, what a refused
  operation leaves behind, case rules that split an operation into its branches, and the
  evolution order \<open>evolves\<close> that every operation follows.
\<close>

section \<open>Results\<close>

lemma sum_case_Inr: "(case x of Inl e \<Rightarrow> Inl e | Inr y \<Rightarrow> f y) = Inr z \<longleftrightarrow> (\<exists>y. x = Inr y \<and> f y = Inr z)"
  by (cases x) auto

lemma if_error_Inr: "(if b then Inl e else x) = Inr z \<longleftrightarrow> \<not> b \<and> x = Inr z"
  by simp

section \<open>The clock\<close>

lemma effective_time_Inr:
  "effective_time app now = Inr eff \<Longrightarrow>
     \<not> app_clock_frozen app \<and> now \<le> eff \<and> eff \<in> {now} \<union> set_option (app_last_time app) \<and>
     (\<forall>high. app_last_time app = Some high \<longrightarrow> high \<le> eff)"
  by (auto simp: effective_time_def split: if_splits option.splits)

lemma effective_time_Inl: "effective_time app now = Inl e \<Longrightarrow> e = ClockRecoveryRequired"
  by (auto simp: effective_time_def split: if_splits option.splits)

lemma clock_Inr_iff:
  "clock app now = (Inr eff, app') \<longleftrightarrow>
     effective_time app now = Inr eff \<and> app' = app\<lparr>app_last_time := Some eff\<rparr>"
  by (cases app) (auto simp: clock_def effective_time_def split: if_splits option.splits)

lemma clock_Inl_iff:
  "clock app now = (Inl e, app') \<longleftrightarrow>
     effective_time app now = Inl e \<and> app' = app\<lparr>app_clock_frozen := True\<rparr>"
  by (auto simp: clock_def split: sum.splits)

lemma clock_ok: "effective_time app now = Inr eff \<Longrightarrow>
    clock app now = (Inr eff, app\<lparr>app_last_time := Some eff\<rparr>)"
  by (simp add: clock_Inr_iff)

lemma clock_failed: "effective_time app now = Inl e \<Longrightarrow>
    clock app now = (Inl e, app\<lparr>app_clock_frozen := True\<rparr>)"
  by (simp add: clock_Inl_iff)

lemmas clock_eqs = clock_ok clock_failed

lemma clock_split:
  "P (clock app now) \<longleftrightarrow>
     (\<forall>e. effective_time app now = Inl e \<longrightarrow> P (Inl e, app\<lparr>app_clock_frozen := True\<rparr>)) \<and>
     (\<forall>eff. effective_time app now = Inr eff \<longrightarrow> P (Inr eff, app\<lparr>app_last_time := Some eff\<rparr>))"
  by (metis clock_Inl_iff clock_Inr_iff sum.exhaust)

section \<open>Equality up to the clock\<close>

definition same_but_clock :: "application \<Rightarrow> application \<Rightarrow> bool" where
  "same_but_clock a b \<longleftrightarrow>
     b = a\<lparr>app_last_time := app_last_time b, app_clock_frozen := app_clock_frozen b\<rparr>"

lemma same_but_clock_refl [simp, intro]: "same_but_clock a a"
  by (simp add: same_but_clock_def)

lemma same_but_clock_last_time [simp]: "same_but_clock a (a\<lparr>app_last_time := x\<rparr>)"
  by (cases a) (simp add: same_but_clock_def)

lemma same_but_clock_frozen [simp]: "same_but_clock a (a\<lparr>app_clock_frozen := x\<rparr>)"
  by (cases a) (simp add: same_but_clock_def)

lemma same_but_clock_fields:
  assumes "same_but_clock a b"
  shows "app_tasks b = app_tasks a" "app_records b = app_records a" "app_grants b = app_grants a"
    "app_requests b = app_requests a" "app_audit b = app_audit a"
    "app_generation b = app_generation a" "app_revoked_tasks b = app_revoked_tasks a"
    "app_deliveries b = app_deliveries a" "app_baselines b = app_baselines a"
    "app_predecessor b = app_predecessor a"
  using assms by (cases a; cases b; simp add: same_but_clock_def)+

text \<open>The lookups of the policy read the tables only, never the clock.\<close>

lemma lookups_ignore_clock [simp]:
  "task_of (app\<lparr>app_last_time := x\<rparr>) = task_of app"
  "record_of (app\<lparr>app_last_time := x\<rparr>) = record_of app"
  "grant_allows (app\<lparr>app_last_time := x\<rparr>) = grant_allows app"
  by (auto simp: task_of_def record_of_def grant_allows_def fun_eq_iff
        cong: option.case_cong if_cong)

lemma can_ignores_clock [simp]: "can (app\<lparr>app_last_time := x\<rparr>) = can app"
  by (auto simp: can_def fun_eq_iff)

lemma authorize_share_ignores_clock [simp]:
  "authorize_share (app\<lparr>app_last_time := x\<rparr>) ctx t r s now = authorize_share app ctx t r s now"
  by (simp add: authorize_share_def cong: option.case_cong if_cong)

lemma authorize_op_ignores_clock [simp]:
  "authorize_op (app\<lparr>app_last_time := x\<rparr>) ctx t r op now = authorize_op app ctx t r op now"
  by (cases op) (simp_all cong: option.case_cong)

lemma authorize_ignores_clock [simp]:
  "authorize (app\<lparr>app_last_time := x\<rparr>) ctx t op now retry = authorize app ctx t op now retry"
  by (cases op)
     (simp_all add: authorize_def authorize_target_def cong: option.case_cong sum.case_cong if_cong)

lemma select_ignores_clock [simp]: "select (app\<lparr>app_last_time := x\<rparr>) = select app"
  by (auto simp: select_def fun_eq_iff cong: sum.case_cong if_cong)

section \<open>Audit\<close>

lemma audit_push_frame [simp]:
  "app_tasks (audit_push app e) = app_tasks app"
  "app_records (audit_push app e) = app_records app"
  "app_grants (audit_push app e) = app_grants app"
  "app_requests (audit_push app e) = app_requests app"
  "app_last_time (audit_push app e) = app_last_time app"
  "app_clock_frozen (audit_push app e) = app_clock_frozen app"
  "app_generation (audit_push app e) = app_generation app"
  "app_revoked_tasks (audit_push app e) = app_revoked_tasks app"
  "app_deliveries (audit_push app e) = app_deliveries app"
  "app_baselines (audit_push app e) = app_baselines app"
  "app_predecessor (audit_push app e) = app_predecessor app"
  by (simp_all add: audit_push_def Let_def)

lemma audit_push_audit:
  "set (app_audit (audit_push app e)) \<subseteq> insert e (set (app_audit app))"
  by (cases "app_audit app") (auto simp: audit_push_def Let_def)

lemma audit_push_last: "last (app_audit (audit_push app e)) = e"
  by (simp add: audit_push_def Let_def)

lemma audit_push_length:
  "length (app_audit app) \<le> 10000 \<Longrightarrow> length (app_audit (audit_push app e)) \<le> 10000"
  by (auto simp: audit_push_def Let_def)

section \<open>Branches of a mutation\<close>

lemma materialize_cases:
  assumes "materialize app op ent = Inr op'"
  obtains (same) "op' = op" "\<forall>kind username policy. op \<noteq> Generate kind username policy"
    | (drawn) kind username policy v where "op = Generate kind username policy"
        "op' = Create kind v" "generate_values kind username policy ent = Inr v"
        "length (app_records app) < 10000"
proof (cases op)
  case (Generate kind username policy)
  with assms obtain v where "generate_values kind username policy ent = Inr v" "op' = Create kind v"
    "length (app_records app) < 10000"
    by (auto simp: materialize_def split: if_splits sum.splits)
  with Generate show ?thesis using drawn by blast
qed (use assms same in \<open>auto simp: materialize_def\<close>)

lemma authorize_creation_target:
  assumes "authorize app ctx t op now False = Inr ()" and "mutation_target op = Some (rid, expected)"
  obtains r where "map_of (app_records app) rid = Some r" "vr_owner r = ctx_owner ctx"
    "vr_workspace r = ctx_workspace ctx" "\<not> vr_deleted r" "vr_revision r = expected"
    "vr_revision r \<noteq> u64_max" "authorize_op app ctx t r op now = Inr ()"
proof -
  have "authorize_target app ctx t op (rid, expected) now False = Inr ()"
    using assms by (cases op) (auto simp: authorize_def)
  then show ?thesis
    using that by (auto simp: authorize_target_def split: option.splits if_splits sum.splits)
qed

lemma perform_error_frame:
  assumes "authorize app ctx t op now False = Inr ()" and "materialize app op ent = Inr op'"
    and "perform app ctx t tid op' fresh = (Inl e, app')"
  shows "app' = app \<and> e = Capacity"
proof (cases "mutation_target op")
  case None
  then have "\<exists>kind v. op' = Create kind v"
    using assms(2) by (cases op) (auto simp: materialize_def split: if_splits sum.splits)
  then show ?thesis using assms(3) by (auto split: if_splits)
next
  case (Some target)
  then have same: "op' = op"
    using assms(2) by (cases op) (auto simp: materialize_def split: if_splits sum.splits)
  obtain rid expected where target: "mutation_target op = Some (rid, expected)"
    using Some by (cases target) auto
  obtain r where r: "map_of (app_records app) rid = Some r" "authorize_op app ctx t r op now = Inr ()"
    by (rule authorize_creation_target [OF assms(1) target])
  show ?thesis
    using assms(3) r target same
    by (cases op) (auto simp: Let_def split: if_splits option.splits)
qed

lemma execute_error_frame:
  "execute app ctx t key op fp now fresh ent = (Inl e, app') \<Longrightarrow> app' = app"
  using perform_error_frame
  by (fastforce simp: execute_def split: sum.splits if_splits prod.splits)

lemma mutate_cases:
  assumes "mutate ext app0 ctx tid request op now0 fresh ent = (res, app')"
  obtains (clock_failed) e where "effective_time app0 now0 = Inl e" "res = Inl e"
        "app' = app0\<lparr>app_clock_frozen := True\<rparr>"
    | (refused) eff e where "effective_time app0 now0 = Inr eff" "res = Inl e"
        "app' = app0\<lparr>app_last_time := Some eff\<rparr>"
    | (cached) eff t previous bytes where "effective_time app0 now0 = Inr eff"
        "app' = app0\<lparr>app_last_time := Some eff\<rparr>"
        "task_of app0 ctx tid eff = Inr t" "authorize app0 ctx t op eff True = Inr ()"
        "ex_mutation_json ext op = Some bytes"
        "map_of (app_requests app0)
           (RequestKey (ctx_owner ctx) (ctx_principal ctx) tid request) = Some previous"
        "rm_fingerprint previous = ex_sha256 ext bytes" "res = Inr (rm_result previous)"
    | (executed) eff t bytes receipt where "effective_time app0 now0 = Inr eff"
        "request \<noteq> nil_uuid"
        "task_of app0 ctx tid eff = Inr t" "authorize app0 ctx t op eff True = Inr ()"
        "ex_mutation_json ext op = Some bytes" "length bytes \<le> 65536"
        "map_of (app_requests app0)
           (RequestKey (ctx_owner ctx) (ctx_principal ctx) tid request) = None"
        "\<forall>d \<in> set (bt_values (app_deliveries app0)).
           da_key d \<noteq> RequestKey (ctx_owner ctx) (ctx_principal ctx) tid request"
        "execute (app0\<lparr>app_last_time := Some eff\<rparr>) ctx t
           (RequestKey (ctx_owner ctx) (ctx_principal ctx) tid request) op (ex_sha256 ext bytes)
           eff fresh ent = (Inr receipt, app')" "res = Inr receipt"
proof (cases "effective_time app0 now0")
  case (Inl e)
  with assms clock_failed show ?thesis
    by (simp add: mutate_def Policy_Facts.clock_failed)
next
  case (Inr eff)
  let ?app = "app0\<lparr>app_last_time := Some eff\<rparr>"
  let ?key = "RequestKey (ctx_owner ctx) (ctx_principal ctx) tid request"
  note eff = Inr
  have clk: "clock app0 now0 = (Inr eff, ?app)" using eff by (simp add: clock_Inr_iff)
  note mut = assms [unfolded mutate_def clk]
  show ?thesis
  proof (cases "request = nil_uuid")
    case True
    then show ?thesis using mut eff refused by auto
  next
    case nz: False
    show ?thesis
    proof (cases "task_of app0 ctx tid eff")
      case (Inl e)
      then show ?thesis using mut nz eff refused by auto
    next
      case t: (Inr t)
      show ?thesis
      proof (cases "authorize app0 ctx t op eff True")
        case (Inl e)
        then show ?thesis using mut nz t eff refused by auto
      next
        case auth: (Inr u)
        show ?thesis
        proof (cases "list_ex (\<lambda>d. da_key d = ?key) (bt_values (app_deliveries app0))
            \<or> (\<forall>bytes. ex_mutation_json ext op = Some bytes \<longrightarrow> 65536 < length bytes)")
          case True
          then show ?thesis
            using mut nz t auth eff refused
            by (cases "ex_mutation_json ext op") (auto simp: Let_def split: if_splits)
        next
          case False
          then obtain bytes where bytes: "ex_mutation_json ext op = Some bytes"
              "length bytes \<le> 65536"
              "\<not> list_ex (\<lambda>d. da_key d = ?key) (bt_values (app_deliveries app0))"
            by (auto simp: not_less)
          show ?thesis
          proof (cases "map_of (app_requests app0) ?key")
            case None
            have ex: "execute ?app ctx t ?key op (ex_sha256 ext bytes) eff fresh ent = (res, app')"
              using mut nz t auth bytes None by (simp add: Let_def)
            show ?thesis
            proof (cases res)
              case (Inl e)
              then have "app' = ?app" using ex by (auto dest: execute_error_frame)
              then show ?thesis using refused Inl eff by blast
            next
              case (Inr rc)
              show ?thesis
                by (rule executed [of eff t bytes rc])
                   (use Inr ex bytes None nz t eff auth in \<open>auto simp: list_ex_iff\<close>)
            qed
          next
            case (Some previous)
            have c: "res = cached_receipt ?app ctx op (ex_sha256 ext bytes) previous \<and> app' = ?app"
              using mut nz t auth bytes Some by (auto simp: Let_def)
            show ?thesis
            proof (cases res)
              case (Inl e)
              with c refused eff show ?thesis by blast
            next
              case (Inr rc)
              with c have "rm_fingerprint previous = ex_sha256 ext bytes \<and> rc = rm_result previous"
                by (auto simp: cached_receipt_def split: if_splits sum.splits)
              then show ?thesis
                by (intro cached [of eff t bytes previous]) (use Inr c bytes Some t eff auth in auto)
            qed
          qed
        qed
      qed
    qed
  qed
qed

end
