(* ===== verification/Policy_Steps.thy ===== *)
theory Policy_Steps
  imports Policy_Facts
begin

text \<open>
  Sequences of policy operations. \<open>vault_request\<close> lists the operations that the durable owner
  applies to the staging state, \<open>app_step\<close> performs one and \<open>app_run\<close> a list of them, each with
  the clock value, fresh identifier and entropy of its call. The locale \<open>vault_operation\<close> is the
  contract the operations share (what a refusal leaves behind, how the clock moves); each operation
  interprets it. \<open>evolves\<close> is the order in which states grow.
\<close>

section \<open>Requests and steps\<close>

lemma map_sum_eq_Inl_iff: "map_sum f g x = Inl e \<longleftrightarrow> (\<exists>d. x = Inl d \<and> f d = e)"
  by (cases x) auto


datatype response =
    Done
  | ReceiptOf receipt
  | MetadataOf metadata_view
  | DisclosureOf secret_input

datatype vault_request =
    RqApprove auth_context task_approval time
  | RqRevokeTask auth_context uuid time
  | RqMutate auth_context uuid uuid mutation time uuid entropy
  | RqMetadata auth_context uuid uuid fields time
  | RqReadSecret auth_context uuid uuid fields time

fun request_now :: "vault_request \<Rightarrow> time" where
  "request_now (RqApprove _ _ now) = now"
| "request_now (RqRevokeTask _ _ now) = now"
| "request_now (RqMutate _ _ _ _ now _ _) = now"
| "request_now (RqMetadata _ _ _ _ now) = now"
| "request_now (RqReadSecret _ _ _ _ now) = now"

fun app_step :: "externals \<Rightarrow> vault_request \<Rightarrow> application \<Rightarrow> (error + response) \<times> application" where
  "app_step ext (RqApprove ctx t now) app = apfst (map_sum id (\<lambda>_. Done)) (approve_task app ctx t now)"
| "app_step ext (RqRevokeTask ctx tid now) app = apfst (map_sum id (\<lambda>_. Done)) (revoke_task app ctx tid now)"
| "app_step ext (RqMutate ctx tid request op now fresh ent) app =
     apfst (map_sum id ReceiptOf) (mutate ext app ctx tid request op now fresh ent)"
| "app_step ext (RqMetadata ctx tid rid fs now) app =
     apfst (map_sum id MetadataOf) (metadata app ctx tid rid fs now)"
| "app_step ext (RqReadSecret ctx tid rid fs now) app =
     apfst (map_sum id DisclosureOf) (read_secret app ctx tid rid fs now)"

fun app_run :: "externals \<Rightarrow> vault_request list \<Rightarrow> application \<Rightarrow> application" where
  "app_run ext [] app = app"
| "app_run ext (q # qs) app = app_run ext qs (snd (app_step ext q app))"

section \<open>The shared contract of the operations\<close>

text \<open>The high-water mark, with \<open>time_min\<close> before the first clock value.\<close>

definition high_water :: "application \<Rightarrow> time" where
  "high_water app = (case app_last_time app of None \<Rightarrow> time_min | Some t \<Rightarrow> t)"

locale vault_operation =
  fixes step :: "application \<Rightarrow> time \<Rightarrow> (error + 'r) \<times> application"
  assumes clock_first: "effective_time app now = Inl e \<Longrightarrow>
        step app now = (Inl e, app\<lparr>app_clock_frozen := True\<rparr>)"
    and refused: "effective_time app now = Inr eff \<Longrightarrow> step app now = (Inl e, app') \<Longrightarrow>
        app' = app\<lparr>app_last_time := Some eff\<rparr>"
    and granted: "effective_time app now = Inr eff \<Longrightarrow> step app now = (Inr x, app') \<Longrightarrow>
        app_last_time app' = Some eff \<and> app_clock_frozen app' = app_clock_frozen app"
begin

lemma refusal_frame: "step app now = (Inl e, app') \<Longrightarrow> same_but_clock app app'"
  by (cases "effective_time app now") (auto simp: clock_first dest: refused)

lemma frozen_stuck: "app_clock_frozen app \<Longrightarrow> step app now = (Inl ClockRecoveryRequired, app)"
  using clock_first [of app now ClockRecoveryRequired]
  by (cases app) (simp add: effective_time_def)

lemma freeze_sticky: "step app now = (res, app') \<Longrightarrow> app_clock_frozen app \<Longrightarrow> app_clock_frozen app'"
  by (simp add: frozen_stuck)

lemma high_water_mono:
  assumes "step app now = (res, app')" and "time_min \<le> now"
  shows "high_water app \<le> high_water app'"
proof (cases "effective_time app now")
  case (Inl e)
  then have "app' = app\<lparr>app_clock_frozen := True\<rparr>" using assms(1) by (simp add: clock_first)
  then show ?thesis by (simp add: high_water_def)
next
  case (Inr eff)
  from effective_time_Inr [OF Inr] have "high_water app \<le> eff"
    using assms(2) by (auto simp: high_water_def split: option.splits)
  moreover have "app_last_time app' = Some eff"
    using Inr assms(1) by (cases res) (auto dest: refused granted)
  ultimately show ?thesis by (simp add: high_water_def)
qed

lemma success_time:
  "step app now = (Inr x, app') \<Longrightarrow> app_last_time app' = Some (high_water app') \<and> now \<le> high_water app'"
  using effective_time_Inr
  by (cases "effective_time app now") (fastforce simp: high_water_def dest: clock_first granted)+

end

text \<open>Every operation meets the contract.\<close>

interpretation approve: vault_operation "\<lambda>app. approve_task app ctx t" for ctx t
  by unfold_locales (auto simp: approve_task_def clock_eqs split: if_splits option.splits)

interpretation revoke: vault_operation "\<lambda>app. revoke_task app ctx tid" for ctx tid
  by unfold_locales (auto simp: revoke_task_def clock_eqs split: if_splits option.splits)

interpretation meta: vault_operation "\<lambda>app. metadata app ctx tid rid fs" for ctx tid rid fs
  by unfold_locales (auto simp: metadata_def clock_eqs split: if_splits sum.splits)

interpretation read: vault_operation "\<lambda>app. read_secret app ctx tid rid fs" for ctx tid rid fs
  by unfold_locales (auto simp: read_secret_def clock_eqs split: if_splits sum.splits)

text \<open>An authorised mutation touches records and grants; the cache and the audit trail follow.\<close>

lemma perform_frame:
  assumes "perform app ctx t tid op fresh = (res, app')"
  shows "app_tasks app' = app_tasks app" "app_requests app' = app_requests app"
    "app_audit app' = app_audit app" "app_last_time app' = app_last_time app"
    "app_clock_frozen app' = app_clock_frozen app" "app_generation app' = app_generation app"
    "app_revoked_tasks app' = app_revoked_tasks app" "app_deliveries app' = app_deliveries app"
    "app_baselines app' = app_baselines app" "app_predecessor app' = app_predecessor app"
  using assms by (cases op; auto simp: Let_def split: if_splits option.splits)+

lemma execute_cases:
  assumes "execute app ctx t key op fp now fresh ent = (Inr receipt, app')"
  obtains op' mid where "authorize app ctx t op now False = Inr ()"
    "length (app_requests app) < 10000" "materialize app op ent = Inr op'"
    "perform app ctx t (rk_task key) op' fresh = (Inr receipt, mid)"
    "app' = audit_push
       (mid\<lparr>app_requests := bt_insert key
          \<lparr>rm_fingerprint = fp, rm_result = receipt, rm_kind = cached_kind_of op, rm_at = Some now\<rparr>
          (app_requests mid)\<rparr>)
       \<lparr>ae_task = rk_task key, ae_record = rc_record receipt, ae_request = Some (rk_id key),
        ae_action = AuMutation, ae_at = now, ae_principal = ctx_principal ctx\<rparr>"
  using assms that
  by (auto simp: execute_def split: sum.splits if_splits prod.splits)

lemma execute_frame:
  assumes "execute app ctx t key op fp now fresh ent = (Inr receipt, app')"
  shows "app_tasks app' = app_tasks app" "app_last_time app' = app_last_time app"
    "app_clock_frozen app' = app_clock_frozen app" "app_generation app' = app_generation app"
    "app_revoked_tasks app' = app_revoked_tasks app" "app_deliveries app' = app_deliveries app"
    "app_baselines app' = app_baselines app" "app_predecessor app' = app_predecessor app"
  using assms by (auto elim!: execute_cases dest: perform_frame)

interpretation mutation: vault_operation
  "\<lambda>app now. mutate ext app ctx tid request op now fresh ent" for ext ctx tid request op fresh ent
proof unfold_locales
  fix app now e
  assume "effective_time app now = Inl e"
  then show "mutate ext app ctx tid request op now fresh ent = (Inl e, app\<lparr>app_clock_frozen := True\<rparr>)"
    by (simp add: mutate_def clock_eqs)
next
  fix app now eff e app'
  assume "effective_time app now = Inr eff"
    and "mutate ext app ctx tid request op now fresh ent = (Inl e, app')"
  then show "app' = app\<lparr>app_last_time := Some eff\<rparr>"
    by (auto elim!: mutate_cases)
next
  fix app now eff x app'
  assume "effective_time app now = Inr eff"
    and "mutate ext app ctx tid request op now fresh ent = (Inr x, app')"
  then show "app_last_time app' = Some eff \<and> app_clock_frozen app' = app_clock_frozen app"
    by (auto elim!: mutate_cases dest: execute_frame)
qed

section \<open>How states evolve\<close>

definition record_evolves :: "vault_record \<Rightarrow> vault_record \<Rightarrow> bool" where
  "record_evolves r n \<longleftrightarrow>
     vr_id n = vr_id r \<and> vr_owner n = vr_owner r \<and> vr_workspace n = vr_workspace r
     \<and> vr_created_by n = vr_created_by r \<and> vr_task n = vr_task r \<and> vr_service n = vr_service r
     \<and> vr_origin n = vr_origin r \<and> vr_kind n = vr_kind r \<and> vr_restored n = vr_restored r
     \<and> vr_revision r \<le> vr_revision n \<and> vr_secret_version r \<le> vr_secret_version n
     \<and> (vr_deleted r \<longrightarrow> vr_deleted n \<and> vr_values n = vr_values r)
     \<and> (vr_revision n = vr_revision r \<longrightarrow> n = r)"

definition grant_evolves :: "grant \<Rightarrow> grant \<Rightarrow> bool" where
  "grant_evolves g n \<longleftrightarrow>
     gr_record n = gr_record g \<and> gr_spec n = gr_spec g \<and> gr_version n = gr_version g
     \<and> gr_issuer_task n = gr_issuer_task g \<and> gr_admin_issued n = gr_admin_issued g
     \<and> (gr_revoked g \<longrightarrow> gr_revoked n)"

definition evolves :: "application \<Rightarrow> application \<Rightarrow> bool" where
  "evolves a b \<longleftrightarrow>
     (\<forall>k t. map_of (app_tasks a) k = Some t \<longrightarrow> map_of (app_tasks b) k = Some t)
     \<and> app_revoked_tasks a |\<subseteq>| app_revoked_tasks b
     \<and> (\<forall>k r. map_of (app_records a) k = Some r \<longrightarrow>
           (\<exists>n. map_of (app_records b) k = Some n \<and> record_evolves r n))
     \<and> (\<forall>k g. map_of (app_grants a) k = Some g \<longrightarrow>
           (\<exists>n. map_of (app_grants b) k = Some n \<and> grant_evolves g n))
     \<and> (\<forall>k q. map_of (app_requests a) k = Some q \<longrightarrow> map_of (app_requests b) k = Some q)
     \<and> app_deliveries b = app_deliveries a \<and> app_baselines b = app_baselines a
     \<and> app_generation b = app_generation a \<and> app_predecessor b = app_predecessor a"

lemma record_evolves_refl [simp]: "record_evolves r r"
  by (simp add: record_evolves_def)

lemma record_evolves_trans: "record_evolves a b \<Longrightarrow> record_evolves b c \<Longrightarrow> record_evolves a c"
  unfolding record_evolves_def by (elim conjE) (intro conjI impI; simp)

lemma grant_evolves_refl [simp]: "grant_evolves g g"
  by (simp add: grant_evolves_def)

lemma grant_evolves_trans: "grant_evolves a b \<Longrightarrow> grant_evolves b c \<Longrightarrow> grant_evolves a c"
  by (auto simp: grant_evolves_def)

lemma evolves_refl [simp]: "evolves a a"
  by (simp add: evolves_def)

lemma evolvesD:
  assumes "evolves a b"
  shows evolves_task: "map_of (app_tasks a) k = Some t \<Longrightarrow> map_of (app_tasks b) k = Some t"
    and evolves_revoked: "app_revoked_tasks a |\<subseteq>| app_revoked_tasks b"
    and evolves_record: "map_of (app_records a) i = Some r \<Longrightarrow>
      \<exists>n. map_of (app_records b) i = Some n \<and> record_evolves r n"
    and evolves_grant: "map_of (app_grants a) j = Some g \<Longrightarrow>
      \<exists>n. map_of (app_grants b) j = Some n \<and> grant_evolves g n"
    and evolves_request: "map_of (app_requests a) q = Some m \<Longrightarrow> map_of (app_requests b) q = Some m"
    and evolves_rest: "app_deliveries b = app_deliveries a" "app_baselines b = app_baselines a"
      "app_generation b = app_generation a" "app_predecessor b = app_predecessor a"
  using assms by (simp_all add: evolves_def)

lemma evolvesI:
  assumes "\<And>k t. map_of (app_tasks a) k = Some t \<Longrightarrow> map_of (app_tasks b) k = Some t"
    and "app_revoked_tasks a |\<subseteq>| app_revoked_tasks b"
    and "\<And>k r. map_of (app_records a) k = Some r \<Longrightarrow>
      \<exists>n. map_of (app_records b) k = Some n \<and> record_evolves r n"
    and "\<And>k g. map_of (app_grants a) k = Some g \<Longrightarrow>
      \<exists>n. map_of (app_grants b) k = Some n \<and> grant_evolves g n"
    and "\<And>k q. map_of (app_requests a) k = Some q \<Longrightarrow> map_of (app_requests b) k = Some q"
    and "app_deliveries b = app_deliveries a" "app_baselines b = app_baselines a"
      "app_generation b = app_generation a" "app_predecessor b = app_predecessor a"
  shows "evolves a b"
  using assms by (simp add: evolves_def)

lemma evolves_trans:
  assumes ab: "evolves a b" and bc: "evolves b c"
  shows "evolves a c"
proof (rule evolvesI)
  show "map_of (app_tasks a) k = Some t \<Longrightarrow> map_of (app_tasks c) k = Some t" for k t
    using evolves_task [OF ab] evolves_task [OF bc] by blast
  show "app_revoked_tasks a |\<subseteq>| app_revoked_tasks c"
    using evolves_revoked [OF ab] evolves_revoked [OF bc] by (rule fsubset_trans)
  show "\<exists>n. map_of (app_records c) k = Some n \<and> record_evolves r n"
    if "map_of (app_records a) k = Some r" for k r
    using evolves_record [OF ab that] evolves_record [OF bc] record_evolves_trans by blast
  show "\<exists>n. map_of (app_grants c) k = Some n \<and> grant_evolves g n"
    if "map_of (app_grants a) k = Some g" for k g
    using evolves_grant [OF ab that] evolves_grant [OF bc] grant_evolves_trans by blast
  show "map_of (app_requests a) k = Some q \<Longrightarrow> map_of (app_requests c) k = Some q" for k q
    using evolves_request [OF ab] evolves_request [OF bc] by blast
qed (simp_all add: evolves_rest [OF ab] evolves_rest [OF bc])

lemma same_but_clock_evolves: "same_but_clock a b \<Longrightarrow> evolves a b"
  by (simp add: evolves_def same_but_clock_fields)

text \<open>What the code relies on from \<^verbatim>\<open>Uuid::new_v4\<close>: an identifier that is not nil and not in use.\<close>

definition fresh_id :: "application \<Rightarrow> uuid \<Rightarrow> bool" where
  "fresh_id app i \<longleftrightarrow> i \<noteq> nil_uuid \<and> map_of (app_records app) i = None \<and> map_of (app_grants app) i = None"

lemma fresh_id_clock [simp]: "fresh_id (app\<lparr>app_last_time := x\<rparr>) i = fresh_id app i"
  by (simp add: fresh_id_def)

lemma patch_record_evolves:
  assumes "vr_revision r \<noteq> u64_max" "\<not> vr_deleted r"
    and "\<not> (changes_credential v \<and> vr_secret_version r = u64_max)"
  shows "record_evolves r (patch_record v r)"
  using assms le_inc [of "vr_revision r"] less_inc [of "vr_revision r"] le_inc [of "vr_secret_version r"]
  by (auto simp: record_evolves_def patch_record_def Let_def)

lemma bump_revision_evolves: "vr_revision r \<noteq> u64_max \<Longrightarrow> record_evolves r (bump_revision r)"
  using le_inc [of "vr_revision r"] less_inc [of "vr_revision r"]
  by (auto simp: record_evolves_def bump_revision_def)

text \<open>The two shapes of a change: one record modified, and a table of grants rewritten.\<close>

lemma modified_record_evolves:
  assumes "map_of (app_records app) rid = Some r" and "record_evolves r (f r)"
    and "map_of (app_records app) k = Some x"
  shows "\<exists>n. map_of (bt_modify rid f (app_records app)) k = Some n \<and> record_evolves x n"
  using assms by (cases "k = rid") auto

lemma perform_evolves:
  assumes auth: "authorize app ctx t op now False = Inr ()" and mat: "materialize app op ent = Inr op'"
    and perf: "perform app ctx t tid op' fresh = (Inr receipt, app')" and fresh: "fresh_id app fresh"
  shows "evolves app app'"
proof (cases "mutation_target op")
  case None
  then obtain kind v where "op' = Create kind v"
    using mat by (cases op) (auto simp: materialize_def split: if_splits sum.splits)
  then show ?thesis
    using perf fresh by (intro evolvesI) (auto simp: fresh_id_def split: if_splits)
next
  case (Some target)
  then have same: "op' = op"
    using mat by (cases op) (auto simp: materialize_def split: if_splits sum.splits)
  obtain rid expected where target: "mutation_target op = Some (rid, expected)"
    using Some by (cases target) auto
  obtain r where r: "map_of (app_records app) rid = Some r" "\<not> vr_deleted r" "vr_revision r \<noteq> u64_max"
    by (rule authorize_creation_target [OF auth target])
  note mod = modified_record_evolves [OF r(1)]
  have inc: "vr_revision r \<le> vr_revision r + 1" "vr_revision r + 1 \<noteq> vr_revision r"
    using less_inc [OF r(3)] by auto
  have bump: "record_evolves r (bump_revision r)" by (rule bump_revision_evolves [OF r(3)])
  have del: "record_evolves r (r\<lparr>vr_deleted := True, vr_values := [], vr_revision := vr_revision r + 1\<rparr>)"
    and out: "record_evolves r (r\<lparr>vr_signup := x, vr_revision := vr_revision r + 1\<rparr>)" for x
    using inc r(2) by (simp_all add: record_evolves_def)
  show ?thesis
  proof (cases op)
    case (Patch a b v)
    with perf target r(1) same have
      "app' = app\<lparr>app_records := bt_modify rid (patch_record v) (app_records app)\<rparr>"
      and "\<not> (changes_credential v \<and> vr_secret_version r = u64_max)" by (auto split: if_splits)
    then show ?thesis
      using mod [where f = "patch_record v"] patch_record_evolves [OF r(3,2)]
      by (intro evolvesI) simp_all
  next
    case (Delete a b)
    with perf target r(1) same show ?thesis
      by (intro evolvesI) (auto simp: grant_evolves_def del intro!: mod)
  next
    case (Share a b g)
    with perf target r(1) same fresh show ?thesis
      by (intro evolvesI) (auto simp: fresh_id_def split: if_splits intro!: mod bump)
  next
    case (Revoke a b g)
    with perf target r(1) same show ?thesis
      by (intro evolvesI)
         (auto simp: Let_def grant_evolves_def split: option.splits intro!: mod bump)
  next
    case (ReportOutcome a b x)
    with perf target r(1) same show ?thesis
      by (intro evolvesI) (auto simp: out intro!: mod)
  qed (use target in simp_all)
qed

lemma execute_evolves:
  assumes "execute app ctx t key op fp now fresh ent = (Inr receipt, app')"
    and "fresh_id app fresh" and "map_of (app_requests app) key = None"
  shows "evolves app app'"
proof -
  obtain op' mid where ex: "authorize app ctx t op now False = Inr ()"
    "materialize app op ent = Inr op'" "perform app ctx t (rk_task key) op' fresh = (Inr receipt, mid)"
    "app' = audit_push
       (mid\<lparr>app_requests := bt_insert key
          \<lparr>rm_fingerprint = fp, rm_result = receipt, rm_kind = cached_kind_of op, rm_at = Some now\<rparr>
          (app_requests mid)\<rparr>)
       \<lparr>ae_task = rk_task key, ae_record = rc_record receipt, ae_request = Some (rk_id key),
        ae_action = AuMutation, ae_at = now, ae_principal = ctx_principal ctx\<rparr>"
    by (rule execute_cases [OF assms(1)])
  have "evolves app mid" using perform_evolves [OF ex(1-3) assms(2)] .
  moreover have "app_requests mid = app_requests app" using perform_frame [OF ex(3)] by simp
  ultimately show ?thesis using ex(4) assms(3) by (auto simp: evolves_def)
qed

lemma approve_task_evolves:
  assumes "approve_task app ctx t now = (res, app')" shows "evolves app app'"
proof (cases "effective_time app now")
  case (Inl e)
  then show ?thesis
    using assms by (auto simp: approve_task_def clock_eqs intro!: same_but_clock_evolves)
next
  case (Inr eff)
  have "evolves app (app\<lparr>app_last_time := Some eff\<rparr>)" by (intro same_but_clock_evolves) simp
  then show ?thesis
    using assms Inr
    by (auto simp: approve_task_def clock_eqs evolves_def bt_contains_def split: if_splits option.splits)
qed

lemma revoke_task_evolves:
  assumes "revoke_task app ctx tid now = (res, app')" shows "evolves app app'"
  using assms
  by (cases "effective_time app now")
     (auto simp: revoke_task_def clock_eqs evolves_def split: if_splits option.splits)

lemma metadata_evolves:
  assumes "metadata app ctx tid rid fs now = (res, app')" shows "evolves app app'"
  using assms
  by (cases "effective_time app now")
     (auto simp: metadata_def clock_eqs evolves_def split: if_splits sum.splits)

lemma read_secret_evolves:
  assumes "read_secret app ctx tid rid fs now = (res, app')" shows "evolves app app'"
  using assms
  by (cases "effective_time app now")
     (auto simp: read_secret_def clock_eqs evolves_def split: if_splits sum.splits)

lemma mutate_evolves:
  assumes "mutate ext app ctx tid request op now fresh ent = (res, app')" and "fresh_id app fresh"
  shows "evolves app app'"
  using assms(1)
proof (cases rule: mutate_cases)
  case (executed eff t bytes receipt)
  have "evolves (app\<lparr>app_last_time := Some eff\<rparr>) app'"
    using executed assms(2) by (intro execute_evolves [where fresh = fresh]) auto
  moreover have "evolves app (app\<lparr>app_last_time := Some eff\<rparr>)"
    by (intro same_but_clock_evolves) simp
  ultimately show ?thesis by (rule evolves_trans [rotated])
qed (auto intro!: same_but_clock_evolves)

section \<open>Runs\<close>

text \<open>
  What the caller of an operation provides: values in key order, a clock reading in the range of
  the type, and a fresh identifier for a mutation.
\<close>

fun mutation_wf :: "mutation \<Rightarrow> bool" where
  "mutation_wf (Create _ v) = bt_wf v"
| "mutation_wf (Patch _ _ v) = bt_wf v"
| "mutation_wf _ = True"

fun admissible :: "application \<Rightarrow> vault_request \<Rightarrow> bool" where
  "admissible app (RqMutate _ _ _ op now fresh _) =
     (time_min \<le> now \<and> mutation_wf op \<and> fresh_id app fresh)"
| "admissible app q = (time_min \<le> request_now q)"

fun admissible_run :: "externals \<Rightarrow> vault_request list \<Rightarrow> application \<Rightarrow> bool" where
  "admissible_run ext [] app = True"
| "admissible_run ext (q # qs) app =
     (admissible app q \<and> admissible_run ext qs (snd (app_step ext q app)))"

text \<open>A relation on states that every admissible step respects holds between the ends of a run.\<close>

locale run_relation =
  fixes R :: "application \<Rightarrow> application \<Rightarrow> bool"
  assumes R_refl: "R app app"
    and R_trans: "R a b \<Longrightarrow> R b c \<Longrightarrow> R a c"
    and R_step: "admissible app q \<Longrightarrow> R app (snd (app_step ext q app))"
begin

lemma run: "admissible_run ext qs app \<Longrightarrow> R app (app_run ext qs app)"
  by (induction qs arbitrary: app) (auto intro: R_refl R_trans R_step)

end

text \<open>A state predicate that every admissible step keeps holds after every run.\<close>

locale run_invariant =
  fixes I :: "application \<Rightarrow> bool"
  assumes I_step: "I app \<Longrightarrow> admissible app q \<Longrightarrow> I (snd (app_step ext q app))"

sublocale run_invariant \<subseteq> run_relation "\<lambda>a b. I a \<longrightarrow> I b"
  by unfold_locales (auto intro: I_step)

lemma app_step_evolves:
  assumes "admissible app q" shows "evolves app (snd (app_step ext q app))"
  using assms
  by (cases q)
     (auto intro: approve_task_evolves revoke_task_evolves metadata_evolves read_secret_evolves
        mutate_evolves simp: prod_eq_iff)

interpretation evolution: run_relation evolves
  by unfold_locales (auto intro: evolves_trans app_step_evolves)

lemma app_step_high_water:
  assumes "admissible app q" shows "high_water app \<le> high_water (snd (app_step ext q app))"
  using assms
  by (cases q)
     (auto intro: approve.high_water_mono revoke.high_water_mono mutation.high_water_mono
        meta.high_water_mono read.high_water_mono simp: prod_eq_iff)

interpretation high_water: run_relation "\<lambda>a b. high_water a \<le> high_water b"
  by unfold_locales (auto intro: app_step_high_water)

lemma app_step_frozen:
  "app_clock_frozen app \<Longrightarrow> app_step ext q app = (Inl ClockRecoveryRequired, app)"
  by (cases q) (simp_all add: approve.frozen_stuck revoke.frozen_stuck mutation.frozen_stuck
      meta.frozen_stuck read.frozen_stuck)

lemma app_run_frozen: "app_clock_frozen app \<Longrightarrow> app_run ext qs app = app"
  by (induction qs) (simp_all add: app_step_frozen)

lemma app_step_refused:
  assumes "app_step ext q app = (Inl e, app')" shows "same_but_clock app app'"
proof (cases q)
  case (RqApprove ctx t now)
  with assms show ?thesis
    by (cases "approve_task app ctx t now") (auto simp: map_sum_eq_Inl_iff intro: approve.refusal_frame)
next
  case (RqRevokeTask ctx tid now)
  with assms show ?thesis
    by (cases "revoke_task app ctx tid now") (auto simp: map_sum_eq_Inl_iff intro: revoke.refusal_frame)
next
  case (RqMutate ctx tid request op now fresh ent)
  with assms show ?thesis
    by (cases "mutate ext app ctx tid request op now fresh ent")
       (auto simp: map_sum_eq_Inl_iff intro: mutation.refusal_frame)
next
  case (RqMetadata ctx tid rid fs now)
  with assms show ?thesis
    by (cases "metadata app ctx tid rid fs now") (auto simp: map_sum_eq_Inl_iff intro: meta.refusal_frame)
next
  case (RqReadSecret ctx tid rid fs now)
  with assms show ?thesis
    by (cases "read_secret app ctx tid rid fs now") (auto simp: map_sum_eq_Inl_iff intro: read.refusal_frame)
qed

end
