(* ===== verification/Policy_Invariant.thy ===== *)
theory Policy_Invariant
  imports Policy_Steps Generation_Facts
begin

text \<open>
  The type invariant of the staging state. \<open>vault_ok\<close> says that the tables are maps within their
  capacity, that a record carries the scope of the task that created it and values that fit its
  kind, that a grant stays within the authority of the task that issued it, and that a retained
  request belongs to its task. Every operation keeps it (\<open>vault_ok_step\<close>), so every state that is
  reached from the empty vault has it.
\<close>

section \<open>The invariant\<close>

definition tables_ok :: "application \<Rightarrow> bool" where
  "tables_ok app \<longleftrightarrow>
     bt_wf (app_tasks app) \<and> length (app_tasks app) \<le> 10000
     \<and> bt_wf (app_records app) \<and> length (app_records app) \<le> 10000
     \<and> bt_wf (app_grants app) \<and> length (app_grants app) \<le> 10000
     \<and> bt_wf (app_requests app) \<and> length (app_requests app) \<le> 10000
     \<and> length (app_audit app) \<le> 10000"

text \<open>The part of \<open>share_bounds_ok\<close> that does not depend on the time of the check.\<close>

definition share_within :: "task_approval \<Rightarrow> share_bounds \<Rightarrow> bool" where
  "share_within t b \<longleftrightarrow>
     sb_fields b \<subseteq> tk_fields t \<and> sb_permissions b \<subseteq> tk_permissions t
     \<and> sb_destinations b |\<subseteq>| tk_destinations t \<and> sb_expires_at b \<le> tk_expires_at t
     \<and> AccessGrant \<notin> sb_permissions b"

definition task_ok :: "uuid \<Rightarrow> task_approval \<Rightarrow> bool" where
  "task_ok tid t \<longleftrightarrow>
     tk_id t = tid \<and> tid \<noteq> nil_uuid \<and> (\<forall>b. tk_share t = Some b \<longrightarrow> share_within t b)"

definition same_tenant :: "task_approval \<Rightarrow> task_approval \<Rightarrow> bool" where
  "same_tenant t k \<longleftrightarrow> tk_owner t = tk_owner k \<and> tk_workspace t = tk_workspace k"

definition record_values_ok :: "vault_record \<Rightarrow> bool" where
  "record_values_ok r \<longleftrightarrow>
     (if vr_deleted r then vr_values r = []
      else bt_wf (vr_values r) \<and> input_valid (vr_values r) \<and> kind_matches (vr_kind r) (vr_values r))"

definition record_in_task :: "task_approval \<Rightarrow> vault_record \<Rightarrow> bool" where
  "record_in_task t r \<longleftrightarrow>
     vr_owner r = tk_owner t \<and> vr_workspace r = tk_workspace t \<and> vr_created_by r = tk_principal t
     \<and> vr_service r = tk_service t \<and> vr_origin r = tk_origin t"

definition record_ok :: "application \<Rightarrow> uuid \<Rightarrow> vault_record \<Rightarrow> bool" where
  "record_ok app rid r \<longleftrightarrow>
     vr_id r = rid \<and> rid \<noteq> nil_uuid \<and> 1 \<le> vr_secret_version r \<and> vr_secret_version r \<le> vr_revision r
     \<and> record_values_ok r
     \<and> (\<exists>t. map_of (app_tasks app) (vr_task r) = Some t \<and> record_in_task t r)"

definition grant_ok :: "application \<Rightarrow> grant \<Rightarrow> bool" where
  "grant_ok app g \<longleftrightarrow>
     (\<exists>t r. map_of (app_tasks app) (gr_issuer_task g) = Some t
        \<and> map_of (app_records app) (gr_record g) = Some r
        \<and> vr_service r = tk_service t \<and> vr_origin r = tk_origin t
        \<and> gs_fields (gr_spec g) \<subseteq> tk_fields t \<and> gs_permissions (gr_spec g) \<subseteq> tk_permissions t
        \<and> gs_destinations (gr_spec g) |\<subseteq>| tk_destinations t
        \<and> gs_expires_at (gr_spec g) \<le> tk_expires_at t
        \<and> AccessGrant \<notin> gs_permissions (gr_spec g)
        \<and> 1 \<le> gr_version g \<and> gr_version g \<le> vr_secret_version r
        \<and> (vr_deleted r \<longrightarrow> gr_revoked g))"

definition request_ok :: "application \<Rightarrow> request_key \<Rightarrow> remembered \<Rightarrow> bool" where
  "request_ok app key m \<longleftrightarrow>
     rk_id key \<noteq> nil_uuid
     \<and> (\<exists>t r. map_of (app_tasks app) (rk_task key) = Some t
          \<and> rk_owner key = tk_owner t \<and> rk_principal key = tk_principal t
          \<and> map_of (app_records app) (rc_record (rm_result m)) = Some r
          \<and> 1 \<le> rc_revision (rm_result m) \<and> rc_revision (rm_result m) \<le> vr_revision r)"

definition vault_ok :: "application \<Rightarrow> bool" where
  "vault_ok app \<longleftrightarrow> tables_ok app
     \<and> (\<forall>tid t. map_of (app_tasks app) tid = Some t \<longrightarrow> task_ok tid t)
     \<and> (\<forall>tid kid t k. map_of (app_tasks app) tid = Some t \<longrightarrow> map_of (app_tasks app) kid = Some k \<longrightarrow> same_tenant t k)
     \<and> (\<forall>rid r. map_of (app_records app) rid = Some r \<longrightarrow> record_ok app rid r)
     \<and> (\<forall>gid g. map_of (app_grants app) gid = Some g \<longrightarrow> gid \<noteq> nil_uuid \<and> grant_ok app g)
     \<and> (\<forall>key m. map_of (app_requests app) key = Some m \<longrightarrow> request_ok app key m)"

lemma vault_okI:
  assumes "tables_ok app"
    and "\<And>tid t. map_of (app_tasks app) tid = Some t \<Longrightarrow> task_ok tid t"
    and "\<And>tid kid t k. map_of (app_tasks app) tid = Some t \<Longrightarrow> map_of (app_tasks app) kid = Some k \<Longrightarrow> same_tenant t k"
    and "\<And>rid r. map_of (app_records app) rid = Some r \<Longrightarrow> record_ok app rid r"
    and "\<And>gid g. map_of (app_grants app) gid = Some g \<Longrightarrow> gid \<noteq> nil_uuid \<and> grant_ok app g"
    and "\<And>key m. map_of (app_requests app) key = Some m \<Longrightarrow> request_ok app key m"
  shows "vault_ok app"
  using assms by (simp add: vault_ok_def)

lemma vault_okD:
  assumes "vault_ok app"
  shows vault_tables: "tables_ok app"
    and vault_task: "map_of (app_tasks app) tid = Some t \<Longrightarrow> task_ok tid t"
    and vault_tenant: "map_of (app_tasks app) tid = Some t \<Longrightarrow> map_of (app_tasks app) kid = Some k \<Longrightarrow> same_tenant t k"
    and vault_record: "map_of (app_records app) rid = Some r \<Longrightarrow> record_ok app rid r"
    and vault_grant: "map_of (app_grants app) gid = Some g \<Longrightarrow> gid \<noteq> nil_uuid \<and> grant_ok app g"
    and vault_request: "map_of (app_requests app) key = Some m \<Longrightarrow> request_ok app key m"
  using assms by (simp_all add: vault_ok_def)

lemma vault_ok_default [simp]: "vault_ok default_application"
  by (simp add: vault_ok_def tables_ok_def default_application_def)

section \<open>Transfer to later states\<close>

text \<open>Records, grants and requests stay right when the state evolves around them.\<close>

lemma record_ok_evolves: "record_ok app rid r \<Longrightarrow> evolves app app' \<Longrightarrow> record_ok app' rid r"
  unfolding record_ok_def by (blast dest: evolves_task)

lemma grant_ok_later:
  assumes g: "grant_ok app g" and ev: "evolves app app'"
    and same: "gr_record n = gr_record g" "gr_spec n = gr_spec g" "gr_version n = gr_version g"
      "gr_issuer_task n = gr_issuer_task g"
    and dead: "\<And>r'. map_of (app_records app') (gr_record g) = Some r' \<Longrightarrow> vr_deleted r' \<Longrightarrow> gr_revoked n"
  shows "grant_ok app' n"
proof -
  obtain t r where tr: "map_of (app_tasks app) (gr_issuer_task g) = Some t"
      "map_of (app_records app) (gr_record g) = Some r"
      "vr_service r = tk_service t" "vr_origin r = tk_origin t" "gr_version g \<le> vr_secret_version r"
    using g unfolding grant_ok_def by blast
  obtain r' where r': "map_of (app_records app') (gr_record g) = Some r'" "record_evolves r r'"
    using evolves_record [OF ev tr(2)] by blast
  have "vr_service r' = tk_service t" "vr_origin r' = tk_origin t" "gr_version g \<le> vr_secret_version r'"
    using r'(2) tr by (auto simp: record_evolves_def)
  then show ?thesis
    using g tr(1,2) r'(1) evolves_task [OF ev tr(1)] dead [OF r'(1)]
    unfolding grant_ok_def same by auto
qed

lemma request_ok_later:
  assumes "request_ok app key m" and ev: "evolves app app'"
  shows "request_ok app' key m"
proof -
  obtain t r where tr: "map_of (app_tasks app) (rk_task key) = Some t"
      "map_of (app_records app) (rc_record (rm_result m)) = Some r"
      "rc_revision (rm_result m) \<le> vr_revision r"
    using assms(1) unfolding request_ok_def by blast
  obtain r' where r': "map_of (app_records app') (rc_record (rm_result m)) = Some r'" "record_evolves r r'"
    using evolves_record [OF ev tr(2)] by blast
  have "rc_revision (rm_result m) \<le> vr_revision r'"
    using r'(2) tr(3) by (auto simp: record_evolves_def)
  then show ?thesis
    using assms(1) tr(1,2) r'(1) evolves_task [OF ev tr(1)] unfolding request_ok_def by auto
qed

lemma vault_ok_tables:
  assumes "vault_ok app" and "app_tasks app' = app_tasks app" "app_records app' = app_records app"
    "app_grants app' = app_grants app" "app_requests app' = app_requests app"
    and "length (app_audit app') \<le> 10000"
  shows "vault_ok app'"
  using assms by (simp add: vault_ok_def tables_ok_def record_ok_def grant_ok_def request_ok_def)

lemma vault_ok_clock: "vault_ok app \<Longrightarrow> same_but_clock app app' \<Longrightarrow> vault_ok app'"
  by (rule vault_ok_tables) (auto simp: same_but_clock_fields vault_ok_def tables_ok_def)

section \<open>Preservation by a mutation\<close>

lemma task_of_Inr:
  "task_of app ctx tid now = Inr t \<longleftrightarrow>
     map_of (app_tasks app) tid = Some t \<and> tk_owner t = ctx_owner ctx \<and> tk_workspace t = ctx_workspace ctx
     \<and> tk_principal t = ctx_principal ctx \<and> now < tk_expires_at t \<and> tid |\<notin>| app_revoked_tasks app
     \<and> (\<forall>d. ctx_session_deadline ctx = Some d \<longrightarrow> now < d)"
  by (auto simp: task_of_def not_le split: option.splits)

text \<open>One record changes, with the grants that follow it.\<close>

lemma vault_ok_change:
  assumes ok: "vault_ok app" and ev: "evolves app app'"
    and app': "app' = app\<lparr>app_records := bt_modify rid f (app_records app), app_grants := gs\<rparr>"
    and r: "map_of (app_records app) rid = Some r"
    and f: "record_values_ok (f r)" "vr_secret_version (f r) \<le> vr_revision (f r)"
    and gs: "bt_wf gs" "length gs \<le> 10000"
      "\<And>gid g. map_of gs gid = Some g \<Longrightarrow> gid \<noteq> nil_uuid \<and> grant_ok app' g"
  shows "vault_ok app'"
proof (rule vault_okI)
  show "tables_ok app'"
    using vault_tables [OF ok] gs by (simp add: tables_ok_def app')
  show "task_ok k t" if "map_of (app_tasks app') k = Some t" for k t
    using that vault_task [OF ok] by (simp add: app')
  show "same_tenant a b" if "map_of (app_tasks app') i = Some a" "map_of (app_tasks app') j = Some b" for i j a b
    using that vault_tenant [OF ok] by (simp add: app')
  show "record_ok app' k n" if n: "map_of (app_records app') k = Some n" for k n
  proof (cases "k = rid")
    case True
    have "record_ok app' rid r" using vault_record [OF ok r] ev by (rule record_ok_evolves)
    moreover have "n = f r" using n r True by (simp add: app')
    moreover have "record_evolves r (f r)"
      using evolves_record [OF ev r] r by (auto simp: app')
    ultimately show ?thesis
      using f True by (auto simp: record_ok_def record_evolves_def record_in_task_def)
  next
    case False
    with n have "map_of (app_records app) k = Some n" by (simp add: app')
    then show ?thesis using vault_record [OF ok] ev by (blast intro: record_ok_evolves)
  qed
  show "g \<noteq> nil_uuid \<and> grant_ok app' x" if "map_of (app_grants app') g = Some x" for g x
    using gs(3) [of g x] that by (simp add: app')
  show "request_ok app' key m" if "map_of (app_requests app') key = Some m" for key m
    using request_ok_later [OF _ ev] vault_request [OF ok] that by (simp add: app')
qed

text \<open>Grants that are kept stay right as long as the record is not deleted.\<close>

lemma kept_grant_ok:
  assumes "vault_ok app" and ev: "evolves app app'" and "map_of (app_grants app) gid = Some g"
    and "gr_record n = gr_record g" "gr_spec n = gr_spec g" "gr_version n = gr_version g"
      "gr_issuer_task n = gr_issuer_task g" "gr_revoked g \<Longrightarrow> gr_revoked n"
    and live: "\<And>k r r'. map_of (app_records app) k = Some r \<Longrightarrow> map_of (app_records app') k = Some r' \<Longrightarrow>
        vr_deleted r' \<Longrightarrow> vr_deleted r \<or> k = gr_record g \<and> gr_revoked n"
  shows "gid \<noteq> nil_uuid \<and> grant_ok app' n"
proof -
  have g: "gid \<noteq> nil_uuid" "grant_ok app g" using vault_grant [OF assms(1,3)] by auto
  obtain r where r: "map_of (app_records app) (gr_record g) = Some r" "vr_deleted r \<longrightarrow> gr_revoked g"
    using g(2) unfolding grant_ok_def by blast
  have "grant_ok app' n"
    by (rule grant_ok_later [OF g(2) ev assms(4-7)]) (use r live [OF r(1)] assms(8) in blast)
  with g(1) show ?thesis by simp
qed

lemma patched_values_ok:
  assumes "record_values_ok r" "\<not> vr_deleted r" "bt_wf v" "input_valid v"
    and "\<not> (vr_kind r = KLogin \<and> bt_contains v ApiKey \<or> vr_kind r = KApiKey \<and> bt_contains v Password)"
  shows "record_values_ok (patch_record v r)"
proof -
  have in_ext: "bt_contains (bt_extend (vr_values r) v) f \<longleftrightarrow> bt_contains (vr_values r) f \<or> bt_contains v f" for f
    by (auto simp: bt_contains_iff keys_bt_extend)
  have "kind_matches (vr_kind r) (bt_extend (vr_values r) v)"
    using assms by (cases "vr_kind r") (auto simp: record_values_ok_def kind_matches_def in_ext)
  then show ?thesis
    using assms by (auto simp: record_values_ok_def patch_record_def Let_def intro: input_valid_extend)
qed

lemma versions_step:
  assumes "vr_secret_version r \<le> vr_revision r" "vr_revision r \<noteq> u64_max"
  shows "vr_secret_version r \<le> vr_revision r + 1" "vr_secret_version r + 1 \<le> vr_revision r + 1"
proof -
  have "vr_secret_version r \<noteq> u64_max"
    using assms by (auto simp: word_order.extremum_unique)
  then show "vr_secret_version r + 1 \<le> vr_revision r + 1"
    using assms by (simp add: word_le_nat_alt unat_inc)
  show "vr_secret_version r \<le> vr_revision r + 1"
    using assms(1) le_inc [OF assms(2)] by (rule order_trans)
qed

lemma patch_record_versions:
  assumes "vr_secret_version r \<le> vr_revision r" "vr_revision r \<noteq> u64_max"
  shows "vr_secret_version (patch_record v r) \<le> vr_revision (patch_record v r)"
  using versions_step [OF assms] by (simp add: patch_record_def Let_def)

lemma can_scope: "can app ctx t r perm fs dest now \<Longrightarrow>
    vr_service r = tk_service t \<and> vr_origin r = tk_origin t \<and> perm \<in> tk_permissions t \<and> fs \<subseteq> tk_fields t"
  by (auto simp: can_def split: if_splits)

lemma authorize_share_within:
  assumes "authorize_share app ctx t r s now = Inr ()" and "task_ok tid t"
  shows "vr_service r = tk_service t" "vr_origin r = tk_origin t" "gs_fields s \<subseteq> tk_fields t"
    "gs_permissions s \<subseteq> tk_permissions t" "gs_destinations s |\<subseteq>| tk_destinations t"
    "gs_expires_at s \<le> tk_expires_at t" "AccessGrant \<notin> gs_permissions s"
proof -
  have spec: "AccessGrant \<notin> gs_permissions s"
    using assms(1) by (auto simp: authorize_share_def grant_spec_ok_def split: if_splits)
  have "vr_service r = tk_service t \<and> vr_origin r = tk_origin t \<and> gs_fields s \<subseteq> tk_fields t
      \<and> gs_permissions s \<subseteq> tk_permissions t \<and> gs_destinations s |\<subseteq>| tk_destinations t
      \<and> gs_expires_at s \<le> tk_expires_at t"
  proof (cases "ctx_admin ctx")
    case True
    with assms(1) show ?thesis by (auto simp: authorize_share_def split: if_splits)
  next
    case False
    then obtain b where b: "tk_share t = Some b" "can app ctx t r AccessGrant (gs_fields s) None now"
        "gs_fields s \<subseteq> sb_fields b" "gs_permissions s \<subseteq> sb_permissions b"
        "gs_destinations s |\<subseteq>| sb_destinations b" "gs_expires_at s \<le> sb_expires_at b"
      using assms(1) by (auto simp: authorize_share_def split: if_splits option.splits)
    then have "share_within t b" using assms(2) by (simp add: task_ok_def)
    then show ?thesis
      using b can_scope [OF b(2)] fsubset_trans unfolding share_within_def by (auto 0 3)
  qed
  with spec show "vr_service r = tk_service t" "vr_origin r = tk_origin t" "gs_fields s \<subseteq> tk_fields t"
    "gs_permissions s \<subseteq> tk_permissions t" "gs_destinations s |\<subseteq>| tk_destinations t"
    "gs_expires_at s \<le> tk_expires_at t" "AccessGrant \<notin> gs_permissions s" by auto
qed

lemma perform_create_ok:
  assumes ok: "vault_ok app" and t: "task_of app ctx tid now = Inr t"
    and v: "bt_wf v" "input_valid v" "kind_matches kind v" and fresh: "fresh_id app fresh"
    and room: "length (app_records app) < 10000"
  shows "vault_ok (app\<lparr>app_records := bt_insert fresh (new_record ctx t tid fresh kind v) (app_records app)\<rparr>)"
    (is "vault_ok ?app")
proof -
  have ev: "evolves app ?app"
    using fresh by (intro evolvesI) (auto simp: fresh_id_def)
  have task: "map_of (app_tasks app) tid = Some t" and scope: "record_in_task t (new_record ctx t tid fresh kind v)"
    using t by (auto simp: task_of_Inr record_in_task_def new_record_def)
  show ?thesis
  proof (rule vault_okI)
    show "tables_ok ?app"
      using vault_tables [OF ok] room length_bt_insert [of fresh "new_record ctx t tid fresh kind v" "app_records app"]
      by (simp add: tables_ok_def)
    show "task_ok k x" if "map_of (app_tasks ?app) k = Some x" for k x
      using that vault_task [OF ok] by simp
    show "same_tenant a b" if "map_of (app_tasks ?app) i = Some a" "map_of (app_tasks ?app) j = Some b" for i j a b
      using that vault_tenant [OF ok] by simp
    show "record_ok ?app k r" if "map_of (app_records ?app) k = Some r" for k r
    proof (cases "k = fresh")
      case True
      have "record_ok ?app fresh (new_record ctx t tid fresh kind v)"
        using fresh v task scope
        by (auto simp: record_ok_def fresh_id_def new_record_def record_values_ok_def)
      then show ?thesis using that True by simp
    next
      case False
      then show ?thesis using that vault_record [OF ok] record_ok_evolves [OF _ ev] by simp
    qed
    show "gid \<noteq> nil_uuid \<and> grant_ok ?app g" if "map_of (app_grants ?app) gid = Some g" for gid g
      by (rule kept_grant_ok [OF ok ev, of gid g]) (use that fresh in \<open>auto simp: fresh_id_def split: if_splits\<close>)
    show "request_ok ?app key m" if "map_of (app_requests ?app) key = Some m" for key m
      using request_ok_later [OF _ ev] vault_request [OF ok] that by simp
  qed
qed

text \<open>The five changes of an existing record, each as the state it leads to.\<close>

lemma vault_ok_patch:
  assumes ok: "vault_ok app" and r: "map_of (app_records app) rid = Some r" "\<not> vr_deleted r"
      "vr_revision r \<noteq> u64_max"
    and app': "app' = app\<lparr>app_records := bt_modify rid (patch_record v) (app_records app)\<rparr>"
    and ev: "evolves app app'" and v: "bt_wf v" "input_valid v"
      "\<not> (vr_kind r = KLogin \<and> bt_contains v ApiKey \<or> vr_kind r = KApiKey \<and> bt_contains v Password)"
  shows "vault_ok app'"
proof (rule vault_ok_change [OF ok ev _ r(1)])
  show "app' = app\<lparr>app_records := bt_modify rid (patch_record v) (app_records app), app_grants := app_grants app\<rparr>"
    using app' by simp
  show "record_values_ok (patch_record v r)" "vr_secret_version (patch_record v r) \<le> vr_revision (patch_record v r)"
    using vault_record [OF ok r(1)] r v
    by (auto simp: record_ok_def intro: patched_values_ok patch_record_versions)
  show "gid \<noteq> nil_uuid \<and> grant_ok app' g" if "map_of (app_grants app) gid = Some g" for gid g
    by (rule kept_grant_ok [OF ok ev that])
       (auto simp: app' patch_record_def Let_def split: if_splits)
qed (use vault_tables [OF ok] in \<open>auto simp: tables_ok_def\<close>)

lemma vault_ok_report:
  assumes ok: "vault_ok app" and r: "map_of (app_records app) rid = Some r" "\<not> vr_deleted r"
      "vr_revision r \<noteq> u64_max"
    and app': "app' = app\<lparr>app_records := bt_modify rid
      (\<lambda>r. r\<lparr>vr_signup := state, vr_revision := vr_revision r + 1\<rparr>) (app_records app)\<rparr>"
    and ev: "evolves app app'"
  shows "vault_ok app'"
proof (rule vault_ok_change [OF ok ev _ r(1)])
  show "app' = app\<lparr>app_records := bt_modify rid
      (\<lambda>r. r\<lparr>vr_signup := state, vr_revision := vr_revision r + 1\<rparr>) (app_records app), app_grants := app_grants app\<rparr>"
    using app' by simp
  show "gid \<noteq> nil_uuid \<and> grant_ok app' g" if "map_of (app_grants app) gid = Some g" for gid g
    by (rule kept_grant_ok [OF ok ev that]) (auto simp: app' split: if_splits)
qed (use vault_tables [OF ok] vault_record [OF ok r(1)] versions_step [OF _ r(3)] in
      \<open>auto simp: tables_ok_def record_ok_def record_values_ok_def\<close>)

lemma vault_ok_delete:
  assumes ok: "vault_ok app" and r: "map_of (app_records app) rid = Some r" "\<not> vr_deleted r"
      "vr_revision r \<noteq> u64_max"
    and app': "app' = app\<lparr>app_records := bt_modify rid
        (\<lambda>r. r\<lparr>vr_deleted := True, vr_values := [], vr_revision := vr_revision r + 1\<rparr>) (app_records app),
      app_grants := bt_map (\<lambda>_ g. if gr_record g = rid then g\<lparr>gr_revoked := True\<rparr> else g) (app_grants app)\<rparr>"
    and ev: "evolves app app'"
  shows "vault_ok app'"
proof (rule vault_ok_change [OF ok ev app' r(1)])
  fix gid g
  assume "map_of (bt_map (\<lambda>_ g. if gr_record g = rid then g\<lparr>gr_revoked := True\<rparr> else g) (app_grants app)) gid = Some g"
  then obtain g0 where g0: "map_of (app_grants app) gid = Some g0"
      "g = (if gr_record g0 = rid then g0\<lparr>gr_revoked := True\<rparr> else g0)"
    by auto
  obtain r0 where "map_of (app_records app) (gr_record g0) = Some r0" "vr_deleted r0 \<longrightarrow> gr_revoked g0"
    using vault_grant [OF ok g0(1)] unfolding grant_ok_def by blast
  then have "grant_ok app' g"
    using vault_grant [OF ok g0(1)] g0(2)
    by (intro grant_ok_later [OF _ ev, of g0]) (auto simp: app' split: if_splits)
  then show "gid \<noteq> nil_uuid \<and> grant_ok app' g" using vault_grant [OF ok g0(1)] by simp
qed (use vault_tables [OF ok] vault_record [OF ok r(1)] versions_step [OF _ r(3)] in
      \<open>auto simp: tables_ok_def record_ok_def record_values_ok_def\<close>)

lemma vault_ok_regrant:
  assumes ok: "vault_ok app" and r: "map_of (app_records app) rid = Some r" "\<not> vr_deleted r"
      "vr_revision r \<noteq> u64_max"
    and app': "app' = app\<lparr>app_records := bt_modify rid bump_revision (app_records app), app_grants := gs\<rparr>"
    and ev: "evolves app app'" and gs: "bt_wf gs" "length gs \<le> 10000"
    and gs_cases: "\<And>gid n. map_of gs gid = Some n \<Longrightarrow>
        gid \<noteq> nil_uuid \<and> grant_ok app' n
        \<or> (\<exists>g. map_of (app_grants app) gid = Some g \<and> (n = g \<or> n = g\<lparr>gr_revoked := True\<rparr>))"
  shows "vault_ok app'"
proof (rule vault_ok_change [OF ok ev app' r(1)])
  have kept: "gid \<noteq> nil_uuid \<and> grant_ok app' n"
    if "map_of (app_grants app) gid = Some g" "n = g \<or> n = g\<lparr>gr_revoked := True\<rparr>" for gid g n
    by (rule kept_grant_ok [OF ok ev that(1)])
       (use that in \<open>auto simp: app' bump_revision_def split: if_splits\<close>)
  show "gid \<noteq> nil_uuid \<and> grant_ok app' n" if "map_of gs gid = Some n" for gid n
    using gs_cases [OF that] kept by blast
qed (use gs vault_record [OF ok r(1)] versions_step [OF _ r(3)] in
      \<open>auto simp: bump_revision_def record_ok_def record_values_ok_def\<close>)

lemma vault_ok_share:
  assumes ok: "vault_ok app" and r: "map_of (app_records app) rid = Some r" "\<not> vr_deleted r"
      "vr_revision r \<noteq> u64_max"
    and app': "app' = app\<lparr>app_records := bt_modify rid bump_revision (app_records app),
      app_grants := bt_insert fresh g (app_grants app)\<rparr>"
    and ev: "evolves app app'" and fresh: "fresh_id app fresh" and room: "length (app_grants app) < 10000"
    and g: "g = \<lparr>gr_record = rid, gr_spec = s, gr_revoked = False, gr_version = vr_secret_version r,
        gr_issuer_task = tid, gr_admin_issued = admin\<rparr>"
    and share: "authorize_share app ctx t r s now = Inr ()"
    and task: "map_of (app_tasks app) tid = Some t"
  shows "vault_ok app'"
proof (rule vault_ok_regrant [OF ok r app' ev])
  have "grant_ok app' g"
    using authorize_share_within [OF share vault_task [OF ok task]] task r vault_record [OF ok r(1)]
    by (auto simp: grant_ok_def app' g bump_revision_def record_ok_def)
  then show "gid \<noteq> nil_uuid \<and> grant_ok app' n
      \<or> (\<exists>g. map_of (app_grants app) gid = Some g \<and> (n = g \<or> n = g\<lparr>gr_revoked := True\<rparr>))"
    if "map_of (bt_insert fresh g (app_grants app)) gid = Some n" for gid n
    using that fresh by (auto simp: fresh_id_def split: if_splits)
qed (use vault_tables [OF ok] room length_bt_insert [of fresh g "app_grants app"] in \<open>auto simp: tables_ok_def\<close>)

lemma perform_target_ok:
  assumes ok: "vault_ok app" and t: "task_of app ctx tid now = Inr t"
    and auth: "authorize app ctx t op now False = Inr ()"
    and target: "mutation_target op = Some (rid, expected)"
    and perf: "perform app ctx t tid op fresh = (Inr receipt, app')"
    and ev: "evolves app app'" and wf: "mutation_wf op" and fresh: "fresh_id app fresh"
  shows "vault_ok app'"
proof -
  obtain r where r: "map_of (app_records app) rid = Some r" "\<not> vr_deleted r" "vr_revision r \<noteq> u64_max"
      and op: "authorize_op app ctx t r op now = Inr ()"
    by (rule authorize_creation_target [OF auth target])
  have task: "map_of (app_tasks app) tid = Some t" using t by (auto simp: task_of_Inr)
  note tabs = vault_tables [OF ok, unfolded tables_ok_def]
  show ?thesis
  proof (cases op)
    case (Patch a b v)
    then show ?thesis
      using perf r(1) target op wf
      by (intro vault_ok_patch [OF ok r _ ev, where v = v]) (auto split: if_splits)
  next
    case (Delete a b)
    then show ?thesis
      using perf r(1) target by (intro vault_ok_delete [OF ok r _ ev]) auto
  next
    case (Share a b s)
    then show ?thesis
      using perf r(1) target op
      by (intro vault_ok_share [OF ok r _ ev fresh _ _ _ task, where admin = "ctx_admin ctx" and s = s])
         (auto split: if_splits)
  next
    case (Revoke a b gid)
    then show ?thesis
      using perf r(1) target tabs
      by (intro vault_ok_regrant [OF ok r _ ev,
            where gs = "bt_modify gid (\<lambda>g. g\<lparr>gr_revoked := True\<rparr>) (app_grants app)"])
         (auto simp: Let_def split: option.splits if_splits)
  next
    case (ReportOutcome a b state)
    then show ?thesis
      using perf r(1) target by (intro vault_ok_report [OF ok r _ ev, where state = state]) auto
  qed (use target in simp_all)
qed

text \<open>An executed mutation, with the retained request and the audit event.\<close>

lemma perform_receipt:
  assumes "authorize app ctx t op now False = Inr ()" and "materialize app op ent = Inr op'"
    and "perform app ctx t tid op' fresh = (Inr receipt, app')"
  shows "\<exists>n. map_of (app_records app') (rc_record receipt) = Some n \<and> rc_revision receipt = vr_revision n
      \<and> 1 \<le> rc_revision receipt"
proof (cases "mutation_target op")
  case None
  then obtain kind v where "op' = Create kind v"
    using assms(2) by (cases op) (auto simp: materialize_def split: if_splits sum.splits)
  then show ?thesis using assms(3) by (auto simp: new_record_def split: if_splits)
next
  case (Some target)
  then have same: "op' = op"
    using assms(2) by (cases op) (auto simp: materialize_def split: if_splits sum.splits)
  obtain rid expected where target: "mutation_target op = Some (rid, expected)"
    using Some by (cases target) auto
  obtain r where r: "map_of (app_records app) rid = Some r" "vr_revision r \<noteq> u64_max"
    by (rule authorize_creation_target [OF assms(1) target])
  have "1 \<le> vr_revision r + 1"
    using inc_nonzero [OF r(2)] by (simp add: word_le_nat_alt word_gt_0 unat_gt_0 Suc_le_eq)
  then show ?thesis
    using assms(3) r target same
    by (cases op) (auto simp: Let_def patch_record_def bump_revision_def split: if_splits option.splits)
qed

lemma execute_ok:
  assumes ok: "vault_ok app" and t: "task_of app ctx (rk_task key) now = Inr t"
    and key: "rk_id key \<noteq> nil_uuid" "rk_owner key = ctx_owner ctx" "rk_principal key = ctx_principal ctx"
    and ex: "execute app ctx t key op fp now fresh ent = (Inr receipt, app')"
    and wf: "mutation_wf op" and fresh: "fresh_id app fresh"
  shows "vault_ok app'"
proof -
  obtain op' mid where e: "authorize app ctx t op now False = Inr ()" "length (app_requests app) < 10000"
      "materialize app op ent = Inr op'" "perform app ctx t (rk_task key) op' fresh = (Inr receipt, mid)"
      "app' = audit_push
       (mid\<lparr>app_requests := bt_insert key
          \<lparr>rm_fingerprint = fp, rm_result = receipt, rm_kind = cached_kind_of op, rm_at = Some now\<rparr>
          (app_requests mid)\<rparr>)
       \<lparr>ae_task = rk_task key, ae_record = rc_record receipt, ae_request = Some (rk_id key),
        ae_action = AuMutation, ae_at = now, ae_principal = ctx_principal ctx\<rparr>"
    by (rule execute_cases [OF ex])
  have ev: "evolves app mid" by (rule perform_evolves [OF e(1,3,4) fresh])
  have mid: "vault_ok mid"
  proof (cases "mutation_target op")
    case None
    then obtain kind v where v: "op' = Create kind v" "bt_wf v" "input_valid v" "kind_matches kind v"
      using e(1,3) wf
      by (cases op)
         (auto simp: materialize_def authorize_def split: if_splits sum.splits dest: generate_values_props)
    then show ?thesis
      using e(4) perform_create_ok [OF ok t v(2-4) fresh] by (auto split: if_splits)
  next
    case (Some target)
    then have "op' = op"
      using e(3) by (cases op) (auto simp: materialize_def split: if_splits sum.splits)
    with e Some show ?thesis
      by (cases target) (auto intro: perform_target_ok [OF ok t e(1) _ _ ev wf fresh])
  qed
  have "map_of (app_tasks mid) (rk_task key) = Some t" "tk_owner t = ctx_owner ctx" "tk_principal t = ctx_principal ctx"
    using t perform_frame(1) [OF e(4)] by (auto simp: task_of_Inr)
  then have req: "request_ok mid key \<lparr>rm_fingerprint = fp, rm_result = receipt, rm_kind = cached_kind_of op, rm_at = Some now\<rparr>"
    using perform_receipt [OF e(1,3,4)] key by (auto simp: request_ok_def)
  show ?thesis
  proof (rule vault_okI)
    show "tables_ok app'"
      using vault_tables [OF mid] e(2) perform_frame(2) [OF e(4)]
        length_bt_insert [of key "\<lparr>rm_fingerprint = fp, rm_result = receipt, rm_kind = cached_kind_of op, rm_at = Some now\<rparr>" "app_requests app"]
      by (auto simp: e(5) tables_ok_def intro!: audit_push_length)
    show "request_ok app' k m" if "map_of (app_requests app') k = Some m" for k m
      using that req vault_request [OF mid] by (auto simp: e(5) request_ok_def split: if_splits)
  qed (use mid in \<open>auto simp: e(5) vault_ok_def record_ok_def grant_ok_def\<close>)
qed

section \<open>Preservation by every operation\<close>

lemma mutate_ok:
  assumes ok: "vault_ok app" and mut: "mutate ext app ctx tid request op now fresh ent = (res, app')"
    and "mutation_wf op" and "fresh_id app fresh"
  shows "vault_ok app'"
  using mut
proof (cases rule: mutate_cases)
  case (executed eff t bytes receipt)
  then show ?thesis
    using assms vault_ok_clock [OF ok, of "app\<lparr>app_last_time := Some eff\<rparr>"]
    by (intro execute_ok [OF _ _ _ _ _ executed(9)]) auto
qed (use vault_ok_clock [OF ok] in auto)

lemma approve_task_ok:
  assumes ok: "vault_ok app" and step: "approve_task app ctx t now = (res, app')"
  shows "vault_ok app'"
proof (cases res)
  case (Inl e)
  then show ?thesis using step approve.refusal_frame vault_ok_clock [OF ok] by blast
next
  case (Inr u)
  then obtain eff where eff: "effective_time app now = Inr eff"
    using step by (cases "effective_time app now") (auto simp: approve_task_def clock_eqs)
  let ?mid = "app\<lparr>app_last_time := Some eff\<rparr>"
  from step Inr eff have app': "app' = ?mid\<lparr>app_tasks := bt_insert (tk_id t) t (app_tasks app)\<rparr>"
    and new: "map_of (app_tasks app) (tk_id t) = None" "length (app_tasks app) < 10000"
    and fields: "task_fields_ok t eff" "\<And>b. tk_share t = Some b \<Longrightarrow> share_bounds_ok t b eff"
    and tenant: "list_all (\<lambda>k. same_tenant k t) (bt_values (app_tasks app))"
    by (auto simp: approve_task_def clock_eqs bt_contains_def list_ex_iff list_all_iff same_tenant_def
        split: if_splits option.splits)
  have ev: "evolves app app'" using step by (rule approve_task_evolves)
  have tok: "task_ok (tk_id t) t"
    using fields by (auto simp: task_ok_def task_fields_ok_def share_bounds_ok_def share_within_def)
  have same: "same_tenant k t" if "map_of (app_tasks app) i = Some k" for i k
    using tenant map_of_SomeD [OF that] by (force simp: list_all_iff)
  show ?thesis
  proof (rule vault_okI)
    show "tables_ok app'"
      using vault_tables [OF ok] new length_bt_insert [of "tk_id t" t "app_tasks app"]
      by (simp add: app' tables_ok_def)
    show "task_ok k x" if "map_of (app_tasks app') k = Some x" for k x
      using that tok vault_task [OF ok] by (auto simp: app' split: if_splits)
    show "same_tenant a b" if "map_of (app_tasks app') i = Some a" "map_of (app_tasks app') j = Some b" for i j a b
      using that same vault_tenant [OF ok] by (auto simp: app' same_tenant_def split: if_splits)
    show "record_ok app' k r" if "map_of (app_records app') k = Some r" for k r
      using that vault_record [OF ok] record_ok_evolves [OF _ ev] by (simp add: app')
    show "gid \<noteq> nil_uuid \<and> grant_ok app' g" if "map_of (app_grants app') gid = Some g" for gid g
      by (rule kept_grant_ok [OF ok ev, of gid g]) (use that in \<open>auto simp: app'\<close>)
    show "request_ok app' key m" if "map_of (app_requests app') key = Some m" for key m
      using request_ok_later [OF _ ev] vault_request [OF ok] that by (simp add: app')
  qed
qed

lemma revoke_task_ok:
  assumes ok: "vault_ok app" and "revoke_task app ctx tid now = (res, app')" shows "vault_ok app'"
  using assms(2) vault_tables [OF ok]
  by (intro vault_ok_tables [OF ok])
     (cases "effective_time app now";
      auto simp: revoke_task_def tables_ok_def clock_eqs split: if_splits option.splits)+

lemma metadata_ok:
  assumes ok: "vault_ok app" and "metadata app ctx tid rid fs now = (res, app')" shows "vault_ok app'"
  using assms(2) vault_tables [OF ok]
  by (intro vault_ok_tables [OF ok])
     (cases "effective_time app now";
      auto simp: metadata_def tables_ok_def clock_eqs intro!: audit_push_length split: if_splits sum.splits)+

lemma read_secret_ok:
  assumes ok: "vault_ok app" and "read_secret app ctx tid rid fs now = (res, app')" shows "vault_ok app'"
  using assms(2) vault_tables [OF ok]
  by (intro vault_ok_tables [OF ok])
     (cases "effective_time app now";
      auto simp: read_secret_def tables_ok_def clock_eqs intro!: audit_push_length split: if_splits sum.splits)+

lemma vault_ok_step:
  assumes "vault_ok app" and "admissible app q" shows "vault_ok (snd (app_step ext q app))"
  using assms
  by (cases q)
     (auto intro: approve_task_ok revoke_task_ok metadata_ok read_secret_ok mutate_ok simp: prod_eq_iff)

interpretation vault: run_invariant vault_ok
  by unfold_locales (rule vault_ok_step)

lemma reachable_vault_ok:
  "admissible_run ext qs default_application \<Longrightarrow> vault_ok (app_run ext qs default_application)"
  using vault.run [of ext qs default_application] by simp

end
