(* ===== verification/Example_Vault.thy ===== *)
theory Example_Vault
  imports Policy_Invariant
begin

text \<open>
  A small vault on which the properties are exercised: an administrator approves one task of an
  agent, the agent stores a login under it and shares it with a second agent whose own task has the
  same scope. The states are written out and each is shown to be the result of the operation that
  leads to it, so they are reachable states of the model.
\<close>

lemmas [vault_defs] = clock_def effective_time_def clock_skew_tolerance_def sat_sub_def time_min_def
  time_max_def bt_values_def bt_keys_def bt_contains_def bt_modify_def bt_map_def bt_extend_def
  approve_task_def task_fields_ok_def share_bounds_ok_def name_ok_def revoke_task_def task_of_def
  record_of_def can_def grant_allows_def authorize_def authorize_target_def authorize_share_def
  grant_spec_ok_def input_valid_def input_fields_def secret_def changes_credential_def
  metadata_only_def kind_matches_def is_delete_def is_creation_def execute_def materialize_def
  cached_kind_of_def cached_receipt_def audit_push_def new_record_def patch_record_def
  bump_revision_def mutate_def metadata_def select_def restrict_input_def read_secret_def
  less_field_def fresh_id_def fcard.rep_eq Let_def

definition ex_admin :: auth_context where
  "ex_admin = from_authenticated_admin ''own'' ''root'' ''ws''"

definition ex_agent :: auth_context where
  "ex_agent = from_authenticated_peer ''own'' ''bot'' ''ws''"

definition ex_peer :: auth_context where
  "ex_peer = from_authenticated_session ''own'' ''cat'' ''ws'' 900"

definition ex_bounds :: share_bounds where
  "ex_bounds = \<lparr>sb_recipients = {|''cat''|}, sb_fields = {Username, Password},
     sb_permissions = {MetadataRead, SecretRead}, sb_destinations = {||}, sb_expires_at = 800,
     sb_allow_follow_active = False\<rparr>"

definition ex_task :: task_approval where
  "ex_task = \<lparr>tk_id = 7, tk_owner = ''own'', tk_principal = ''bot'', tk_workspace = ''ws'',
     tk_service = ''svc'', tk_origin = ''https://svc'', tk_fields = {Label, Username, Password},
     tk_permissions = {MetadataRead, SecretUse, SecretRead, SecretWrite, AccessGrant, EntryDelete},
     tk_destinations = {|''dest''|}, tk_expires_at = 1000, tk_share = Some ex_bounds\<rparr>"

definition ex_peer_task :: task_approval where
  "ex_peer_task = ex_task\<lparr>tk_id := 8, tk_principal := ''cat'', tk_share := None\<rparr>"

definition ex_ext :: externals where
  "ex_ext = \<lparr>ex_mutation_json = (\<lambda>op. Some [if is_delete op then 1 else 0]), ex_use_json = (\<lambda>_. Some [2]),
     ex_sha256 = (\<lambda>bytes. bytes)\<rparr>"

definition ex_values :: secret_input where
  "ex_values = [(Username, ''bob''), (Password, ''pw'')]"

definition ex_record :: vault_record where
  "ex_record = new_record ex_agent ex_task 7 51 KLogin ex_values"

definition ex_key :: "uuid \<Rightarrow> request_key" where
  "ex_key = RequestKey ''own'' ''bot'' 7"

definition ex_remembered :: "cached_kind \<Rightarrow> receipt \<Rightarrow> u8 \<Rightarrow> time \<Rightarrow> remembered" where
  "ex_remembered kind receipt fp now =
     \<lparr>rm_fingerprint = [fp], rm_result = receipt, rm_kind = kind, rm_at = Some now\<rparr>"

definition ex_event :: "uuid \<Rightarrow> time \<Rightarrow> audit_event" where
  "ex_event request now = \<lparr>ae_task = 7, ae_record = 51, ae_request = Some request,
     ae_action = AuMutation, ae_at = now, ae_principal = ''bot''\<rparr>"

definition ex_created :: receipt where
  "ex_created = \<lparr>rc_record = 51, rc_revision = 1, rc_grant = None\<rparr>"

definition ex_shared :: receipt where
  "ex_shared = \<lparr>rc_record = 51, rc_revision = 2, rc_grant = Some 61\<rparr>"

definition ex_spec :: grant_spec where
  "ex_spec = \<lparr>gs_recipient = ''cat'', gs_fields = {Username, Password},
     gs_permissions = {MetadataRead, SecretRead}, gs_destinations = {||}, gs_expires_at = 700,
     gs_follow_active = False\<rparr>"

definition ex_grant :: grant where
  "ex_grant = \<lparr>gr_record = 51, gr_spec = ex_spec, gr_revoked = False, gr_version = 1,
     gr_issuer_task = 7, gr_admin_issued = False\<rparr>"

text \<open>After the approvals, after the creation and after the share.\<close>

definition ex_approved :: application where
  "ex_approved = default_application\<lparr>app_tasks := [(7, ex_task), (8, ex_peer_task)],
     app_last_time := Some 100\<rparr>"

definition ex_stored :: application where
  "ex_stored = ex_approved\<lparr>app_records := [(51, ex_record)],
     app_requests := [(ex_key 11, ex_remembered CkCreate ex_created 0 101)],
     app_audit := [ex_event 11 101], app_last_time := Some 101\<rparr>"

definition ex_vault :: application where
  "ex_vault = ex_stored\<lparr>app_records := [(51, bump_revision ex_record)], app_grants := [(61, ex_grant)],
     app_requests := [(ex_key 11, ex_remembered CkCreate ex_created 0 101),
                      (ex_key 12, ex_remembered CkShare ex_shared 0 102)],
     app_audit := [ex_event 11 101, ex_event 12 102], app_last_time := Some 102\<rparr>"

lemmas ex_defs = ex_admin_def ex_agent_def ex_peer_def ex_bounds_def ex_task_def ex_peer_task_def
  ex_ext_def ex_values_def ex_record_def ex_key_def ex_remembered_def ex_event_def ex_created_def
  ex_shared_def ex_spec_def ex_grant_def ex_approved_def ex_stored_def ex_vault_def
  from_authenticated_admin_def from_authenticated_peer_def from_authenticated_session_def
  default_application_def less_request_key_def key_less_def

definition ex_setup :: "vault_request list" where
  "ex_setup = [RqApprove ex_admin ex_task 99, RqApprove ex_admin ex_peer_task 100,
     RqMutate ex_agent 7 11 (Create KLogin ex_values) 101 51 [],
     RqMutate ex_agent 7 12 (Share 51 1 ex_spec) 102 61 []]"

lemma ex_steps:
  "app_step ex_ext (RqApprove ex_admin ex_task 99) default_application
     = (Inr Done, default_application\<lparr>app_tasks := [(7, ex_task)], app_last_time := Some 99\<rparr>)"
  "app_step ex_ext (RqApprove ex_admin ex_peer_task 100)
     (default_application\<lparr>app_tasks := [(7, ex_task)], app_last_time := Some 99\<rparr>) = (Inr Done, ex_approved)"
  "app_step ex_ext (RqMutate ex_agent 7 11 (Create KLogin ex_values) 101 51 []) ex_approved
     = (Inr (ReceiptOf ex_created), ex_stored)"
  "app_step ex_ext (RqMutate ex_agent 7 12 (Share 51 1 ex_spec) 102 61 []) ex_stored
     = (Inr (ReceiptOf ex_shared), ex_vault)"
  by (simp_all add: ex_defs vault_defs)

lemma ex_fresh: "bt_wf ex_values" "fresh_id ex_approved 51" "fresh_id ex_stored 61"
  by (simp_all add: bt_wf_def ex_defs vault_defs)

lemma ex_admissible: "admissible_run ex_ext ex_setup default_application"
  by (simp add: ex_setup_def ex_steps ex_fresh time_min_def del: app_step.simps)

lemma ex_run: "app_run ex_ext ex_setup default_application = ex_vault"
  by (simp add: ex_setup_def ex_steps del: app_step.simps)

lemma ex_vault_ok: "vault_ok ex_vault"
  using reachable_vault_ok [OF ex_admissible] by (simp add: ex_run)

end
