(* ===== verification/Policy_Properties.thy ===== *)
theory Policy_Properties
  imports Example_Vault
begin

text \<open>
  The properties of the policy core: what a refused call leaves behind, how the clock moves, that a
  retried request is never executed twice, what a mutation changes, who may read what, and that
  deletion and revocation are final.
\<close>

section \<open>Refusals and the clock\<close>

text \<open>
  C30: An operation that returns an error changes nothing but the clock: no record, grant, retained
  request, delivery or audit event is added or altered, whatever check refused it.
\<close>

theorem refusal_changes_only_clock:
  assumes "app_step ext q app = (Inl e, app')"
  shows "app' = app\<lparr>app_last_time := app_last_time app', app_clock_frozen := app_clock_frozen app'\<rparr>"
  using app_step_refused [OF assms] by (simp add: same_but_clock_def)

theorem refusal_changes_only_clock_witness:
  "snd (app_step ex_ext (RqReadSecret ex_agent 7 52 {Password} 103) ex_vault) = ex_vault\<lparr>app_last_time := Some 103\<rparr>"
proof -
  have step: "app_step ex_ext (RqReadSecret ex_agent 7 52 {Password} 103) ex_vault
      = (Inl Denied, ex_vault\<lparr>app_last_time := Some 103\<rparr>)"
    by (simp add: ex_defs vault_defs)
  show ?thesis using refusal_changes_only_clock [OF step] step by simp
qed

text \<open>
  The clock high-water mark never moves back, over any sequence of operations and whatever clock
  readings they are given.
\<close>

theorem clock_never_moves_back:
  assumes "admissible_run ext qs app"
  shows "high_water app \<le> high_water (app_run ext qs app)"
  using assms by (rule high_water.run)

theorem clock_never_moves_back_witness: "high_water default_application \<le> high_water ex_vault"
  using clock_never_moves_back [OF ex_admissible] by (simp add: ex_run)

text \<open>
  A clock that falls back by more than the tolerance freezes the vault, and a frozen vault answers
  every operation with the recovery error and does not change.
\<close>

theorem rollback_freezes:
  assumes "app_last_time app = Some high" and "now < high - clock_skew_tolerance"
    and "time_min \<le> now" and "high \<le> time_max" and "request_now q = now"
  shows "app_step ext q app = (Inl ClockRecoveryRequired, app\<lparr>app_clock_frozen := True\<rparr>)
    \<and> app_step ext q' (app_run ext qs (snd (app_step ext q app)))
        = (Inl ClockRecoveryRequired, app\<lparr>app_clock_frozen := True\<rparr>)"
proof -
  have "clock_skew_tolerance < sat_sub high now"
    using assms by (auto simp: sat_sub_def time_min_def time_max_def clock_skew_tolerance_def)
  then have eff: "effective_time app now = Inl ClockRecoveryRequired"
    using assms by (auto simp: effective_time_def clock_skew_tolerance_def)
  have "app_step ext q app = (Inl ClockRecoveryRequired, app\<lparr>app_clock_frozen := True\<rparr>)"
    using eff assms(5)
    by (cases q) (simp_all add: approve.clock_first revoke.clock_first mutation.clock_first
        meta.clock_first read.clock_first)
  then show ?thesis by (simp add: app_run_frozen app_step_frozen)
qed

theorem rollback_freezes_witness:
  "app_step ex_ext (RqRevokeTask ex_admin 7 96) ex_vault
     = (Inl ClockRecoveryRequired, ex_vault\<lparr>app_clock_frozen := True\<rparr>)"
  using rollback_freezes [of ex_vault 102 96 "RqRevokeTask ex_admin 7 96" ex_ext]
  by (simp add: ex_vault_def clock_skew_tolerance_def time_min_def time_max_def del: app_step.simps)

section \<open>Retries\<close>

lemma mutate_remembers:
  assumes "mutate ext app ctx tid request op now fresh ent = (Inr receipt, app')"
  shows "\<exists>m bytes. map_of (app_requests app') (RequestKey (ctx_owner ctx) (ctx_principal ctx) tid request) = Some m
    \<and> rm_result m = receipt \<and> ex_mutation_json ext op = Some bytes \<and> rm_fingerprint m = ex_sha256 ext bytes"
  using assms by (cases rule: mutate_cases) (auto elim!: execute_cases)

lemma mutate_remembered:
  assumes "mutate ext app ctx tid request op now fresh ent = (res, app')"
    and "map_of (app_requests app) (RequestKey (ctx_owner ctx) (ctx_principal ctx) tid request) = Some m"
  shows "same_but_clock app app' \<and> (\<forall>receipt. res = Inr receipt \<longrightarrow> receipt = rm_result m
      \<and> (\<exists>bytes. ex_mutation_json ext op = Some bytes \<and> rm_fingerprint m = ex_sha256 ext bytes))"
  using assms by (cases rule: mutate_cases) auto

text \<open>
  C3: A request identifier is executed at most once. However many operations lie between, presenting
  it again changes nothing but the clock and gives the receipt of the first execution or an error;
  the receipt only if the fingerprint of the input is the same.
\<close>

theorem request_executes_at_most_once:
  assumes first: "mutate ext app ctx tid request op now fresh ent = (Inr receipt, app1)"
    and between: "admissible_run ext qs app1"
    and again: "mutate ext (app_run ext qs app1) ctx tid request op' now' fresh' ent' = (res, app2)"
  shows "same_but_clock (app_run ext qs app1) app2
    \<and> (case res of Inl _ \<Rightarrow> True
       | Inr receipt' \<Rightarrow> receipt' = receipt \<and>
           map_option (ex_sha256 ext) (ex_mutation_json ext op') = map_option (ex_sha256 ext) (ex_mutation_json ext op))"
proof -
  let ?key = "RequestKey (ctx_owner ctx) (ctx_principal ctx) tid request"
  obtain m bytes where m: "map_of (app_requests app1) ?key = Some m" "rm_result m = receipt"
      "ex_mutation_json ext op = Some bytes" "rm_fingerprint m = ex_sha256 ext bytes"
    using mutate_remembers [OF first] by blast
  have "map_of (app_requests (app_run ext qs app1)) ?key = Some m"
    by (rule evolves_request [OF evolution.run [OF between] m(1)])
  then show ?thesis using mutate_remembered [OF again] m(2-4) by (auto split: sum.splits)
qed

lemma ex_create:
  "mutate ex_ext ex_approved ex_agent 7 11 (Create KLogin ex_values) 101 51 [] = (Inr ex_created, ex_stored)"
  by (simp add: ex_defs vault_defs)

theorem request_executes_at_most_once_witness:
  "fst (mutate ex_ext ex_vault ex_agent 7 11 (Create KLogin ex_values) 103 71 []) = Inr ex_created
   \<and> same_but_clock ex_vault (snd (mutate ex_ext ex_vault ex_agent 7 11 (Create KLogin ex_values) 103 71 []))"
proof -
  let ?q = "RqMutate ex_agent 7 12 (Share 51 1 ex_spec) 102 61 []"
  have run: "admissible_run ex_ext [?q] ex_stored" "app_run ex_ext [?q] ex_stored = ex_vault"
    by (simp_all add: ex_steps ex_fresh time_min_def del: app_step.simps)
  have again: "mutate ex_ext (app_run ex_ext [?q] ex_stored) ex_agent 7 11 (Create KLogin ex_values) 103 71 []
      = (Inr ex_created, ex_vault\<lparr>app_last_time := Some 103\<rparr>)"
    unfolding run(2) by (simp add: ex_defs vault_defs)
  show ?thesis
    using request_executes_at_most_once [OF ex_create run(1) again] again unfolding run(2) by simp
qed

text \<open>The first state is computed again from the moved clock.\<close>

lemma clock_again:
  "effective_time app now = Inr eff \<Longrightarrow>
     clock (app\<lparr>app_last_time := Some eff\<rparr>) now = (Inr eff, app\<lparr>app_last_time := Some eff\<rparr>)"
  by (auto simp: clock_def effective_time_def sat_sub_def split: option.splits if_splits)

lemma mutate_clock_again:
  "effective_time app now = Inr eff \<Longrightarrow>
     mutate ext (app\<lparr>app_last_time := Some eff\<rparr>) ctx tid request op now fresh ent
     = mutate ext app ctx tid request op now fresh ent"
  by (simp add: mutate_def clock_again clock_ok cong: sum.case_cong)

lemma can_creator:
  assumes "vr_created_by r = ctx_principal ctx" "vr_task r = tk_id t"
  shows "can app ctx t r perm fs dest now \<longleftrightarrow>
    vr_service r = tk_service t \<and> vr_origin r = tk_origin t \<and> perm \<in> tk_permissions t \<and> fs \<subseteq> tk_fields t
    \<and> (\<forall>d. dest = Some d \<longrightarrow> d |\<in>| tk_destinations t)"
  using assms by (auto simp: can_def split: option.splits)

definition by_creator :: "application \<Rightarrow> auth_context \<Rightarrow> uuid \<Rightarrow> mutation \<Rightarrow> bool" where
  "by_creator app ctx tid op \<longleftrightarrow>
     (\<forall>rid expected r. mutation_target op = Some (rid, expected) \<longrightarrow> map_of (app_records app) rid = Some r \<longrightarrow>
        vr_created_by r = ctx_principal ctx \<and> vr_task r = tid)"

lemma authorize_op_again:
  assumes auth: "authorize_op app ctx t r op now = Inr ()"
    and creator: "vr_created_by r = ctx_principal ctx" "vr_task r = tk_id t"
    and ev: "record_evolves r n"
    and vals: "if is_delete op then vr_values n = [] else input_fields (vr_values r) \<subseteq> input_fields (vr_values n)"
    and grants: "\<And>gid g. map_of (app_grants app) gid = Some g \<Longrightarrow>
      \<exists>g'. map_of (app_grants mid) gid = Some g' \<and> grant_evolves g g'"
  shows "authorize_op mid ctx t n op now = Inr ()"
proof -
  have n: "vr_created_by n = ctx_principal ctx" "vr_task n = tk_id t" "vr_service n = vr_service r"
    "vr_origin n = vr_origin r" "vr_kind n = vr_kind r"
    using creator ev by (simp_all add: record_evolves_def)
  note can = can_creator [OF creator] can_creator [OF n(1,2)] n(3-5)
  show ?thesis
  proof (cases op)
    case (Share a b s)
    then have "input_fields (vr_values r) \<subseteq> input_fields (vr_values n)" using vals by (simp add: is_delete_def)
    moreover have "grant_spec_ok r s now" using auth Share by (simp add: authorize_share_def split: if_splits)
    ultimately have "grant_spec_ok n s now" by (auto simp: grant_spec_ok_def)
    then show ?thesis
      using auth Share by (auto simp: authorize_share_def can split: if_splits option.splits)
  next
    case (Revoke a b gid)
    then obtain g where g: "map_of (app_grants app) gid = Some g" using auth by (auto split: option.splits)
    obtain g' where "map_of (app_grants mid) gid = Some g'" "gr_record g' = gr_record g" "gr_spec g' = gr_spec g"
      using grants [OF g] by (auto simp: grant_evolves_def)
    then show ?thesis using auth Revoke g by (simp add: can split: if_splits)
  qed (use auth vals in \<open>auto simp: can is_delete_def split: if_splits\<close>)
qed

lemma authorize_again:
  assumes auth: "authorize app ctx t op now False = Inr ()" and creator: "by_creator app ctx (tk_id t) op"
    and perf: "perform app ctx t tid op fresh = (Inr receipt, mid)" and ev: "evolves app mid"
    and target: "mutation_target op = Some (rid, expected)"
  shows "authorize mid ctx t op now True = Inr ()"
proof -
  obtain r where r: "map_of (app_records app) rid = Some r" "vr_owner r = ctx_owner ctx"
      "vr_workspace r = ctx_workspace ctx" "\<not> vr_deleted r" "authorize_op app ctx t r op now = Inr ()"
    by (rule authorize_creation_target [OF auth target])
  have c: "vr_created_by r = ctx_principal ctx" "vr_task r = tk_id t"
    using creator r(1) target by (auto simp: by_creator_def)
  obtain n where n: "map_of (app_records mid) rid = Some n" "record_evolves r n"
    using evolves_record [OF ev r(1)] by blast
  have vals: "if is_delete op then vr_values n = [] \<and> vr_deleted n
      else input_fields (vr_values r) \<subseteq> input_fields (vr_values n) \<and> \<not> vr_deleted n"
    using perf r(1,4) n(1) target
    by (cases op) (auto simp: is_delete_def patch_record_def bump_revision_def Let_def split: if_splits option.splits)
  have "authorize_op mid ctx t n op now = Inr ()"
    by (rule authorize_op_again [OF r(5) c n(2)]) (use vals evolves_grant [OF ev] in \<open>auto split: if_splits\<close>)
  then have "authorize_target mid ctx t op (rid, expected) now True = Inr ()"
    using n r vals by (auto simp: authorize_target_def record_evolves_def split: if_splits)
  then show ?thesis using target by (cases op) (auto simp: authorize_def)
qed

text \<open>The checks depend on the tasks, the revocations, the records and the grants alone.\<close>

lemma can_cong:
  assumes "app_tasks a = app_tasks b" "app_revoked_tasks a = app_revoked_tasks b" "app_grants a = app_grants b"
  shows "can a = can b"
proof -
  have "grant_allows a = grant_allows b"
    using assms by (simp add: fun_eq_iff grant_allows_def cong: option.case_cong)
  then show ?thesis using assms(3) by (intro ext) (simp add: can_def)
qed

lemma authorize_cong:
  assumes "app_tasks a = app_tasks b" "app_revoked_tasks a = app_revoked_tasks b" "app_grants a = app_grants b"
    and "app_records a = app_records b"
  shows "authorize a ctx t op now retry = authorize b ctx t op now retry"
proof -
  have "authorize_share a ctx t r s now = authorize_share b ctx t r s now" for r s
    by (simp add: authorize_share_def can_cong [OF assms(1-3)] cong: option.case_cong if_cong)
  then have "authorize_op a ctx t r op now = authorize_op b ctx t r op now" for r
    using assms(3) by (cases op) (simp_all add: can_cong [OF assms(1-3)] cong: option.case_cong)
  then show ?thesis
    using assms(4)
    by (cases op) (simp_all add: authorize_def authorize_target_def cong: option.case_cong sum.case_cong if_cong)
qed

lemma task_of_cong:
  "app_tasks a = app_tasks b \<Longrightarrow> app_revoked_tasks a = app_revoked_tasks b \<Longrightarrow> task_of a = task_of b"
  by (simp add: fun_eq_iff task_of_def cong: option.case_cong)

lemma execute_repeatable:
  assumes ex: "execute app ctx t key op fp now fresh ent = (Inr receipt, app')"
    and fresh: "fresh_id app fresh" and creator: "by_creator app ctx (tk_id t) op"
  shows "authorize app' ctx t op now True = Inr ()"
    and "is_creation op \<Longrightarrow> \<exists>r. record_of app' ctx (rc_record receipt) = Inr r"
    and "\<exists>m. map_of (app_requests app') key = Some m \<and> rm_fingerprint m = fp \<and> rm_result m = receipt"
proof -
  obtain op' mid where e: "authorize app ctx t op now False = Inr ()" "materialize app op ent = Inr op'"
      "perform app ctx t (rk_task key) op' fresh = (Inr receipt, mid)"
      and app': "app_tasks app' = app_tasks mid" "app_records app' = app_records mid"
        "app_grants app' = app_grants mid" "app_revoked_tasks app' = app_revoked_tasks mid"
        "\<exists>m. map_of (app_requests app') key = Some m \<and> rm_fingerprint m = fp \<and> rm_result m = receipt"
    by (rule execute_cases [OF ex]) auto
  have "authorize mid ctx t op now True = Inr ()"
  proof (cases "mutation_target op")
    case None
    then show ?thesis using e(1) by (cases op) (simp_all add: authorize_def)
  next
    case (Some target)
    then have "op' = op" using e(2) by (cases op) (auto simp: materialize_def split: sum.splits if_splits)
    then show ?thesis
      using authorize_again [OF e(1) creator _ perform_evolves [OF e fresh]] e(3) Some
      by (cases target) auto
  qed
  then show "authorize app' ctx t op now True = Inr ()"
    using authorize_cong [of app' mid] app' by simp
  show "is_creation op \<Longrightarrow> \<exists>r. record_of app' ctx (rc_record receipt) = Inr r"
    using e(2,3) app'(2)
    by (cases op)
       (auto simp: is_creation_def materialize_def record_of_def new_record_def split: if_splits sum.splits)
qed (use ex in \<open>auto elim!: execute_cases\<close>)

text \<open>
  The owner of a record can always repeat a request: when a creation, or a mutation of a record
  under the task that created it, has succeeded, sending the same request again at the same clock
  reading returns the same receipt and leaves the state exactly as it is.
\<close>

theorem creator_retry_succeeds:
  assumes first: "mutate ext app ctx tid request op now fresh ent = (Inr receipt, app1)"
    and ok: "vault_ok app" and fresh: "fresh_id app fresh" and creator: "by_creator app ctx tid op"
  shows "mutate ext app1 ctx tid request op now fresh' ent' = (Inr receipt, app1)"
  using first
proof (cases rule: mutate_cases)
  case (cached eff t previous bytes)
  have "mutate ext app ctx tid request op now fresh' ent' = mutate ext app ctx tid request op now fresh ent"
    using cached clock_ok [OF cached(1)] by (simp add: mutate_def Let_def)
  then show ?thesis using cached first by (simp add: mutate_clock_again)
next
  case (executed eff t bytes rc)
  have "tk_id t = tid"
    using executed(3) vault_task [OF ok] by (auto simp: task_of_Inr task_ok_def)
  then have again: "by_creator (app\<lparr>app_last_time := Some eff\<rparr>) ctx (tk_id t) op"
    using creator by (simp add: by_creator_def)
  note rep = execute_repeatable [OF executed(9) _ again, simplified fresh_id_clock, OF fresh]
  note frame = execute_frame [OF executed(9)]
  have "clock app1 now = (Inr eff, app1)"
    using clock_again [OF executed(1)] frame(2,3)
    by (auto simp: clock_def effective_time_def split: option.splits if_splits)
  moreover have "task_of app1 ctx tid eff = Inr t"
    using executed(3) task_of_cong [of app1 app] frame by simp
  ultimately show ?thesis
    using executed(2,5,6,8,10) frame rep
    by (auto simp: mutate_def cached_receipt_def list_ex_iff Let_def)
qed simp_all

lemma ex_share: "mutate ex_ext ex_stored ex_agent 7 12 (Share 51 1 ex_spec) 102 61 [] = (Inr ex_shared, ex_vault)"
  by (simp add: ex_defs vault_defs)

lemma ex_stored_ok: "vault_ok ex_stored"
  using reachable_vault_ok [of ex_ext "take 3 ex_setup"]
  by (simp add: ex_setup_def ex_steps ex_fresh time_min_def del: app_step.simps)

theorem creator_retry_succeeds_witness:
  "mutate ex_ext ex_vault ex_agent 7 12 (Share 51 1 ex_spec) 102 99 [] = (Inr ex_shared, ex_vault)"
  by (rule creator_retry_succeeds [OF ex_share ex_stored_ok ex_fresh(3)])
     (simp add: by_creator_def ex_defs vault_defs)

section \<open>What a mutation changes\<close>

text \<open>The effect on the target record, by kind of mutation.\<close>

definition target_effect :: "mutation \<Rightarrow> vault_record \<Rightarrow> vault_record \<Rightarrow> bool" where
  "target_effect op r n \<longleftrightarrow>
     (case op of
        Patch _ _ v \<Rightarrow>
          map_of (vr_values n) = map_of (vr_values r) ++ map_of v \<and> \<not> vr_deleted n
          \<and> unat (vr_secret_version n) = unat (vr_secret_version r) + (if changes_credential v then 1 else 0)
          \<and> vr_signup n = (if changes_credential v then SPending else vr_signup r)
      | Delete _ _ \<Rightarrow> vr_deleted n \<and> vr_values n = [] \<and> vr_secret_version n = vr_secret_version r
      | ReportOutcome _ _ state \<Rightarrow>
          vr_signup n = state \<and> vr_values n = vr_values r \<and> vr_secret_version n = vr_secret_version r
      | _ \<Rightarrow> n = r\<lparr>vr_revision := vr_revision n\<rparr>)"

lemma perform_target_effect:
  assumes auth: "authorize app ctx t op now False = Inr ()"
    and target: "mutation_target op = Some (rid, expected)" and wf: "mutation_wf op"
    and perf: "perform app ctx t tid op fresh = (Inr receipt, app')"
  obtains r n where "map_of (app_records app) rid = Some r" "vr_revision r = expected" "\<not> vr_deleted r"
    "map_of (app_records app') = (map_of (app_records app))(rid \<mapsto> n)"
    "unat (vr_revision n) = unat expected + 1" "target_effect op r n"
    "rc_record receipt = rid" "rc_revision receipt = vr_revision n"
proof -
  obtain r where r: "map_of (app_records app) rid = Some r" "\<not> vr_deleted r" "vr_revision r = expected"
      "vr_revision r \<noteq> u64_max"
    by (rule authorize_creation_target [OF auth target])
  have inc: "unat (expected + 1) = unat expected + 1" using r(3,4) by (simp add: unat_inc)
  have upd: "map_of (bt_modify rid f (app_records app)) = (map_of (app_records app))(rid \<mapsto> f r)" for f
    using r(1) by auto
  show ?thesis
    by (rule that [of r "the (map_of (app_records app') rid)"])
       (use perf target wf r inc in
         \<open>cases op; auto simp: upd target_effect_def patch_record_def bump_revision_def Let_def map_of_extend unat_inc
            split: if_splits option.splits\<close>)+
qed

lemma executed_target_effect:
  assumes mut: "mutate ext app ctx tid request op now fresh ent = (Inr receipt, app')"
    and new: "map_of (app_requests app) (RequestKey (ctx_owner ctx) (ctx_principal ctx) tid request) = None"
    and target: "mutation_target op = Some (rid, expected)" and wf: "mutation_wf op"
  shows "\<exists>r n. map_of (app_records app) rid = Some r \<and> vr_revision r = expected \<and> \<not> vr_deleted r
    \<and> map_of (app_records app') = (map_of (app_records app))(rid \<mapsto> n)
    \<and> unat (vr_revision n) = unat expected + 1 \<and> target_effect op r n
    \<and> rc_record receipt = rid \<and> rc_revision receipt = vr_revision n"
  using mut
proof (cases rule: mutate_cases)
  case (executed eff t bytes rc)
  then obtain op' mid where e: "authorize (app\<lparr>app_last_time := Some eff\<rparr>) ctx t op eff False = Inr ()"
      "materialize (app\<lparr>app_last_time := Some eff\<rparr>) op ent = Inr op'"
      "perform (app\<lparr>app_last_time := Some eff\<rparr>) ctx t tid op' fresh = (Inr receipt, mid)"
      "app_records app' = app_records mid"
    by (auto elim!: execute_cases)
  have "op' = op" using e(2) target by (cases op) (auto simp: materialize_def)
  with e(3) have "perform (app\<lparr>app_last_time := Some eff\<rparr>) ctx t tid op fresh = (Inr receipt, mid)" by simp
  then show ?thesis
    by (rule perform_target_effect [OF e(1) target wf]) (use e(4) in auto)
qed (use new in auto)

text \<open>
  C27: A successful mutation of a record is compare-and-swap on its revision: the stored revision was
  the expected one, the new one is exactly one more (with no wrap-around), the receipt names it, the
  target changes as its kind of mutation says and no other record changes.
\<close>

theorem mutation_is_compare_and_swap:
  assumes mut: "mutate ext app ctx tid request op now fresh ent = (Inr receipt, app')"
    and new: "map_of (app_requests app) (RequestKey (ctx_owner ctx) (ctx_principal ctx) tid request) = None"
    and target: "mutation_target op = Some (rid, expected)" and wf: "mutation_wf op"
  shows "\<exists>r n. map_of (app_records app) rid = Some r \<and> vr_revision r = expected \<and> \<not> vr_deleted r
    \<and> map_of (app_records app') = (map_of (app_records app))(rid \<mapsto> n)
    \<and> unat (vr_revision n) = unat expected + 1 \<and> target_effect op r n
    \<and> rc_record receipt = rid \<and> rc_revision receipt = vr_revision n"
  using executed_target_effect [OF assms] .

theorem mutation_is_compare_and_swap_witness:
  "\<exists>r n. map_of (app_records ex_stored) 51 = Some r \<and> vr_revision r = 1
     \<and> map_of (app_records ex_vault) = (map_of (app_records ex_stored))(51 \<mapsto> n) \<and> unat (vr_revision n) = 2"
proof -
  have "map_of (app_requests ex_stored) (RequestKey (ctx_owner ex_agent) (ctx_principal ex_agent) 7 12) = None"
    by (simp add: ex_defs)
  from mutation_is_compare_and_swap [OF ex_share this] show ?thesis by fastforce
qed

section \<open>Who may read what\<close>

text \<open>
  The authority behind an access, stated over the tables as maps: a live task of the caller whose
  scope covers the record, and either the record was created under that task or some live grant
  covers the access.
\<close>

definition live_task :: "application \<Rightarrow> auth_context \<Rightarrow> uuid \<Rightarrow> time \<Rightarrow> task_approval \<Rightarrow> bool" where
  "live_task app ctx tid now t \<longleftrightarrow>
     map_of (app_tasks app) tid = Some t \<and> tk_owner t = ctx_owner ctx \<and> tk_workspace t = ctx_workspace ctx
     \<and> tk_principal t = ctx_principal ctx \<and> now < tk_expires_at t \<and> tid |\<notin>| app_revoked_tasks app
     \<and> (\<forall>d. ctx_session_deadline ctx = Some d \<longrightarrow> now < d)"

definition live_grant :: "application \<Rightarrow> uuid \<Rightarrow> vault_record \<Rightarrow> time \<Rightarrow> grant \<Rightarrow> bool" where
  "live_grant app gid r now g \<longleftrightarrow>
     map_of (app_grants app) gid = Some g \<and> gr_record g = vr_id r \<and> \<not> gr_revoked g
     \<and> now < gs_expires_at (gr_spec g) \<and> gr_issuer_task g |\<notin>| app_revoked_tasks app
     \<and> (\<exists>issuer. map_of (app_tasks app) (gr_issuer_task g) = Some issuer \<and> now < tk_expires_at issuer)
     \<and> gr_version g \<le> vr_secret_version r
     \<and> (gs_follow_active (gr_spec g) \<or> gr_version g = vr_secret_version r)"

definition may_access ::
    "application \<Rightarrow> auth_context \<Rightarrow> task_approval \<Rightarrow> vault_record \<Rightarrow> permission \<Rightarrow> fields
       \<Rightarrow> string option \<Rightarrow> time \<Rightarrow> bool" where
  "may_access app ctx t r perm fs dest now \<longleftrightarrow>
     vr_service r = tk_service t \<and> vr_origin r = tk_origin t \<and> perm \<in> tk_permissions t \<and> fs \<subseteq> tk_fields t
     \<and> (\<forall>d. dest = Some d \<longrightarrow> d |\<in>| tk_destinations t)
     \<and> (vr_created_by r = ctx_principal ctx \<and> vr_task r = tk_id t
        \<or> (\<exists>gid g. live_grant app gid r now g \<and> gs_recipient (gr_spec g) = ctx_principal ctx
             \<and> perm \<in> gs_permissions (gr_spec g) \<and> fs \<subseteq> gs_fields (gr_spec g)
             \<and> (\<forall>d. dest = Some d \<longrightarrow> d |\<in>| gs_destinations (gr_spec g))))"

lemma grant_allows_iff:
  assumes "map_of (app_grants app) gid = Some g"
  shows "grant_allows app ctx r perm fs dest now g \<longleftrightarrow>
    live_grant app gid r now g \<and> gs_recipient (gr_spec g) = ctx_principal ctx
      \<and> perm \<in> gs_permissions (gr_spec g) \<and> fs \<subseteq> gs_fields (gr_spec g)
      \<and> (\<forall>d. dest = Some d \<longrightarrow> d |\<in>| gs_destinations (gr_spec g))"
proof -
  have "(case map_of (app_tasks app) (gr_issuer_task g) of Some issuer \<Rightarrow> now < tk_expires_at issuer | None \<Rightarrow> False)
      \<longleftrightarrow> (\<exists>issuer. map_of (app_tasks app) (gr_issuer_task g) = Some issuer \<and> now < tk_expires_at issuer)"
    by (simp split: option.splits)
  moreover have "(case dest of None \<Rightarrow> True | Some d \<Rightarrow> d |\<in>| gs_destinations (gr_spec g))
      \<longleftrightarrow> (\<forall>d. dest = Some d \<longrightarrow> d |\<in>| gs_destinations (gr_spec g))"
    by (simp split: option.splits)
  moreover have "(if gs_follow_active (gr_spec g) then gr_version g \<le> vr_secret_version r
        else gr_version g = vr_secret_version r) \<longleftrightarrow> gr_version g \<le> vr_secret_version r
     \<and> (gs_follow_active (gr_spec g) \<or> gr_version g = vr_secret_version r)"
    by auto
  ultimately show ?thesis
    unfolding grant_allows_def live_grant_def using assms by argo
qed

lemma can_iff_may_access:
  assumes "bt_wf (app_grants app)"
  shows "can app ctx t r perm fs dest now \<longleftrightarrow> may_access app ctx t r perm fs dest now"
proof -
  have "list_ex (grant_allows app ctx r perm fs dest now) (bt_values (app_grants app)) \<longleftrightarrow>
      (\<exists>gid g. map_of (app_grants app) gid = Some g \<and> grant_allows app ctx r perm fs dest now g)"
    unfolding list_ex_iff set_bt_values Bex_def bt_values_iff [OF assms] by blast
  also have "\<dots> \<longleftrightarrow> (\<exists>gid g. live_grant app gid r now g \<and> gs_recipient (gr_spec g) = ctx_principal ctx
         \<and> perm \<in> gs_permissions (gr_spec g) \<and> fs \<subseteq> gs_fields (gr_spec g)
         \<and> (\<forall>d. dest = Some d \<longrightarrow> d |\<in>| gs_destinations (gr_spec g)))"
    by (metis grant_allows_iff live_grant_def)
  finally show ?thesis
    by (auto simp: can_def may_access_def split: option.splits)
qed

lemma restrict_input_iff:
  assumes "bt_wf v" shows "w = restrict_input v fs \<longleftrightarrow> bt_wf w \<and> map_of w = map_of v |` fs"
proof -
  have 1: "restrict_input v fs = bt_retain (\<lambda>f _. f \<in> fs) v"
    by (simp add: restrict_input_def bt_retain_def)
  have "map_of (restrict_input v fs) = map_of v |` fs"
    using map_of_bt_retain [OF assms] by (auto simp: 1 restrict_map_def fun_eq_iff split: option.splits)
  moreover have "bt_wf (restrict_input v fs)" using assms by (simp add: 1)
  ultimately show ?thesis by (auto intro: bt.ext)
qed

lemma select_Inr_iff:
  assumes ok: "vault_ok app"
  shows "select app ctx tid rid fs perm dest now = Inr v \<longleftrightarrow>
    fs \<noteq> {} \<and> (perm = MetadataRead \<longrightarrow> Password \<notin> fs \<and> ApiKey \<notin> fs)
    \<and> (\<exists>t r. live_task app ctx tid now t \<and> map_of (app_records app) rid = Some r \<and> \<not> vr_deleted r
         \<and> vr_owner r = ctx_owner ctx \<and> vr_workspace r = ctx_workspace ctx
         \<and> may_access app ctx t r perm fs dest now
         \<and> fs \<subseteq> dom (map_of (vr_values r)) \<and> bt_wf v \<and> map_of v = map_of (vr_values r) |` fs)"
proof -
  have grants: "bt_wf (app_grants app)" using vault_tables [OF ok] by (simp add: tables_ok_def)
  have task: "task_of app ctx tid now = Inr t \<longleftrightarrow> live_task app ctx tid now t" for t
    by (auto simp: task_of_Inr live_task_def)
  have rec: "record_of app ctx rid = Inr r \<longleftrightarrow> map_of (app_records app) rid = Some r \<and> \<not> vr_deleted r
      \<and> vr_owner r = ctx_owner ctx \<and> vr_workspace r = ctx_workspace ctx" for r
    by (auto simp: record_of_def split: option.splits)
  have res: "v = restrict_input (vr_values r) fs \<longleftrightarrow> bt_wf v \<and> map_of v = map_of (vr_values r) |` fs"
    if "map_of (app_records app) rid = Some r" "\<not> vr_deleted r" for r
    using vault_record [OF ok that(1)] that(2)
    by (intro restrict_input_iff) (simp add: record_ok_def record_values_ok_def)
  have "select app ctx tid rid fs perm dest now = Inr v \<longleftrightarrow>
    fs \<noteq> {} \<and> (perm = MetadataRead \<longrightarrow> Password \<notin> fs \<and> ApiKey \<notin> fs)
    \<and> (\<exists>t r. task_of app ctx tid now = Inr t \<and> record_of app ctx rid = Inr r
         \<and> can app ctx t r perm fs dest now \<and> fs \<subseteq> dom (map_of (vr_values r))
         \<and> v = restrict_input (vr_values r) fs)"
    by (auto simp: select_def secret_def bt_contains_def split: sum.splits)
  then show ?thesis using res unfolding task rec can_iff_may_access [OF grants] by blast
qed

text \<open>
  C2: The access check is exactly the authority specification: a read of fields succeeds if and only
  if fields are named, metadata reads name no secret field, the caller has a live task and the
  authority above over a live record that holds every named field, and the result is the stored
  values restricted to the named fields, no more and no less.
\<close>

theorem select_exact:
  assumes ok: "vault_ok app"
  shows "select app ctx tid rid fs perm dest now = Inr v \<longleftrightarrow>
    fs \<noteq> {} \<and> (perm = MetadataRead \<longrightarrow> Password \<notin> fs \<and> ApiKey \<notin> fs)
    \<and> (\<exists>t r. live_task app ctx tid now t \<and> map_of (app_records app) rid = Some r \<and> \<not> vr_deleted r
         \<and> vr_owner r = ctx_owner ctx \<and> vr_workspace r = ctx_workspace ctx
         \<and> may_access app ctx t r perm fs dest now
         \<and> fs \<subseteq> dom (map_of (vr_values r)) \<and> bt_wf v \<and> map_of v = map_of (vr_values r) |` fs)"
  using select_Inr_iff [OF ok] .

theorem select_exact_witness:
  "select ex_vault ex_peer 8 51 {Password} SecretRead None 103 = Inr [(Password, ''pw'')]
   \<and> (\<exists>t. live_task ex_vault ex_peer 8 103 t)"
proof -
  have sel: "select ex_vault ex_peer 8 51 {Password} SecretRead None 103 = Inr [(Password, ''pw'')]"
    by (simp add: ex_defs vault_defs)
  then show ?thesis using select_exact [OF ex_vault_ok, of ex_peer 8 51 "{Password}" SecretRead None 103] by blast
qed

end
