(* ===== verification/Codec.thy ===== *)
theory Codec
  imports Prelude
begin

text \<open>
  Fixed-width big-endian fields and the sequential reader of the image formats. The locale
  \<open>fixed_field\<close> is what the formats rely on from a field codec; it is interpreted for the 32-bit and
  the 64-bit fields.
\<close>

section \<open>Big-endian integers\<close>

definition be_digits :: "nat \<Rightarrow> nat \<Rightarrow> u8 list" where
  "be_digits n v = map (\<lambda>i. word_of_nat (v div 256 ^ i)) (rev [0..<n])"

definition be_value :: "u8 list \<Rightarrow> nat" where
  "be_value bs = foldl (\<lambda>acc b. acc * 256 + unat b) 0 bs"

lemma length_be_digits [simp]: "length (be_digits n v) = n"
  by (simp add: be_digits_def)

lemma be_digits_Suc: "be_digits (Suc n) v = word_of_nat (v div 256 ^ n) # be_digits n v"
  by (simp add: be_digits_def)

lemma foldl_be: "foldl (\<lambda>acc b. acc * 256 + unat b) a bs = a * 256 ^ length bs + be_value bs"
proof (induction bs arbitrary: a)
  case (Cons b bs)
  from Cons [of "a * 256 + unat b"] Cons [of "unat b"] show ?case
    by (simp add: be_value_def algebra_simps)
qed (simp add: be_value_def)

lemma be_value_Cons: "be_value (b # bs) = unat b * 256 ^ length bs + be_value bs"
  using foldl_be [of "unat b" bs] by (simp add: be_value_def)

lemma be_value_digits: "be_value (be_digits n v) = v mod 256 ^ n"
proof (induction n)
  case 0
  then show ?case by (simp add: be_digits_def be_value_def)
next
  case (Suc n)
  have "v mod 256 ^ Suc n = (v div 256 ^ n mod 256) * 256 ^ n + v mod 256 ^ n"
    using mod_mult2_eq [of v "256 ^ n" 256] by (simp add: mult.commute)
  then show ?case
    using Suc by (simp add: be_digits_Suc be_value_Cons unat_of_nat)
qed

lemma be_value_less: "be_value bs < 256 ^ length bs"
proof (induction bs)
  case (Cons b bs)
  have "unat b < 256" using unsigned_less [of b] by simp
  then have "(unat b + 1) * 256 ^ length bs \<le> 256 * 256 ^ length bs" by (intro mult_le_mono1) simp
  moreover have "unat b * 256 ^ length bs + be_value bs < (unat b + 1) * 256 ^ length bs"
    using Cons by (simp add: algebra_simps)
  ultimately have "unat b * 256 ^ length bs + be_value bs < 256 * 256 ^ length bs"
    by (rule order.strict_trans2 [rotated])
  then show ?case by (simp add: be_value_Cons)
qed (simp add: be_value_def)

definition to_be32 :: "32 word \<Rightarrow> u8 list" where "to_be32 w = be_digits 4 (unat w)"
definition from_be32 :: "u8 list \<Rightarrow> 32 word" where "from_be32 bs = word_of_nat (be_value bs)"
definition to_be64 :: "u64 \<Rightarrow> u8 list" where "to_be64 w = be_digits 8 (unat w)"
definition from_be64 :: "u8 list \<Rightarrow> u64" where "from_be64 bs = word_of_nat (be_value bs)"

section \<open>Reading\<close>

text \<open>\<^verbatim>\<open>read_exact\<close> of an array of \<open>n\<close> bytes.\<close>

definition read_array :: "nat \<Rightarrow> u8 list \<Rightarrow> (u8 list \<times> u8 list) option" where
  "read_array n bs = (if length bs < n then None else Some (take n bs, drop n bs))"

lemma read_array_append [simp]: "length a = n \<Longrightarrow> read_array n (a @ b) = Some (a, b)"
  by (simp add: read_array_def)

lemma read_array_Some: "read_array n bs = Some (a, b) \<longleftrightarrow> bs = a @ b \<and> length a = n"
  by (auto simp: read_array_def)

locale fixed_field =
  fixes enc :: "'a \<Rightarrow> u8 list" and dec :: "u8 list \<Rightarrow> 'a" and width :: nat
  assumes length_enc: "length (enc x) = width"
    and dec_enc: "dec (enc x) = x"
    and enc_dec: "length bs = width \<Longrightarrow> enc (dec bs) = bs"
begin

lemma read_field: "read_array width (enc x @ rest) = Some (enc x, rest)"
  by (simp add: length_enc)

lemma enc_inject: "enc x @ a = enc y @ b \<longleftrightarrow> x = y \<and> a = b"
proof -
  have "enc x @ a = enc y @ b \<longleftrightarrow> enc x = enc y \<and> a = b"
    by (intro append_eq_append_conv) (simp add: length_enc)
  moreover have "enc x = enc y \<longleftrightarrow> x = y" by (metis dec_enc)
  ultimately show ?thesis by simp
qed

end

lemma be_value_inject:
  "length as = length bs \<Longrightarrow> be_value as = be_value bs \<Longrightarrow> as = bs"
proof (induction as bs rule: list_induct2)
  case (Cons a as b bs)
  let ?p = "256 ^ length bs :: nat"
  have eq: "unat a * ?p + be_value as = unat b * ?p + be_value bs"
    using Cons.prems Cons.hyps by (simp add: be_value_Cons)
  have less: "be_value as < ?p" "be_value bs < ?p"
    using be_value_less [of as] be_value_less [of bs] Cons.hyps by simp_all
  have "unat a = unat b"
    using arg_cong [OF eq, of "\<lambda>x. x div ?p"] less by simp
  moreover from this have "be_value as = be_value bs" using eq by simp
  ultimately show ?case using Cons.IH by (simp add: word_unat_eq_iff)
qed simp

lemma be_digits_value: "length bs = n \<Longrightarrow> be_digits n (be_value bs) = bs"
  using be_value_less [of bs] by (intro be_value_inject) (simp_all add: be_value_digits)

lemma unat_mod_size: "unat w mod 2 ^ LENGTH('a) = unat w" for w :: "'a::len word"
  using unsigned_less [of w, where 'a = nat] by simp

interpretation be32: fixed_field to_be32 from_be32 4
proof
  fix w :: "32 word" and bs :: "u8 list"
  show "length (to_be32 w) = 4" by (simp add: to_be32_def)
  show "from_be32 (to_be32 w) = w"
    using unat_mod_size [of w] by (simp add: to_be32_def from_be32_def be_value_digits)
  assume "length bs = 4"
  then show "to_be32 (from_be32 bs) = bs"
    using be_value_less [of bs] be_digits_value [of bs 4]
    by (simp add: to_be32_def from_be32_def unat_of_nat)
qed

interpretation be64: fixed_field to_be64 from_be64 8
proof
  fix w :: u64 and bs :: "u8 list"
  show "length (to_be64 w) = 8" by (simp add: to_be64_def)
  show "from_be64 (to_be64 w) = w"
    using unat_mod_size [of w] by (simp add: to_be64_def from_be64_def be_value_digits)
  assume "length bs = 8"
  then show "to_be64 (from_be64 bs) = bs"
    using be_value_less [of bs] be_digits_value [of bs 8]
    by (simp add: to_be64_def from_be64_def unat_of_nat)
qed

end
