(* ===== verification/Crypto.thy ===== *)
theory Crypto
  imports Codec
begin

text \<open>
  Key derivation parameters and the crypto entry points (\<^verbatim>\<open>src/src/crypto.rs\<close>). Argon2, AES-GCM and
  the BIP39 word list are other crates: their functions are the record \<open>primitives\<close>, an argument of
  what uses them. The model has what the repository adds: the bounds on parameters read from a
  header, the word count of a seed phrase, its normalisation before derivation and the nonce length
  check. Seed phrases are ASCII.
\<close>

definition salt_len :: nat where "salt_len = 16"
definition nonce_len :: nat where "nonce_len = 12"
definition key_len :: nat where "key_len = 32"

record kdf_params =
  kd_m_kib :: "32 word"
  kd_t_cost :: "32 word"
  kd_p_cost :: "32 word"

datatype crypto_error = InvalidMnemonic | Kdf | UnsupportedParams | Encrypt | Decrypt | BadNonce

text \<open>
  The functions of other crates: \<^verbatim>\<open>argon2::Params::new\<close> succeeding, \<^verbatim>\<open>hash_password_into\<close>, the word
  count of \<^verbatim>\<open>Mnemonic::parse_in_normalized\<close> and the AES-256-GCM operations.
\<close>

record primitives =
  cr_params_ok :: "kdf_params \<Rightarrow> bool"
  cr_argon2 :: "kdf_params \<Rightarrow> string \<Rightarrow> u8 list \<Rightarrow> u8 list option"
  cr_word_count :: "string \<Rightarrow> nat option"
  cr_aead_encrypt :: "u8 list \<Rightarrow> u8 list \<Rightarrow> u8 list \<Rightarrow> u8 list \<Rightarrow> u8 list option"
  cr_aead_decrypt :: "u8 list \<Rightarrow> u8 list \<Rightarrow> u8 list \<Rightarrow> u8 list \<Rightarrow> u8 list option"

definition kdf_current :: kdf_params where
  "kdf_current = \<lparr>kd_m_kib = 64 * 1024, kd_t_cost = 3, kd_p_cost = 1\<rparr>"

text \<open>\<^verbatim>\<open>u32::saturating_mul\<close> by 8.\<close>

definition sat_mul8 :: "32 word \<Rightarrow> 32 word" where
  "sat_mul8 w = (if unat w * 8 < 2 ^ 32 then w * 8 else - 1)"

definition validated ::
    "primitives \<Rightarrow> 32 word \<Rightarrow> 32 word \<Rightarrow> 32 word \<Rightarrow> crypto_error + kdf_params" where
  "validated cr m_kib t_cost p_cost =
     (if \<not> (19 * 1024 \<le> m_kib \<and> m_kib \<le> 1024 * 1024) \<or> \<not> (1 \<le> t_cost \<and> t_cost \<le> 100)
         \<or> \<not> (1 \<le> p_cost \<and> p_cost \<le> 16) \<or> m_kib < sat_mul8 p_cost
      then Inl UnsupportedParams
      else let p = \<lparr>kd_m_kib = m_kib, kd_t_cost = t_cost, kd_p_cost = p_cost\<rparr>
           in if cr_params_ok cr p then Inr p else Inl UnsupportedParams)"

section \<open>Seed phrases\<close>

definition validate_mnemonic :: "primitives \<Rightarrow> string \<Rightarrow> crypto_error + unit" where
  "validate_mnemonic cr phrase =
     (case cr_word_count cr phrase of
        None \<Rightarrow> Inl InvalidMnemonic
      | Some n \<Rightarrow> if n \<noteq> 12 then Inl InvalidMnemonic else Inr ())"

definition whitespace :: "char \<Rightarrow> bool" where
  "whitespace c \<longleftrightarrow> c \<in> {CHR '' '', CHR 0x09, CHR 0x0A, CHR 0x0B, CHR 0x0C, CHR 0x0D}"

fun split_whitespace :: "string \<Rightarrow> string \<Rightarrow> string list" where
  "split_whitespace word [] = (if word = [] then [] else [word])"
| "split_whitespace word (c # cs) =
     (if whitespace c then (if word = [] then [] else [word]) @ split_whitespace [] cs
      else split_whitespace (word @ [c]) cs)"

fun join_space :: "string list \<Rightarrow> string" where
  "join_space [] = []"
| "join_space [w] = w"
| "join_space (w # ws) = w @ CHR '' '' # join_space ws"

definition normalize_mnemonic :: "string \<Rightarrow> string" where
  "normalize_mnemonic phrase = join_space (split_whitespace [] phrase)"

section \<open>Keys and encryption\<close>

definition derive_key_from_secret ::
    "primitives \<Rightarrow> string \<Rightarrow> u8 list \<Rightarrow> kdf_params \<Rightarrow> crypto_error + u8 list" where
  "derive_key_from_secret cr secret salt p =
     (if \<not> cr_params_ok cr p then Inl UnsupportedParams
      else case cr_argon2 cr p secret salt of None \<Rightarrow> Inl Kdf | Some key \<Rightarrow> Inr key)"

definition derive_key ::
    "primitives \<Rightarrow> string \<Rightarrow> u8 list \<Rightarrow> kdf_params \<Rightarrow> crypto_error + u8 list" where
  "derive_key cr mnemonic salt p =
     (case validate_mnemonic cr mnemonic of
        Inl e \<Rightarrow> Inl e
      | Inr _ \<Rightarrow> derive_key_from_secret cr (normalize_mnemonic mnemonic) salt p)"

definition encrypt ::
    "primitives \<Rightarrow> u8 list \<Rightarrow> u8 list \<Rightarrow> u8 list \<Rightarrow> u8 list \<Rightarrow> crypto_error + u8 list" where
  "encrypt cr key nonce plaintext aad =
     (case cr_aead_encrypt cr key nonce plaintext aad of None \<Rightarrow> Inl Encrypt | Some c \<Rightarrow> Inr c)"

definition decrypt ::
    "primitives \<Rightarrow> u8 list \<Rightarrow> u8 list \<Rightarrow> u8 list \<Rightarrow> u8 list \<Rightarrow> crypto_error + u8 list" where
  "decrypt cr key nonce ciphertext aad =
     (if length nonce \<noteq> nonce_len then Inl BadNonce
      else case cr_aead_decrypt cr key nonce ciphertext aad of None \<Rightarrow> Inl Decrypt | Some p \<Rightarrow> Inr p)"

text \<open>What the code relies on from AES-GCM: decryption inverts encryption.\<close>

definition aead_correct :: "primitives \<Rightarrow> bool" where
  "aead_correct cr \<longleftrightarrow>
     (\<forall>key nonce p aad c. cr_aead_encrypt cr key nonce p aad = Some c \<longrightarrow> cr_aead_decrypt cr key nonce c aad = Some p)"

section \<open>Facts\<close>

lemma validated_bounds:
  assumes "validated cr m t p = Inr k"
  shows "k = \<lparr>kd_m_kib = m, kd_t_cost = t, kd_p_cost = p\<rparr> \<and> cr_params_ok cr k
    \<and> 19456 \<le> unat m \<and> unat m \<le> 1048576 \<and> 1 \<le> unat t \<and> unat t \<le> 100 \<and> 1 \<le> unat p \<and> unat p \<le> 16
    \<and> 8 * unat p \<le> unat m"
proof -
  have b: "19 * 1024 \<le> m" "m \<le> 1024 * 1024" "1 \<le> t" "t \<le> 100" "1 \<le> p" "p \<le> 16"
    and k: "k = \<lparr>kd_m_kib = m, kd_t_cost = t, kd_p_cost = p\<rparr>" "cr_params_ok cr k"
    using assms by (auto simp: validated_def Let_def split: if_splits)
  have "unat m \<ge> 19456" "unat m \<le> 1048576" "unat t \<ge> 1" "unat t \<le> 100" "unat p \<ge> 1" "unat p \<le> 16"
    using b by (simp_all add: word_le_nat_alt)
  then show ?thesis using k by simp
qed

definition word_ok :: "string \<Rightarrow> bool" where
  "word_ok w \<longleftrightarrow> list_all (\<lambda>c. \<not> whitespace c) w"

lemma split_whitespace_words:
  "word_ok w \<Longrightarrow> list_all (\<lambda>x. x \<noteq> [] \<and> word_ok x) (split_whitespace w cs)"
proof (induction cs arbitrary: w)
  case (Cons c cs)
  then show ?case
    using Cons.IH [of "[]"] Cons.IH [of "w @ [c]"] by (cases "whitespace c") (simp_all add: word_ok_def)
qed (simp add: word_ok_def)

lemma split_word: "word_ok x \<Longrightarrow> split_whitespace w (x @ cs) = split_whitespace (w @ x) cs"
  by (induction x arbitrary: w) (simp_all add: word_ok_def)

lemma split_join:
  "list_all (\<lambda>x. x \<noteq> [] \<and> word_ok x) ws \<Longrightarrow> split_whitespace [] (join_space ws) = ws"
proof (induction ws rule: join_space.induct)
  case (2 w)
  then show ?case using split_word [of w "[]" "[]"] by simp
next
  case (3 w v ws)
  then show ?case using split_word [of w "[]" "CHR '' '' # join_space (v # ws)"] by (simp add: whitespace_def)
qed simp

lemma normalize_split: "split_whitespace [] (normalize_mnemonic s) = split_whitespace [] s"
  unfolding normalize_mnemonic_def
  by (rule split_join) (rule split_whitespace_words, simp add: word_ok_def)

end
