(* ===== verification/Snapshot.thy ===== *)
theory Snapshot
  imports Policy "HOL-Library.Monad_Syntax"
begin

text \<open>
  The snapshot codec and its validation (\<^verbatim>\<open>src/src/agent/snapshot.rs\<close>): what may be published and
  what is accepted from disk, and the compaction of history outside the retry window. Every failed
  check returns the same error, so a loop of checks is a conjunction over its list, and a loop that
  collects sets is a recursion that carries them. The JSON codec of the snapshot comes from another
  crate and is the parameter \<open>json_codec\<close>.
\<close>

section \<open>The stored image\<close>

record snapshot =
  sn_schema :: "32 word"
  sn_generation :: u64
  sn_tasks :: "task_approval list"
  sn_records :: "vault_record list"
  sn_grants :: "(uuid \<times> grant) list"
  sn_requests :: "(request_key \<times> remembered) list"
  sn_revoked_tasks :: "uuid list"
  sn_deliveries :: "(uuid \<times> delivery_attempt) list"
  sn_audit :: "audit_event list"
  sn_last_time :: "time option"
  sn_clock_frozen :: bool
  sn_baselines :: "(uuid \<times> record_baseline) list"
  sn_predecessor :: "digest option"

record json_codec =
  js_encode :: "snapshot \<Rightarrow> u8 list option"
  js_decode :: "u8 list \<Rightarrow> snapshot option"

definition max_plaintext :: nat where "max_plaintext = 16 * 1024 * 1024"
definition limit :: nat where "limit = 10000"
definition compact_at :: nat where "compact_at = 8000"
definition retry_window :: time where "retry_window = 24 * 60 * 60"

section \<open>Validation\<close>

definition same_scope :: "task_approval \<Rightarrow> vault_record \<Rightarrow> bool" where
  "same_scope t r \<longleftrightarrow> tk_owner t = vr_owner r \<and> tk_workspace t = vr_workspace r
     \<and> tk_origin t = vr_origin r \<and> tk_service t = vr_service r"

definition within_limits :: "application \<Rightarrow> bool" where
  "within_limits app \<longleftrightarrow> list_all (\<lambda>n. n \<le> limit)
     [length (app_tasks app), length (app_records app), length (app_grants app), length (app_requests app),
      fcard (app_revoked_tasks app), length (app_deliveries app), length (app_audit app),
      length (app_baselines app)]"

fun validate_tasks :: "application \<Rightarrow> (uuid \<times> task_approval) list \<Rightarrow> bool" where
  "validate_tasks checker [] = True"
| "validate_tasks checker ((tid, t) # ts) =
     (tid \<noteq> nil_uuid \<and> tid = tk_id t \<and> tk_workspace t \<noteq> []
      \<and> (let admin = from_authenticated_admin (tk_owner t) ''snapshot-validation'' (tk_workspace t)
         in case approve_task checker admin t time_min of
              (Inl _, _) \<Rightarrow> False
            | (Inr _, checker') \<Rightarrow> validate_tasks checker' ts))"

definition validate_record :: "application \<Rightarrow> uuid \<Rightarrow> vault_record \<Rightarrow> bool" where
  "validate_record app rid r =
     (case map_of (app_tasks app) (vr_task r) of
        None \<Rightarrow> False
      | Some t \<Rightarrow>
          rid \<noteq> nil_uuid \<and> rid = vr_id r \<and> same_scope t r \<and> tk_principal t = vr_created_by r
          \<and> 0 < vr_revision r \<and> 0 < vr_secret_version r \<and> vr_secret_version r \<le> vr_revision r
          \<and> SecretWrite \<in> tk_permissions t
          \<and> (if vr_deleted r then vr_values r = []
             else input_valid (vr_values r) \<and> input_fields (vr_values r) \<subseteq> tk_fields t
               \<and> (vr_kind r = KLogin \<and> bt_contains (vr_values r) Password \<and> \<not> bt_contains (vr_values r) ApiKey
                  \<or> vr_kind r = KApiKey \<and> bt_contains (vr_values r) ApiKey
                    \<and> \<not> bt_contains (vr_values r) Password)))"

definition validate_agent_grant :: "task_approval \<Rightarrow> vault_record \<Rightarrow> grant_spec \<Rightarrow> bool" where
  "validate_agent_grant t r s =
     (case tk_share t of
        None \<Rightarrow> False
      | Some b \<Rightarrow>
          tk_principal t = vr_created_by r \<and> tk_id t = vr_task r \<and> AccessGrant \<in> tk_permissions t
          \<and> (\<not> gs_follow_active s \<or> sb_allow_follow_active b)
          \<and> gs_recipient s |\<in>| sb_recipients b \<and> gs_fields s \<subseteq> sb_fields b
          \<and> gs_permissions s \<subseteq> sb_permissions b \<and> gs_destinations s |\<subseteq>| sb_destinations b
          \<and> gs_expires_at s \<le> sb_expires_at b)"

definition validate_grant :: "application \<Rightarrow> uuid \<Rightarrow> grant \<Rightarrow> bool" where
  "validate_grant app gid g =
     (case (map_of (app_records app) (gr_record g), map_of (app_tasks app) (gr_issuer_task g)) of
        (Some r, Some t) \<Rightarrow>
          let s = gr_spec g in
          gid \<noteq> nil_uuid \<and> same_scope t r \<and> 0 < gr_version g \<and> gr_version g \<le> vr_secret_version r
          \<and> (\<not> vr_deleted r \<or> gr_revoked g) \<and> gs_fields s \<noteq> {}
          \<and> gs_permissions s \<noteq> {} \<and> AccessGrant \<notin> gs_permissions s
          \<and> gs_recipient s \<noteq> [] \<and> length (gs_recipient s) \<le> 2048
          \<and> gs_fields s \<subseteq> tk_fields t \<and> gs_permissions s \<subseteq> tk_permissions t
          \<and> gs_destinations s |\<subseteq>| tk_destinations t
          \<and> time_min < gs_expires_at s \<and> gs_expires_at s \<le> tk_expires_at t
          \<and> (SecretUse \<notin> gs_permissions s \<or> gs_destinations s \<noteq> {||})
          \<and> (vr_deleted r \<or> gs_fields s \<subseteq> input_fields (vr_values r))
          \<and> (gr_admin_issued g \<or> validate_agent_grant t r s)
      | _ \<Rightarrow> False)"

text \<open>
  The sets collected from the cached requests; a \<^verbatim>\<open>BTreeSet\<close> is its increasing list. \<open>note_revision\<close>
  is \<^verbatim>\<open>entry(id).or_default().insert(revision)\<close>.
\<close>

record history =
  hs_revisions :: "(uuid, u64 list) btmap"
  hs_creates :: "uuid list"
  hs_shares :: "uuid list"
  hs_deletes :: "uuid list"
  hs_patches :: "(uuid, u64 list) btmap"

definition entry_or_default :: "(uuid, u64 list) btmap \<Rightarrow> uuid \<Rightarrow> u64 list" where
  "entry_or_default m k = (case map_of m k of None \<Rightarrow> [] | Some xs \<Rightarrow> xs)"

definition note_revision :: "uuid \<Rightarrow> u64 \<Rightarrow> (uuid, u64 list) btmap \<Rightarrow> (uuid, u64 list) btmap" where
  "note_revision k n m = bt_insert k (insort_insert n (entry_or_default m k)) m"

definition baseline_through :: "application \<Rightarrow> uuid \<Rightarrow> u64" where
  "baseline_through app rid =
     (case map_of (app_baselines app) rid of None \<Rightarrow> 0 | Some base \<Rightarrow> rb_through base)"

text \<open>The checks of one cached request by its kind; the collected sets on success.\<close>

definition validate_kind ::
    "application \<Rightarrow> request_key \<Rightarrow> remembered \<Rightarrow> vault_record \<Rightarrow> history \<Rightarrow> history option" where
  "validate_kind app key m r h =
     (let result = rm_result m in
      case rm_kind m of
        CkCreate \<Rightarrow>
          if vr_task r = rk_task key \<and> vr_created_by r = rk_principal key \<and> rc_revision result = 1
             \<and> rc_grant result = None \<and> vr_id r \<notin> set (hs_creates h)
          then Some (h\<lparr>hs_creates := insort_insert (vr_id r) (hs_creates h)\<rparr>) else None
      | CkShare \<Rightarrow>
          (case rc_grant result of
             None \<Rightarrow> None
           | Some gid \<Rightarrow>
               (case map_of (app_grants app) gid of
                  None \<Rightarrow> None
                | Some g \<Rightarrow>
                    if gr_record g = vr_id r \<and> gr_issuer_task g = rk_task key \<and> gid \<notin> set (hs_shares h)
                    then Some (h\<lparr>hs_shares := insort_insert gid (hs_shares h)\<rparr>) else None))
      | CkRevoke \<Rightarrow>
          (case rc_grant result of
             None \<Rightarrow> None
           | Some gid \<Rightarrow>
               (case map_of (app_grants app) gid of
                  None \<Rightarrow> None
                | Some g \<Rightarrow> if gr_record g = vr_id r \<and> gr_revoked g then Some h else None))
      | CkDelete \<Rightarrow>
          if vr_deleted r \<and> rc_grant result = None
          then Some (h\<lparr>hs_deletes := insort_insert (vr_id r) (hs_deletes h)\<rparr>) else None
      | CkPatch \<Rightarrow>
          if rc_grant result = None
          then Some (h\<lparr>hs_patches := note_revision (vr_id r) (rc_revision result) (hs_patches h)\<rparr>) else None
      | CkMetadataPatch \<Rightarrow> if rc_grant result = None then Some h else None
      | CkReportOutcome \<Rightarrow> if rc_grant result = None then Some h else None)"

fun validate_requests ::
    "application \<Rightarrow> (request_key \<times> remembered) list \<Rightarrow> history \<Rightarrow> history option" where
  "validate_requests app [] h = Some h"
| "validate_requests app ((key, m) # ms) h =
     (case (map_of (app_tasks app) (rk_task key), map_of (app_records app) (rc_record (rm_result m))) of
        (Some t, Some r) \<Rightarrow>
          if rk_id key \<noteq> nil_uuid \<and> rk_owner key = tk_owner t \<and> rk_principal key = tk_principal t
             \<and> same_scope t r \<and> baseline_through app (vr_id r) < rc_revision (rm_result m)
             \<and> rc_revision (rm_result m) \<le> vr_revision r
             \<and> rc_revision (rm_result m) \<notin> set (entry_or_default (hs_revisions h) (vr_id r))
          then (case validate_kind app key m r
                       (h\<lparr>hs_revisions := note_revision (vr_id r) (rc_revision (rm_result m)) (hs_revisions h)\<rparr>) of
                  None \<Rightarrow> None
                | Some h' \<Rightarrow> validate_requests app ms h')
          else None
      | _ \<Rightarrow> None)"

definition empty_history :: history where
  "empty_history = \<lparr>hs_revisions = [], hs_creates = [], hs_shares = [], hs_deletes = [], hs_patches = []\<rparr>"

fun validate_pruned :: "application \<Rightarrow> uuid \<Rightarrow> uuid list \<Rightarrow> uuid list \<Rightarrow> uuid list option" where
  "validate_pruned app rid [] acc = Some acc"
| "validate_pruned app rid (gid # gids) acc =
     (case map_of (app_grants app) gid of
        None \<Rightarrow> None
      | Some g \<Rightarrow>
          if gr_record g = rid \<and> gid \<notin> set acc
             \<and> \<not> list_ex (\<lambda>m. rm_kind m = CkShare \<and> rc_grant (rm_result m) = Some gid) (bt_values (app_requests app))
          then validate_pruned app rid gids (insort_insert gid acc) else None)"

fun increasing :: "uuid list \<Rightarrow> bool" where
  "increasing (x # y # zs) = (x < y \<and> increasing (y # zs))"
| "increasing _ = True"

fun validate_baselines ::
    "application \<Rightarrow> (uuid \<times> record_baseline) list \<Rightarrow> uuid list \<Rightarrow> uuid list option" where
  "validate_baselines app [] acc = Some acc"
| "validate_baselines app ((rid, base) # bs) acc =
     (case map_of (app_records app) rid of
        None \<Rightarrow> None
      | Some r \<Rightarrow>
          if rb_through base \<le> vr_revision r
             \<and> (0 < rb_through base
                \<or> rb_secret_version base = 0 \<and> \<not> rb_delete_pruned base \<and> rb_pruned_grants base = [])
             \<and> (rb_through base = 0 \<or> 1 \<le> rb_secret_version base)
             \<and> increasing (rb_pruned_grants base)
             \<and> (\<not> rb_verified_login base \<or> vr_signup r = SVerifiedLogin)
          then (case validate_pruned app rid (rb_pruned_grants base) acc of
                  None \<Rightarrow> None
                | Some acc' \<Rightarrow> validate_baselines app bs acc')
          else None)"

text \<open>\<^verbatim>\<open>start..=end\<close> as a list.\<close>

definition revision_range :: "u64 \<Rightarrow> u64 \<Rightarrow> u64 list" where
  "revision_range a b = map word_of_nat [unat a..<Suc (unat b)]"

definition validate_history :: "application \<Rightarrow> history \<Rightarrow> uuid \<Rightarrow> vault_record \<Rightarrow> bool" where
  "validate_history app h rid r =
     (let base = map_of (app_baselines app) rid;
          through = baseline_through app rid;
          versions = map_of (hs_revisions h) rid;
          patch_count = word_of_nat (length (entry_or_default (hs_patches h) rid)) :: u64;
          delete_pruned = (case base of None \<Rightarrow> False | Some b \<Rightarrow> rb_delete_pruned b) in
      (if vr_deleted r
       then (if through = 0 then rid \<in> set (hs_deletes h)
             else delete_pruned \<noteq> (rid \<in> set (hs_deletes h)))
       else rid \<notin> set (hs_deletes h) \<and> \<not> delete_pruned)
      \<and> (if through = vr_revision r
         then 0 < through \<and> versions = None \<and> rid \<notin> set (hs_creates h)
           \<and> (case base of None \<Rightarrow> False | Some b \<Rightarrow> rb_secret_version b = vr_secret_version r)
         else (case versions of
                 None \<Rightarrow> False
               | Some vs \<Rightarrow>
                   let start = through + 1 in
                   word_of_nat (length vs) = vr_revision r - through \<and> vs \<noteq> [] \<and> hd vs = start
                   \<and> last vs = vr_revision r \<and> vs = revision_range start (vr_revision r)
                   \<and> (if through = 0
                      then rid \<in> set (hs_creates h) \<and> vr_secret_version r = 1 + patch_count
                      else rid \<notin> set (hs_creates h)
                        \<and> (case base of None \<Rightarrow> False
                           | Some b \<Rightarrow> vr_secret_version r = rb_secret_version b + patch_count)))))"

text \<open>
  Deliveries: the keys and the registered records seen so far are carried along. The fingerprint is
  recomputed from the stored fields.
\<close>

definition delivery_use :: "delivery_attempt \<Rightarrow> private_use" where
  "delivery_use d = \<lparr>pu_request = rk_id (da_key d), pu_record = da_record d, pu_fields = da_fields d,
     pu_destination = da_destination d, pu_action = da_action d\<rparr>"

definition validate_delivery ::
    "externals \<Rightarrow> application \<Rightarrow> uuid \<Rightarrow> delivery_attempt \<Rightarrow> request_key list \<Rightarrow> uuid list \<Rightarrow> bool" where
  "validate_delivery ext app did d keys registrations =
     (case (map_of (app_tasks app) (da_task d), map_of (app_records app) (da_record d)) of
        (Some t, Some r) \<Rightarrow>
          did \<noteq> nil_uuid \<and> same_scope t r \<and> 0 < da_version d \<and> da_version d \<le> vr_secret_version r
          \<and> da_fields d \<noteq> {} \<and> da_fields d \<subseteq> tk_fields t
          \<and> SecretUse \<in> tk_permissions t \<and> da_destination d |\<in>| tk_destinations t
          \<and> rk_task (da_key d) = da_task d \<and> rk_owner (da_key d) = tk_owner t
          \<and> rk_principal (da_key d) = tk_principal t
          \<and> rk_id (da_key d) \<noteq> nil_uuid \<and> \<not> bt_contains (app_requests app) (da_key d) \<and> da_key d \<notin> set keys
          \<and> (da_dispatched d \<or> da_status d = Some DRejected)
          \<and> (case ex_use_json ext (delivery_use d) of
               None \<Rightarrow> False | Some bytes \<Rightarrow> da_fingerprint d = ex_sha256 ext bytes)
          \<and> (da_action d = ActUse \<or> vr_kind r = KLogin \<and> Username \<in> da_fields d \<and> Password \<in> da_fields d)
          \<and> \<not> (da_action d = ActRegister \<and> da_dispatched d \<and> da_record d \<in> set registrations)
      | _ \<Rightarrow> False)"

fun validate_deliveries ::
    "externals \<Rightarrow> application \<Rightarrow> (uuid \<times> delivery_attempt) list \<Rightarrow> request_key list \<Rightarrow> uuid list \<Rightarrow> bool" where
  "validate_deliveries ext app [] keys registrations = True"
| "validate_deliveries ext app ((did, d) # ds) keys registrations =
     (validate_delivery ext app did d keys registrations
      \<and> validate_deliveries ext app ds (insort_insert (da_key d) keys)
          (if da_action d = ActRegister \<and> da_dispatched d then insort_insert (da_record d) registrations
           else registrations))"

definition validate_signup :: "application \<Rightarrow> vault_record \<Rightarrow> bool" where
  "validate_signup app r \<longleftrightarrow>
     (vr_signup r = SVerifiedLogin \<longrightarrow>
        (case map_of (app_baselines app) (vr_id r) of None \<Rightarrow> False | Some b \<Rightarrow> rb_verified_login b)
        \<or> list_ex (\<lambda>d. da_record d = vr_id r \<and> da_version d = vr_secret_version r \<and> da_action d = ActLogin
             \<and> da_dispatched d \<and> da_status d = Some DAccepted) (bt_values (app_deliveries app)))"

definition validate_event :: "application \<Rightarrow> audit_event \<Rightarrow> bool" where
  "validate_event app e =
     (case (map_of (app_tasks app) (ae_task e), map_of (app_records app) (ae_record e)) of
        (Some t, Some r) \<Rightarrow>
          same_scope t r
          \<and> (ae_at e = 0 \<and> ae_principal e = []
             \<or> ae_principal e = tk_principal t
               \<and> (case app_last_time app of None \<Rightarrow> False | Some high \<Rightarrow> 0 \<le> ae_at e \<and> ae_at e \<le> high))
          \<and> (case ae_request e of
               None \<Rightarrow> True
             | Some request \<Rightarrow>
                 (case map_of (app_requests app) (RequestKey (tk_owner t) (tk_principal t) (tk_id t) request) of
                    None \<Rightarrow> False | Some m \<Rightarrow> rc_record (rm_result m) = ae_record e))
      | _ \<Rightarrow> False)"

definition validates :: "externals \<Rightarrow> application \<Rightarrow> bool" where
  "validates ext app \<longleftrightarrow>
     0 < app_generation app \<and> (app_clock_frozen app \<longrightarrow> app_last_time app \<noteq> None)
     \<and> within_limits app
     \<and> validate_tasks default_application (app_tasks app)
     \<and> (\<forall>tid |\<in>| app_revoked_tasks app. bt_contains (app_tasks app) tid)
     \<and> list_all (\<lambda>(rid, r). validate_record app rid r) (app_records app)
     \<and> list_all (\<lambda>(gid, g). validate_grant app gid g) (app_grants app)
     \<and> (case validate_requests app (app_requests app) empty_history of
          None \<Rightarrow> False
        | Some h \<Rightarrow>
            (case validate_baselines app (app_baselines app) [] of
               None \<Rightarrow> False
             | Some accounted \<Rightarrow>
                 list_all (\<lambda>(rid, r). validate_history app h rid r) (app_records app)
                 \<and> length (hs_shares h) + length accounted = length (app_grants app)
                 \<and> set (hs_shares h) \<inter> set accounted = {}))
     \<and> validate_deliveries ext app (app_deliveries app) [] []
     \<and> list_all (validate_signup app) (bt_values (app_records app))
     \<and> list_all (validate_event app) (app_audit app)"

definition validate :: "externals \<Rightarrow> application \<Rightarrow> error + unit" where
  "validate ext app = (if validates ext app then Inr () else Inl InvalidStorage)"

section \<open>Encoding and decoding\<close>

definition snapshot_of :: "application \<Rightarrow> snapshot" where
  "snapshot_of app =
     \<lparr>sn_schema = 3, sn_generation = app_generation app, sn_tasks = bt_values (app_tasks app),
      sn_records = bt_values (app_records app), sn_grants = app_grants app, sn_requests = app_requests app,
      sn_revoked_tasks = sorted_list_of_fset (app_revoked_tasks app), sn_deliveries = app_deliveries app,
      sn_audit = app_audit app, sn_last_time = app_last_time app, sn_clock_frozen = app_clock_frozen app,
      sn_baselines = app_baselines app, sn_predecessor = app_predecessor app\<rparr>"

definition encode :: "externals \<Rightarrow> json_codec \<Rightarrow> application \<Rightarrow> error + u8 list" where
  "encode ext js app =
     (case validate ext app of
        Inl e \<Rightarrow> Inl e
      | Inr _ \<Rightarrow>
          (case js_encode js (snapshot_of app) of
             None \<Rightarrow> Inl InvalidStorage
           | Some bytes \<Rightarrow> if max_plaintext < length bytes then Inl Capacity else Inr bytes))"

text \<open>\<^verbatim>\<open>insert(..).is_some()\<close> refuses a repeated key.\<close>

fun load_entries :: "('k::linorder \<times> 'v) list \<Rightarrow> ('k, 'v) btmap \<Rightarrow> ('k, 'v) btmap option" where
  "load_entries [] m = Some m"
| "load_entries ((k, v) # es) m = (if bt_contains m k then None else load_entries es (bt_insert k v m))"

fun load_ids :: "uuid list \<Rightarrow> uuid fset \<Rightarrow> uuid fset option" where
  "load_ids [] s = Some s"
| "load_ids (x # xs) s = (if x |\<in>| s then None else load_ids xs (finsert x s))"

definition inherit_at :: "time option \<Rightarrow> time option \<Rightarrow> time option" where
  "inherit_at high at = (case at of None \<Rightarrow> high | Some t \<Rightarrow> Some t)"

definition snapshot_header_ok :: "snapshot \<Rightarrow> bool" where
  "snapshot_header_ok s \<longleftrightarrow>
     \<not> (sn_schema s \<noteq> 2 \<and> sn_schema s \<noteq> 3 \<or> sn_generation s = 0
        \<or> list_ex (\<lambda>n. limit < n)
            [length (sn_tasks s), length (sn_records s), length (sn_grants s), length (sn_requests s),
             length (sn_revoked_tasks s), length (sn_deliveries s), length (sn_audit s),
             length (sn_baselines s)])"

definition application_of :: "snapshot \<Rightarrow> application option" where
  "application_of s = do {
     tasks \<leftarrow> load_entries (map (\<lambda>t. (tk_id t, t)) (sn_tasks s)) [];
     records \<leftarrow> load_entries (map (\<lambda>r. (vr_id r, r)) (sn_records s)) [];
     grants \<leftarrow> load_entries (sn_grants s) [];
     requests \<leftarrow> load_entries
       (map (\<lambda>(k, m). (k, m\<lparr>rm_at := inherit_at (sn_last_time s) (rm_at m)\<rparr>)) (sn_requests s)) [];
     revoked \<leftarrow> load_ids (sn_revoked_tasks s) {||};
     deliveries \<leftarrow> load_entries
       (map (\<lambda>(k, d). (k, d\<lparr>da_at := inherit_at (sn_last_time s) (da_at d)\<rparr>)) (sn_deliveries s)) [];
     baselines \<leftarrow> load_entries (sn_baselines s) [];
     Some \<lparr>app_tasks = tasks, app_records = records, app_grants = grants, app_requests = requests,
       app_audit = sn_audit s, app_last_time = sn_last_time s, app_clock_frozen = sn_clock_frozen s,
       app_generation = sn_generation s, app_revoked_tasks = revoked, app_deliveries = deliveries,
       app_baselines = baselines, app_predecessor = sn_predecessor s\<rparr>
   }"

definition decode :: "externals \<Rightarrow> json_codec \<Rightarrow> u8 list \<Rightarrow> error + application" where
  "decode ext js bytes =
     (if max_plaintext < length bytes then Inl InvalidStorage
      else case js_decode js bytes of
             None \<Rightarrow> Inl InvalidStorage
           | Some s \<Rightarrow>
               if \<not> snapshot_header_ok s then Inl InvalidStorage
               else (case application_of s of
                       None \<Rightarrow> Inl InvalidStorage
                     | Some app \<Rightarrow>
                         (case validate ext app of Inl e \<Rightarrow> Inl e | Inr _ \<Rightarrow> Inr app)))"

end
