(* ===== verification/Compaction.thy ===== *)
theory Compaction
  imports Snapshot
begin

text \<open>
  Compaction of the staging state (\<^verbatim>\<open>src/src/agent/snapshot.rs\<close>, lines 267 to 401). The body of
  \<^verbatim>\<open>compact\<close> is one definition per loop, composed in the order of the code: cached receipts outside
  the retry window fold into the record's baseline, then dead grants, completed deliveries, deleted
  records, unreferenced tasks, dangling audit events and empty baselines go.
\<close>

section \<open>When to compact\<close>

definition stale :: "time option \<Rightarrow> time option \<Rightarrow> bool" where
  "stale at now =
     (case at of
        None \<Rightarrow> False
      | Some stored \<Rightarrow> (case now of None \<Rightarrow> False | Some n \<Rightarrow> retry_window \<le> sat_sub n stored))"

definition should_compact :: "application \<Rightarrow> bool" where
  "should_compact app \<longleftrightarrow>
     list_ex (\<lambda>n. compact_at \<le> n)
       [length (app_tasks app), length (app_records app), length (app_grants app), length (app_requests app),
        fcard (app_revoked_tasks app), length (app_deliveries app)]
     \<or> 32 \<le> app_generation app \<and> app_generation app mod 32 = 0
     \<or> list_ex (\<lambda>m. stale (rm_at m) (app_last_time app)) (bt_values (app_requests app))
     \<or> list_ex (\<lambda>d. da_status d \<noteq> None \<and> stale (da_at d) (app_last_time app)) (bt_values (app_deliveries app))"

section \<open>Receipts\<close>

text \<open>The prefix of a record's receipts, in revision order, that is stale and contiguous.\<close>

fun stale_prefix ::
    "application \<Rightarrow> u64 \<Rightarrow> u64 \<Rightarrow> (u64 \<times> request_key) list \<Rightarrow> (request_key \<times> remembered) list" where
  "stale_prefix app through next_revision [] = []"
| "stale_prefix app through next_revision ((revision, key) # rest) =
     (if revision \<le> through then stale_prefix app through next_revision rest
      else case map_of (app_requests app) key of
             None \<Rightarrow> []
           | Some m \<Rightarrow>
               if \<not> stale (rm_at m) (app_last_time app) \<or> revision \<noteq> next_revision then []
               else (key, m) # stale_prefix app through (next_revision + 1) rest)"

definition record_receipts :: "application \<Rightarrow> uuid \<Rightarrow> (u64 \<times> request_key) list" where
  "record_receipts app rid =
     sort_key fst (map (\<lambda>(key, m). (rc_revision (rm_result m), key))
       (filter (\<lambda>(key, m). rc_record (rm_result m) = rid) (app_requests app)))"

definition fold_receipt :: "remembered \<Rightarrow> record_baseline \<Rightarrow> record_baseline" where
  "fold_receipt m base =
     (let base = base\<lparr>rb_through := rc_revision (rm_result m)\<rparr> in
      case rm_kind m of
        CkCreate \<Rightarrow> base\<lparr>rb_secret_version := 1\<rparr>
      | CkPatch \<Rightarrow> base\<lparr>rb_secret_version :=
            (if rb_secret_version base = u64_max then u64_max else rb_secret_version base + 1)\<rparr>
      | CkDelete \<Rightarrow> base\<lparr>rb_delete_pruned := True\<rparr>
      | CkShare \<Rightarrow>
          (case rc_grant (rm_result m) of
             None \<Rightarrow> base
           | Some gid \<Rightarrow>
               if gid \<in> set (rb_pruned_grants base) then base
               else base\<lparr>rb_pruned_grants := rb_pruned_grants base @ [gid]\<rparr>)
      | _ \<Rightarrow> base)"

definition baseline_or_default :: "application \<Rightarrow> uuid \<Rightarrow> record_baseline" where
  "baseline_or_default app rid =
     (case map_of (app_baselines app) rid of None \<Rightarrow> default_baseline | Some b \<Rightarrow> b)"

definition compact_receipts :: "uuid \<Rightarrow> application \<Rightarrow> application" where
  "compact_receipts rid app =
     (let through = baseline_through app rid;
          folded = stale_prefix app through (through + 1) (record_receipts app rid) in
      if folded = [] then app
      else
        let base = fold (\<lambda>(key, m). fold_receipt m) folded (baseline_or_default app rid) in
        app\<lparr>app_requests := fold (\<lambda>(key, m). bt_remove key) folded (app_requests app),
            app_baselines := bt_insert rid (base\<lparr>rb_pruned_grants := sort (rb_pruned_grants base)\<rparr>)
              (app_baselines app)\<rparr>)"

section \<open>Grants and deliveries\<close>

definition compact_grant :: "uuid \<Rightarrow> application \<Rightarrow> application" where
  "compact_grant gid app =
     (case map_of (app_grants app) gid of
        None \<Rightarrow> app
      | Some g \<Rightarrow>
          let expired = (case app_last_time app of None \<Rightarrow> False | Some now \<Rightarrow> gs_expires_at (gr_spec g) \<le> now) in
          if \<not> gr_revoked g \<and> \<not> expired then app
          else if list_ex (\<lambda>m. rc_grant (rm_result m) = Some gid) (bt_values (app_requests app)) then app
          else app\<lparr>app_grants := bt_remove gid (app_grants app),
                   app_baselines := bt_modify (gr_record g)
                     (\<lambda>b. b\<lparr>rb_pruned_grants := filter (\<lambda>i. i \<noteq> gid) (rb_pruned_grants b)\<rparr>)
                     (app_baselines app)\<rparr>)"

definition seal_delivery :: "application \<Rightarrow> delivery_attempt \<Rightarrow> application" where
  "seal_delivery app d =
     (let seal_register = (da_action d = ActRegister \<and> da_dispatched d \<and> bt_contains (app_records app) (da_record d));
          seal_login = (case map_of (app_records app) (da_record d) of
              None \<Rightarrow> False
            | Some r \<Rightarrow> da_action d = ActLogin \<and> da_dispatched d \<and> da_status d = Some DAccepted
                \<and> vr_signup r = SVerifiedLogin \<and> da_version d = vr_secret_version r) in
      if seal_register \<or> seal_login then
        let base = baseline_or_default app (da_record d);
            base = (if seal_register then base\<lparr>rb_registration_dispatched := True\<rparr> else base);
            base = (if seal_login then base\<lparr>rb_verified_login := True\<rparr> else base)
        in app\<lparr>app_baselines := bt_insert (da_record d) base (app_baselines app)\<rparr>
      else app)"

definition compact_delivery :: "uuid \<Rightarrow> application \<Rightarrow> application" where
  "compact_delivery did app =
     (case map_of (app_deliveries app) did of
        None \<Rightarrow> app
      | Some d \<Rightarrow>
          if da_status d = None \<or> \<not> stale (da_at d) (app_last_time app) then app
          else let app = seal_delivery app d
               in app\<lparr>app_deliveries := bt_remove did (app_deliveries app)\<rparr>)"

section \<open>Records, tasks, audit and baselines\<close>

definition record_dropped :: "application \<Rightarrow> uuid \<Rightarrow> vault_record \<Rightarrow> bool" where
  "record_dropped app rid r \<longleftrightarrow> vr_deleted r
     \<and> list_all (\<lambda>g. gr_record g \<noteq> rid) (bt_values (app_grants app))
     \<and> list_all (\<lambda>d. da_record d \<noteq> rid) (bt_values (app_deliveries app))
     \<and> list_all (\<lambda>m. rc_record (rm_result m) \<noteq> rid) (bt_values (app_requests app))"

definition compact_records :: "application \<Rightarrow> application" where
  "compact_records app =
     (let dropped = map fst (filter (\<lambda>(rid, r). record_dropped app rid r) (app_records app))
      in app\<lparr>app_records := fold bt_remove dropped (app_records app),
             app_baselines := fold bt_remove dropped (app_baselines app)\<rparr>)"

definition task_referenced :: "application \<Rightarrow> uuid \<Rightarrow> bool" where
  "task_referenced app tid \<longleftrightarrow>
     list_ex (\<lambda>r. vr_task r = tid) (bt_values (app_records app))
     \<or> list_ex (\<lambda>g. gr_issuer_task g = tid) (bt_values (app_grants app))
     \<or> list_ex (\<lambda>d. da_task d = tid \<or> rk_task (da_key d) = tid) (bt_values (app_deliveries app))
     \<or> list_ex (\<lambda>key. rk_task key = tid) (bt_keys (app_requests app))"

definition task_rank_le :: "task_approval \<Rightarrow> task_approval \<Rightarrow> bool" where
  "task_rank_le a b \<longleftrightarrow>
     tk_expires_at a < tk_expires_at b \<or> tk_expires_at a = tk_expires_at b \<and> tk_id a \<le> tk_id b"

definition longest_task :: "task_approval list \<Rightarrow> task_approval option" where
  "longest_task ts = fold (\<lambda>t best.
     case best of None \<Rightarrow> Some t | Some b \<Rightarrow> if task_rank_le b t then Some t else Some b) ts None"

definition removable_tasks :: "application \<Rightarrow> uuid list" where
  "removable_tasks app =
     (let remove = map fst (filter (\<lambda>(tid, t). \<not> task_referenced app tid
            \<and> (tid |\<in>| app_revoked_tasks app
               \<or> (case app_last_time app of None \<Rightarrow> False | Some now \<Rightarrow> tk_expires_at t \<le> now)))
            (app_tasks app))
      in if app_tasks app \<noteq> [] \<and> length remove = length (app_tasks app)
         then (case longest_task (bt_values (app_tasks app)) of
                 None \<Rightarrow> remove
               | Some keep \<Rightarrow> filter (\<lambda>tid. tid \<noteq> tk_id keep) remove)
         else remove)"

definition compact_tasks :: "application \<Rightarrow> application" where
  "compact_tasks app =
     (let remove = removable_tasks app;
          tasks = fold bt_remove remove (app_tasks app)
      in app\<lparr>app_tasks := tasks,
             app_revoked_tasks := ffilter (\<lambda>tid. bt_contains tasks tid)
               (fold (\<lambda>tid s. s |-| {|tid|}) remove (app_revoked_tasks app))\<rparr>)"

definition event_kept :: "application \<Rightarrow> audit_event \<Rightarrow> bool" where
  "event_kept app e =
     (case map_of (app_tasks app) (ae_task e) of
        None \<Rightarrow> False
      | Some t \<Rightarrow>
          bt_contains (app_records app) (ae_record e)
          \<and> (case ae_request e of
               None \<Rightarrow> True
             | Some request \<Rightarrow>
                 (case map_of (app_requests app) (RequestKey (tk_owner t) (tk_principal t) (tk_id t) request) of
                    None \<Rightarrow> False | Some m \<Rightarrow> rc_record (rm_result m) = ae_record e)))"

definition compact_audit :: "application \<Rightarrow> application" where
  "compact_audit app = app\<lparr>app_audit := filter (event_kept app) (app_audit app)\<rparr>"

definition clean_baseline :: "application \<Rightarrow> uuid \<Rightarrow> record_baseline \<Rightarrow> record_baseline" where
  "clean_baseline app rid b =
     (let b = (if (case map_of (app_records app) rid of None \<Rightarrow> False | Some r \<Rightarrow> vr_signup r \<noteq> SVerifiedLogin)
               then b\<lparr>rb_verified_login := False\<rparr> else b)
      in b\<lparr>rb_pruned_grants := remdups_adj (sort (rb_pruned_grants b))\<rparr>)"

definition baseline_kept :: "application \<Rightarrow> uuid \<Rightarrow> record_baseline \<Rightarrow> bool" where
  "baseline_kept app rid b \<longleftrightarrow> bt_contains (app_records app) rid
     \<and> (0 < rb_through b \<or> rb_delete_pruned b \<or> rb_registration_dispatched b \<or> rb_verified_login b
        \<or> rb_pruned_grants b \<noteq> [])"

definition compact_baselines :: "application \<Rightarrow> application" where
  "compact_baselines app = app\<lparr>app_baselines :=
     bt_retain (baseline_kept app) (bt_map (clean_baseline app) (app_baselines app))\<rparr>"

definition compact :: "application \<Rightarrow> application" where
  "compact app =
     (let app = fold compact_receipts (bt_keys (app_records app)) app;
          app = fold compact_grant (bt_keys (app_grants app)) app;
          app = fold compact_delivery (bt_keys (app_deliveries app)) app
      in compact_baselines (compact_audit (compact_tasks (compact_records app))))"

section \<open>Comparing two states\<close>

definition max_time :: "time option \<Rightarrow> time option \<Rightarrow> time option" where
  "max_time a b = (case (a, b) of (None, _) \<Rightarrow> b | (_, None) \<Rightarrow> a | (Some s, Some t) \<Rightarrow> Some (max s t))"

definition clock_only_difference ::
    "externals \<Rightarrow> json_codec \<Rightarrow> application \<Rightarrow> application \<Rightarrow> error + bool" where
  "clock_only_difference ext js current candidate =
     (let high = max_time (app_last_time current) (app_last_time candidate);
          left = current\<lparr>app_last_time := high, app_generation := 1\<rparr>;
          right = candidate\<lparr>app_last_time := high, app_generation := 1\<rparr>
      in case encode ext js left of
           Inl e \<Rightarrow> Inl e
         | Inr a \<Rightarrow> (case encode ext js right of Inl e \<Rightarrow> Inl e | Inr b \<Rightarrow> Inr (a = b)))"

end
