(* ===== verification/Image.thy ===== *)
theory Image
  imports Crypto Compaction "HOL-Library.Monad_Syntax"
begin

text \<open>
  Sealed images (\<^verbatim>\<open>src/src/agent/storage.rs\<close>, lines 15 to 24 and 151 to 206): the header, its use as
  associated data, and the parser that opens an image with a seed phrase. The nonce that
  \<^verbatim>\<open>random_nonce\<close> draws is an argument.
\<close>

section \<open>Format\<close>

definition bytes_of :: "string \<Rightarrow> u8 list" where
  "bytes_of s = map (\<lambda>c. word_of_nat (of_char c)) s"

definition magic :: "u8 list" where "magic = bytes_of ''CMAGENT2''"
definition intent_magic :: "u8 list" where "intent_magic = bytes_of ''CMPEND02''"
definition max_image :: nat where "max_image = 32 * 1024 * 1024"
definition header_v2 :: "32 word" where "header_v2 = 2"
definition header_v3 :: "32 word" where "header_v3 = 3"

text \<open>Everything a running owner takes from other crates.\<close>

record environment =
  en_ext :: externals
  en_json :: json_codec
  en_crypto :: primitives

definition image_hash :: "environment \<Rightarrow> u8 list \<Rightarrow> digest" where
  "image_hash env bytes = ex_sha256 (en_ext env) bytes"

definition image_header :: "32 word \<Rightarrow> kdf_params \<Rightarrow> u8 list \<Rightarrow> u8 list" where
  "image_header version kdf salt =
     magic @ to_be32 version @ to_be32 (kd_m_kib kdf) @ to_be32 (kd_t_cost kdf) @ to_be32 (kd_p_cost kdf) @ salt"

definition seal_version ::
    "environment \<Rightarrow> u8 list \<Rightarrow> u8 list \<Rightarrow> u8 list \<Rightarrow> kdf_params \<Rightarrow> 32 word \<Rightarrow> u8 list \<Rightarrow> error + u8 list" where
  "seal_version env plaintext key salt kdf version nonce =
     (if max_plaintext < length plaintext then Inl Capacity
      else
        let header = image_header version kdf salt;
            aad = (if header_v3 \<le> version then header else [])
        in case encrypt (en_crypto env) key nonce plaintext aad of
             Inl _ \<Rightarrow> Inl InvalidStorage
           | Inr ciphertext \<Rightarrow>
               Inr (header @ nonce @ to_be64 (word_of_nat (length ciphertext)) @ ciphertext))"

definition seal_plaintext ::
    "environment \<Rightarrow> u8 list \<Rightarrow> u8 list \<Rightarrow> u8 list \<Rightarrow> kdf_params \<Rightarrow> u8 list \<Rightarrow> error + u8 list" where
  "seal_plaintext env plaintext key salt kdf nonce = seal_version env plaintext key salt kdf header_v3 nonce"

definition seal ::
    "environment \<Rightarrow> application \<Rightarrow> u8 list \<Rightarrow> u8 list \<Rightarrow> kdf_params \<Rightarrow> u8 list \<Rightarrow> error + u8 list" where
  "seal env app key salt kdf nonce =
     (case encode (en_ext env) (en_json env) app of
        Inl e \<Rightarrow> Inl e
      | Inr plaintext \<Rightarrow> seal_plaintext env plaintext key salt kdf nonce)"

section \<open>Parsing\<close>

record parsed_image =
  pi_version :: "32 word"
  pi_kdf :: kdf_params
  pi_salt :: "u8 list"
  pi_nonce :: "u8 list"
  pi_aad :: "u8 list"
  pi_ciphertext :: "u8 list"

text \<open>The reads of \<^verbatim>\<open>unseal\<close> up to the ciphertext; \<open>None\<close> is \<^verbatim>\<open>Error::InvalidStorage\<close>.\<close>

definition parse_kdf :: "primitives \<Rightarrow> u8 list \<Rightarrow> (kdf_params \<times> u8 list) option" where
  "parse_kdf cr bs = do {
     (m, bs) \<leftarrow> read_array 4 bs;
     (t, bs) \<leftarrow> read_array 4 bs;
     (p, bs) \<leftarrow> read_array 4 bs;
     (case validated cr (from_be32 m) (from_be32 t) (from_be32 p) of
        Inl _ \<Rightarrow> None | Inr kdf \<Rightarrow> Some (kdf, bs))
   }"

definition parse_image :: "primitives \<Rightarrow> u8 list \<Rightarrow> parsed_image option" where
  "parse_image cr img =
     (if max_image < length img then None else do {
        (m, bs) \<leftarrow> read_array 8 img;
        if m \<noteq> magic then None else do {
          (v, bs) \<leftarrow> read_array 4 bs;
          let version = from_be32 v;
          if version \<noteq> header_v2 \<and> version \<noteq> header_v3 then None else do {
            (kdf, bs) \<leftarrow> parse_kdf cr bs;
            (salt, bs) \<leftarrow> read_array salt_len bs;
            let aad = (if version = header_v3 then take (length img - length bs) img else []);
            (nonce, bs) \<leftarrow> read_array nonce_len bs;
            (len, bs) \<leftarrow> read_array 8 bs;
            if from_be64 len \<noteq> word_of_nat (length bs) then None
            else Some \<lparr>pi_version = version, pi_kdf = kdf, pi_salt = salt, pi_nonce = nonce, pi_aad = aad,
                   pi_ciphertext = bs\<rparr>
          }
        }
      })"

definition unseal ::
    "environment \<Rightarrow> u8 list \<Rightarrow> string \<Rightarrow> error + (application \<times> u8 list \<times> u8 list \<times> kdf_params)" where
  "unseal env img mnemonic =
     (case parse_image (en_crypto env) img of
        None \<Rightarrow> Inl InvalidStorage
      | Some p \<Rightarrow>
          (case derive_key (en_crypto env) mnemonic (pi_salt p) (pi_kdf p) of
             Inl _ \<Rightarrow> Inl InvalidStorage
           | Inr key \<Rightarrow>
               (case decrypt (en_crypto env) key (pi_nonce p) (pi_ciphertext p) (pi_aad p) of
                  Inl _ \<Rightarrow> Inl InvalidStorage
                | Inr plaintext \<Rightarrow>
                    (case decode (en_ext env) (en_json env) plaintext of
                       Inl e \<Rightarrow> Inl e
                     | Inr app \<Rightarrow> Inr (app, key, pi_salt p, pi_kdf p)))))"

section \<open>Parsing inverts formatting\<close>

lemma length_magic [simp]: "length magic = 8" "length intent_magic = 8"
  by (simp_all add: magic_def intent_magic_def bytes_of_def)

lemma length_image_header: "length salt = salt_len \<Longrightarrow> length (image_header version kdf salt) = 40"
  by (simp add: image_header_def be32.length_enc salt_len_def)

lemma parse_kdf_format:
  assumes "validated cr (kd_m_kib kdf) (kd_t_cost kdf) (kd_p_cost kdf) = Inr kdf"
  shows "parse_kdf cr (to_be32 (kd_m_kib kdf) @ to_be32 (kd_t_cost kdf) @ to_be32 (kd_p_cost kdf) @ rest)
    = Some (kdf, rest)"
  using assms by (simp add: parse_kdf_def be32.read_field be32.dec_enc)

lemma parse_image_format:
  assumes kdf: "validated cr (kd_m_kib kdf) (kd_t_cost kdf) (kd_p_cost kdf) = Inr kdf"
    and len: "length salt = salt_len" "length nonce = nonce_len"
    and version: "version = header_v2 \<or> version = header_v3"
    and img: "img = image_header version kdf salt @ nonce @ to_be64 (word_of_nat (length c)) @ c"
    and size: "length img \<le> max_image"
  shows "parse_image cr img = Some \<lparr>pi_version = version, pi_kdf = kdf, pi_salt = salt, pi_nonce = nonce,
    pi_aad = (if version = header_v3 then image_header version kdf salt else []), pi_ciphertext = c\<rparr>"
proof -
  let ?tail = "nonce @ to_be64 (word_of_nat (length c)) @ c"
  have "take (length img - length ?tail) img = image_header version kdf salt"
    by (simp add: img)
  then show ?thesis
    using size version
    by (simp add: parse_image_def img image_header_def Let_def be32.read_field be32.dec_enc be64.read_field
        be64.dec_enc parse_kdf_format [OF kdf] len)
qed

text \<open>The parser accepts formatted images only.\<close>

lemma parse_kdf_Some:
  assumes "parse_kdf cr bs = Some (kdf, rest)"
  shows "bs = to_be32 (kd_m_kib kdf) @ to_be32 (kd_t_cost kdf) @ to_be32 (kd_p_cost kdf) @ rest"
    and "validated cr (kd_m_kib kdf) (kd_t_cost kdf) (kd_p_cost kdf) = Inr kdf"
proof -
  obtain m t c r where r: "bs = m @ t @ c @ r" "length m = 4" "length t = 4" "length c = 4"
      "(case validated cr (from_be32 m) (from_be32 t) (from_be32 c) of Inl _ \<Rightarrow> None | Inr kdf \<Rightarrow> Some (kdf, r))
        = Some (kdf, rest)"
    using assms unfolding parse_kdf_def by (auto simp: read_array_Some bind_eq_Some_conv)
  then have k: "bs = m @ t @ c @ rest" "length m = 4" "length t = 4" "length c = 4"
      "validated cr (from_be32 m) (from_be32 t) (from_be32 c) = Inr kdf"
    by (cases "validated cr (from_be32 m) (from_be32 t) (from_be32 c)", simp_all)+
  have kdf: "kdf = \<lparr>kd_m_kib = from_be32 m, kd_t_cost = from_be32 t, kd_p_cost = from_be32 c\<rparr>"
    using validated_bounds [OF k(5)] by blast
  show "bs = to_be32 (kd_m_kib kdf) @ to_be32 (kd_t_cost kdf) @ to_be32 (kd_p_cost kdf) @ rest"
    "validated cr (kd_m_kib kdf) (kd_t_cost kdf) (kd_p_cost kdf) = Inr kdf"
    using k kdf by (simp_all add: be32.enc_dec)
qed

lemma parse_image_Some:
  assumes "parse_image cr img = Some p"
  shows "img = image_header (pi_version p) (pi_kdf p) (pi_salt p) @ pi_nonce p
      @ to_be64 (word_of_nat (length (pi_ciphertext p))) @ pi_ciphertext p"
    and "validated cr (kd_m_kib (pi_kdf p)) (kd_t_cost (pi_kdf p)) (kd_p_cost (pi_kdf p)) = Inr (pi_kdf p)"
    and "length (pi_salt p) = salt_len" "length (pi_nonce p) = nonce_len"
    and "pi_version p = header_v2 \<or> pi_version p = header_v3" "length img \<le> max_image"
proof -
  obtain v bs where v: "img = magic @ v @ bs" "length v = 4" "length img \<le> max_image"
      and rest: "(do {
            (kdf, bs) \<leftarrow> parse_kdf cr bs;
            (salt, bs) \<leftarrow> read_array salt_len bs;
            let aad = (if from_be32 v = header_v3 then take (length img - length bs) img else []);
            (nonce, bs) \<leftarrow> read_array nonce_len bs;
            (len, bs) \<leftarrow> read_array 8 bs;
            if from_be64 len \<noteq> word_of_nat (length bs) then None
            else Some \<lparr>pi_version = from_be32 v, pi_kdf = kdf, pi_salt = salt, pi_nonce = nonce, pi_aad = aad,
                   pi_ciphertext = bs\<rparr>
          }) = Some p" and version: "from_be32 v = header_v2 \<or> from_be32 v = header_v3"
    using assms unfolding parse_image_def
    by (auto simp: read_array_Some bind_eq_Some_conv [of "read_array 8 img"] bind_eq_Some_conv [of "read_array 4 _"]
        Let_def split: if_splits)
  obtain kdf salt nonce len c where k: "parse_kdf cr bs = Some (kdf, salt @ nonce @ len @ c)"
      and l: "length salt = salt_len" "length nonce = nonce_len" "length len = 8"
        "from_be64 len = word_of_nat (length c)"
      and p: "pi_version p = from_be32 v" "pi_kdf p = kdf" "pi_salt p = salt" "pi_nonce p = nonce" "pi_ciphertext p = c"
    using rest by (auto simp: bind_eq_Some_conv read_array_Some Let_def split: if_splits)
  have "to_be64 (word_of_nat (length c)) = len" using l(3,4) be64.enc_dec [of len] by simp
  then show "img = image_header (pi_version p) (pi_kdf p) (pi_salt p) @ pi_nonce p
      @ to_be64 (word_of_nat (length (pi_ciphertext p))) @ pi_ciphertext p"
    using v parse_kdf_Some(1) [OF k] be32.enc_dec [OF v(2)] by (simp add: p image_header_def)
  show "validated cr (kd_m_kib (pi_kdf p)) (kd_t_cost (pi_kdf p)) (kd_p_cost (pi_kdf p)) = Inr (pi_kdf p)"
    using parse_kdf_Some(2) [OF k] by (simp add: p)
qed (use assms in \<open>auto simp: parse_image_def read_array_Some bind_eq_Some_conv Let_def split: if_splits\<close>)

lemma parse_image_aad:
  assumes "parse_image cr img = Some p"
  shows "pi_aad p = (if pi_version p = header_v3 then take 40 img else [])"
proof -
  note parts = parse_image_Some [OF assms]
  have "parse_image cr img = Some \<lparr>pi_version = pi_version p, pi_kdf = pi_kdf p, pi_salt = pi_salt p,
      pi_nonce = pi_nonce p, pi_aad = (if pi_version p = header_v3
        then image_header (pi_version p) (pi_kdf p) (pi_salt p) else []), pi_ciphertext = pi_ciphertext p\<rparr>"
    by (rule parse_image_format [OF parts(2-5) parts(1) parts(6)])
  with assms have p: "p = \<lparr>pi_version = pi_version p, pi_kdf = pi_kdf p, pi_salt = pi_salt p,
      pi_nonce = pi_nonce p, pi_aad = (if pi_version p = header_v3
        then image_header (pi_version p) (pi_kdf p) (pi_salt p) else []), pi_ciphertext = pi_ciphertext p\<rparr>"
    by (simp only: option.inject)
  have "pi_aad p = (if pi_version p = header_v3 then image_header (pi_version p) (pi_kdf p) (pi_salt p) else [])"
    by (subst p) simp
  moreover have "take 40 img = image_header (pi_version p) (pi_kdf p) (pi_salt p)"
    using parts(1) length_image_header [OF parts(3)] by (metis append_eq_conv_conj)
  ultimately show ?thesis by simp
qed

end
