(* ===== verification/Snapshot_Facts.thy ===== *)
theory Snapshot_Facts
  imports Snapshot
begin

text \<open>Loading inverts storing: decoding an encoded state gives the state back.\<close>

section \<open>Tables\<close>

lemma load_entries_append:
  assumes "bt_wf (acc @ es)"
  shows "load_entries es acc = Some (acc @ es)"
  using assms
proof (induction es arbitrary: acc)
  case (Cons e es)
  obtain k v where e: "e = (k, v)" by (cases e)
  have less: "\<forall>p \<in> set acc. fst p < k"
    using Cons.prems by (auto simp: bt_wf_def sorted_wrt_append e)
  then have "\<not> bt_contains acc k" by (auto simp: bt_contains_iff)
  moreover have "bt_wf ((acc @ [(k, v)]) @ es)" using Cons.prems by (simp add: e)
  ultimately show ?case
    using Cons.IH [of "acc @ [(k, v)]"] by (simp add: e bt_insert_last [OF less])
qed simp

lemma load_entries_wf: "bt_wf es \<Longrightarrow> load_entries es [] = Some es"
  using load_entries_append [of "[]" es] by simp

lemma load_ids_distinct:
  "distinct xs \<Longrightarrow> set xs \<inter> fset s = {} \<Longrightarrow> load_ids xs s = Some (fset_of_list xs |\<union>| s)"
  by (induction xs arbitrary: s) auto

lemma load_ids_sorted: "load_ids (sorted_list_of_fset s) {||} = Some s"
proof -
  have "load_ids (sorted_list_of_fset s) {||} = Some (fset_of_list (sorted_list_of_fset s) |\<union>| {||})"
    by (rule load_ids_distinct) (simp_all add: sorted_list_of_fset.rep_eq)
  also have "fset_of_list (sorted_list_of_fset s) = s"
    by (simp add: fset_of_list.rep_eq sorted_list_of_fset.rep_eq flip: fset_inject)
  finally show ?thesis by simp
qed

section \<open>Round trip\<close>

text \<open>The tables are maps in key order and every retained request and delivery has its time.\<close>

definition storable :: "application \<Rightarrow> bool" where
  "storable app \<longleftrightarrow>
     bt_wf (app_tasks app) \<and> bt_wf (app_records app) \<and> bt_wf (app_grants app) \<and> bt_wf (app_requests app)
     \<and> bt_wf (app_deliveries app) \<and> bt_wf (app_baselines app)
     \<and> list_all (\<lambda>(k, m). rm_at m \<noteq> None) (app_requests app)
     \<and> list_all (\<lambda>(k, d). da_at d \<noteq> None) (app_deliveries app)"

text \<open>What the code relies on from the JSON codec.\<close>

definition json_correct :: "json_codec \<Rightarrow> bool" where
  "json_correct js \<longleftrightarrow> (\<forall>s bytes. js_encode js s = Some bytes \<longrightarrow> js_decode js bytes = Some s)"

lemma validate_tasks_ids: "validate_tasks checker ts \<Longrightarrow> \<forall>(k, t) \<in> set ts. k = tk_id t"
proof (induction ts arbitrary: checker)
  case (Cons p ts)
  then show ?case by (cases p) (auto simp: Let_def split: prod.splits sum.splits)
qed simp

lemma validates_ids:
  assumes "validates ext app"
  shows "map (\<lambda>t. (tk_id t, t)) (bt_values (app_tasks app)) = app_tasks app"
    and "map (\<lambda>r. (vr_id r, r)) (bt_values (app_records app)) = app_records app"
proof -
  have "\<forall>(k, t) \<in> set (app_tasks app). k = tk_id t"
    using assms by (intro validate_tasks_ids [of default_application]) (simp add: validates_def)
  then show "map (\<lambda>t. (tk_id t, t)) (bt_values (app_tasks app)) = app_tasks app"
    by (auto simp: bt_values_def comp_def intro!: map_idI)
  have "\<forall>(k, r) \<in> set (app_records app). k = vr_id r"
    using assms by (auto simp: validates_def list_all_iff validate_record_def split: option.splits)
  then show "map (\<lambda>r. (vr_id r, r)) (bt_values (app_records app)) = app_records app"
    by (auto simp: bt_values_def comp_def intro!: map_idI)
qed

lemma application_of_snapshot:
  assumes "storable app" and "validates ext app"
  shows "application_of (snapshot_of app) = Some app"
proof -
  have at: "map (\<lambda>(k, m). (k, m\<lparr>rm_at := inherit_at (app_last_time app) (rm_at m)\<rparr>)) (app_requests app) = app_requests app"
    "map (\<lambda>(k, d). (k, d\<lparr>da_at := inherit_at (app_last_time app) (da_at d)\<rparr>)) (app_deliveries app) = app_deliveries app"
    using assms(1) by (auto simp: storable_def list_all_iff inherit_at_def intro!: map_idI)
  show ?thesis
    using assms(1)
    by (simp add: application_of_def snapshot_of_def validates_ids [OF assms(2)] at load_entries_wf
        load_ids_sorted storable_def)
qed

lemma snapshot_header_of: "validates ext app \<Longrightarrow> snapshot_header_ok (snapshot_of app)"
  by (auto simp: snapshot_header_ok_def snapshot_of_def validates_def within_limits_def bt_values_def
      sorted_list_of_fset.rep_eq fcard.rep_eq)

lemma decode_encode:
  assumes "json_correct js" and "storable app" and "encode ext js app = Inr bytes"
  shows "decode ext js bytes = Inr app"
proof -
  have v: "validates ext app" and "js_encode js (snapshot_of app) = Some bytes" "length bytes \<le> max_plaintext"
    using assms(3) by (auto simp: encode_def validate_def split: if_splits option.splits)
  then show ?thesis
    using assms(1) application_of_snapshot [OF assms(2) v] snapshot_header_of [OF v]
    by (simp add: decode_def json_correct_def validate_def)
qed

text \<open>Whatever is decoded passes the validation.\<close>

lemma decode_validates: "decode ext js bytes = Inr app \<Longrightarrow> validates ext app"
  by (auto simp: decode_def validate_def split: if_splits option.splits)

end
