(* ===== verification/Store.thy ===== *)
theory Store
  imports Image Snapshot_Facts
begin

text \<open>
  The durable owner (\<^verbatim>\<open>src/src/agent/storage.rs\<close>). A directory is the map from file names to contents.
  Each system call of a publication has an outcome that the operating system chooses; the outcomes of
  one publication are the record \<open>publish_io\<close>, and a failed write or rename may leave any part of its
  effect behind. \<open>publish_with\<close> returns the directory after every system call, so that a crash between
  two calls is a prefix of that list. Path resolution and permissions are in \<open>Files\<close>.
\<close>

section \<open>Directories and outcomes\<close>

type_synonym directory = "(string, u8 list) btmap"

definition state_name :: string where "state_name = ''state.v2''"
definition pending_name :: string where "pending_name = ''pending.v2''"
definition recovery_name :: string where "recovery_name = ''recovery.v2''"
definition clock_persist_interval :: time where "clock_persist_interval = 60"

datatype io_write = Wrote | WriteFailed "u8 list option"
datatype io_rename = Renamed | RenameFailed bool
datatype lock_result = Locked | LockBusy | LockBroken
datatype publication = NotPublishedP | DurableP | UnknownP

record publish_io =
  po_gate_error :: bool
  po_nonce :: "u8 list"
  po_temp :: string
  po_write :: io_write
  po_unlink_temp :: bool
  po_intent :: io_write
  po_intent_sync :: bool
  po_rename :: io_rename
  po_sync :: bool
  po_unlink :: bool
  po_unlink_sync :: bool

text \<open>What a failed write leaves: nothing, or a file with some contents.\<close>

definition leave :: "string \<Rightarrow> u8 list option \<Rightarrow> directory \<Rightarrow> directory" where
  "leave name left dir = (case left of None \<Rightarrow> dir | Some bytes \<Rightarrow> bt_insert name bytes dir)"

definition move_file :: "string \<Rightarrow> string \<Rightarrow> directory \<Rightarrow> directory" where
  "move_file from to dir =
     (case map_of dir from of None \<Rightarrow> dir | Some bytes \<Rightarrow> bt_insert to bytes (bt_remove from dir))"

definition read_image :: "directory \<Rightarrow> string \<Rightarrow> error + u8 list option" where
  "read_image dir name =
     (case map_of dir name of
        None \<Rightarrow> Inr None
      | Some bytes \<Rightarrow> if max_image < length bytes then Inl InvalidStorage else Inr (Some bytes))"

definition gate_exists :: "directory \<Rightarrow> string \<Rightarrow> bool" where
  "gate_exists dir name = bt_contains dir name"

definition pending_exists :: "directory \<Rightarrow> bool \<Rightarrow> error + bool" where
  "pending_exists dir failed =
     (if failed then Inl RecoveryRequired
      else Inr (gate_exists dir pending_name \<or> gate_exists dir recovery_name))"

section \<open>The store\<close>

record store =
  st_key :: "u8 list"
  st_salt :: "u8 list"
  st_kdf :: kdf_params
  st_current_image :: "u8 list option"
  st_blocked :: bool
  st_persisted_last_time :: "time option"
  st_persisted_frozen :: bool

definition acquire_recovery :: "lock_result \<Rightarrow> error + unit" where
  "acquire_recovery lock =
     (case lock of Locked \<Rightarrow> Inr () | LockBusy \<Rightarrow> Inl InUse | LockBroken \<Rightarrow> Inl InvalidStorage)"

definition acquire :: "directory \<Rightarrow> lock_result \<Rightarrow> bool \<Rightarrow> error + unit" where
  "acquire dir lock failed =
     (case acquire_recovery lock of
        Inl e \<Rightarrow> Inl e
      | Inr _ \<Rightarrow>
          (case pending_exists dir failed of
             Inl e \<Rightarrow> Inl e
           | Inr gate \<Rightarrow> if gate then Inl RecoveryRequired else Inr ()))"

text \<open>The intent file holds the image it replaces and the image it installs.\<close>

definition intent_bytes :: "u8 list \<Rightarrow> u8 list \<Rightarrow> u8 list" where
  "intent_bytes old_image new_image =
     intent_magic @ to_be64 (word_of_nat (length old_image)) @ to_be64 (word_of_nat (length new_image))
       @ old_image @ new_image"

definition previous_image :: "store \<Rightarrow> u8 list" where
  "previous_image st = (case st_current_image st of None \<Rightarrow> [] | Some img \<Rightarrow> img)"

definition block :: "store \<Rightarrow> store" where "block st = st\<lparr>st_blocked := True\<rparr>"

text \<open>After the rename and its sync: the owner's fields, then the removal of the intent.\<close>

definition publish_done ::
    "store \<Rightarrow> directory \<Rightarrow> application \<Rightarrow> u8 list \<Rightarrow> u8 list \<Rightarrow> kdf_params \<Rightarrow> u8 list \<Rightarrow> publish_io
       \<Rightarrow> publication \<times> store \<times> directory list" where
  "publish_done st dir app key salt kdf img io =
     (let st = st\<lparr>st_current_image := Some img, st_key := key, st_salt := salt, st_kdf := kdf,
            st_persisted_last_time := app_last_time app, st_persisted_frozen := app_clock_frozen app\<rparr>
      in if \<not> po_unlink io then (DurableP, block st, [])
         else (DurableP, if po_unlink_sync io then st else block st, [bt_remove pending_name dir]))"

definition publish_rename ::
    "store \<Rightarrow> directory \<Rightarrow> application \<Rightarrow> u8 list \<Rightarrow> u8 list \<Rightarrow> kdf_params \<Rightarrow> u8 list \<Rightarrow> publish_io
       \<Rightarrow> publication \<times> store \<times> directory list" where
  "publish_rename st dir app key salt kdf img io =
     (case po_rename io of
        RenameFailed happened \<Rightarrow>
          (UnknownP, block st, [if happened then move_file (po_temp io) state_name dir else dir])
      | Renamed \<Rightarrow>
          let dir' = move_file (po_temp io) state_name dir in
          if \<not> po_sync io then (UnknownP, block st, [dir'])
          else (case publish_done st dir' app key salt kdf img io of
                  (result, st', dirs) \<Rightarrow> (result, st', dir' # dirs)))"

definition publish_intent ::
    "store \<Rightarrow> directory \<Rightarrow> application \<Rightarrow> u8 list \<Rightarrow> u8 list \<Rightarrow> kdf_params \<Rightarrow> u8 list \<Rightarrow> publish_io
       \<Rightarrow> publication \<times> store \<times> directory list" where
  "publish_intent st dir app key salt kdf img io =
     (case po_intent io of
        WriteFailed left \<Rightarrow> (UnknownP, block st, [leave pending_name left dir])
      | Wrote \<Rightarrow>
          let dir' = bt_insert pending_name (intent_bytes (previous_image st) img) dir in
          if \<not> po_intent_sync io then (UnknownP, block st, [dir'])
          else (case publish_rename st dir' app key salt kdf img io of
                  (result, st', dirs) \<Rightarrow> (result, st', dir' # dirs)))"

definition publish_with ::
    "environment \<Rightarrow> store \<Rightarrow> directory \<Rightarrow> application \<Rightarrow> u8 list \<Rightarrow> u8 list \<Rightarrow> kdf_params \<Rightarrow> publish_io
       \<Rightarrow> publication \<times> store \<times> directory list" where
  "publish_with env st dir app key salt kdf io =
     (if st_blocked st \<or> pending_exists dir (po_gate_error io) \<noteq> Inr False
      then (UnknownP, block st, [])
      else case seal env app key salt kdf (po_nonce io) of
        Inl _ \<Rightarrow> (NotPublishedP, st, [])
      | Inr img \<Rightarrow>
          (case po_write io of
             WriteFailed left \<Rightarrow>
               let dir' = leave (po_temp io) left dir in
               (NotPublishedP, st, [dir', if po_unlink_temp io then bt_remove (po_temp io) dir' else dir'])
           | Wrote \<Rightarrow>
               let dir' = bt_insert (po_temp io) img dir in
               (case publish_intent st dir' app key salt kdf img io of
                  (result, st', dirs) \<Rightarrow> (result, st', dir' # dirs))))"

definition publish ::
    "environment \<Rightarrow> store \<Rightarrow> directory \<Rightarrow> application \<Rightarrow> publish_io \<Rightarrow> publication \<times> store \<times> directory list" where
  "publish env st dir app io = publish_with env st dir app (st_key st) (st_salt st) (st_kdf st) io"

section \<open>The owner\<close>

record vault =
  dv_app :: application
  dv_store :: store
  dv_frozen :: bool
  dv_dir :: directory

definition final_dir :: "directory \<Rightarrow> directory list \<Rightarrow> directory" where
  "final_dir dir dirs = last (dir # dirs)"

definition ready :: "vault \<Rightarrow> error + unit" where
  "ready v = (if dv_frozen v \<or> st_blocked (dv_store v) then Inl RecoveryRequired else Inr ())"

text \<open>The error of a creation leaves the directory behind, so both outcomes carry it.\<close>

definition create_from_app ::
    "environment \<Rightarrow> directory \<Rightarrow> lock_result \<Rightarrow> bool \<Rightarrow> string \<Rightarrow> u8 list \<Rightarrow> application \<Rightarrow> publish_io
       \<Rightarrow> (error + vault) \<times> directory" where
  "create_from_app env dir lock gate_failed mnemonic salt app io =
     (case encode (en_ext env) (en_json env) app of
        Inl e \<Rightarrow> (Inl e, dir)
      | Inr _ \<Rightarrow>
        (case acquire dir lock gate_failed of
           Inl e \<Rightarrow> (Inl e, dir)
         | Inr _ \<Rightarrow>
           (case read_image dir state_name of
              Inl e \<Rightarrow> (Inl e, dir)
            | Inr (Some _) \<Rightarrow> (Inl Conflict, dir)
            | Inr None \<Rightarrow>
              (case derive_key (en_crypto env) mnemonic salt kdf_current of
                 Inl _ \<Rightarrow> (Inl InvalidStorage, dir)
               | Inr key \<Rightarrow>
                   let st = \<lparr>st_key = key, st_salt = salt, st_kdf = kdf_current, st_current_image = None,
                             st_blocked = False, st_persisted_last_time = None, st_persisted_frozen = False\<rparr>
                   in case publish env st dir app io of
                        (DurableP, st', dirs) \<Rightarrow>
                          (Inr \<lparr>dv_app = app, dv_store = st', dv_frozen = st_blocked st',
                                dv_dir = final_dir dir dirs\<rparr>, final_dir dir dirs)
                      | (NotPublishedP, st', dirs) \<Rightarrow> (Inl NotPublished, final_dir dir dirs)
                      | (UnknownP, st', dirs) \<Rightarrow> (Inl RecoveryRequired, final_dir dir dirs)))))"

definition create ::
    "environment \<Rightarrow> directory \<Rightarrow> lock_result \<Rightarrow> bool \<Rightarrow> string \<Rightarrow> u8 list \<Rightarrow> publish_io
       \<Rightarrow> (error + vault) \<times> directory" where
  "create env dir lock gate_failed mnemonic salt io =
     create_from_app env dir lock gate_failed mnemonic salt (default_application\<lparr>app_generation := 1\<rparr>) io"

definition unfinished :: "application \<Rightarrow> bool" where
  "unfinished app \<longleftrightarrow> list_ex (\<lambda>d. da_status d = None) (bt_values (app_deliveries app))"

definition open_image :: "environment \<Rightarrow> directory \<Rightarrow> u8 list \<Rightarrow> string \<Rightarrow> error + vault" where
  "open_image env dir img mnemonic =
     (case unseal env img mnemonic of
        Inl e \<Rightarrow> Inl e
      | Inr (app, key, salt, kdf) \<Rightarrow>
          if unfinished app then Inl RecoveryRequired
          else Inr \<lparr>dv_app = app,
            dv_store = \<lparr>st_key = key, st_salt = salt, st_kdf = kdf, st_current_image = Some img,
              st_blocked = False, st_persisted_last_time = app_last_time app,
              st_persisted_frozen = app_clock_frozen app\<rparr>,
            dv_frozen = False, dv_dir = dir\<rparr>)"

definition open_vault ::
    "environment \<Rightarrow> directory \<Rightarrow> lock_result \<Rightarrow> bool \<Rightarrow> string \<Rightarrow> error + vault" where
  "open_vault env dir lock gate_failed mnemonic =
     (case acquire dir lock gate_failed of
        Inl e \<Rightarrow> Inl e
      | Inr _ \<Rightarrow>
        (case read_image dir state_name of
           Inl e \<Rightarrow> Inl e
         | Inr None \<Rightarrow> Inl InvalidStorage
         | Inr (Some img) \<Rightarrow> open_image env dir img mnemonic))"

text \<open>The three outcomes of a publication of \<open>candidate\<close>, shared by \<^verbatim>\<open>commit\<close> and \<^verbatim>\<open>rekey\<close>.\<close>

definition settle ::
    "vault \<Rightarrow> application \<Rightarrow> publication \<times> store \<times> directory list \<Rightarrow> (error + unit) \<times> vault" where
  "settle v candidate outcome =
     (case outcome of (result, st', dirs) \<Rightarrow>
        let v = v\<lparr>dv_store := st', dv_dir := final_dir (dv_dir v) dirs\<rparr> in
        case result of
          NotPublishedP \<Rightarrow> (Inl NotPublished, v)
        | UnknownP \<Rightarrow> (Inl RecoveryRequired, v\<lparr>dv_frozen := True\<rparr>)
        | DurableP \<Rightarrow> (Inr (), v\<lparr>dv_app := candidate, dv_frozen := st_blocked st'\<rparr>))"

definition clock_due :: "time option \<Rightarrow> time option \<Rightarrow> bool" where
  "clock_due persisted candidate =
     (case (persisted, candidate) of
        (Some base, Some now) \<Rightarrow> clock_persist_interval \<le> sat_sub now base
      | (None, Some _) \<Rightarrow> True
      | (Some _, None) \<Rightarrow> True
      | (None, None) \<Rightarrow> False)"

definition commit :: "environment \<Rightarrow> vault \<Rightarrow> application \<Rightarrow> publish_io \<Rightarrow> (error + unit) \<times> vault" where
  "commit env v candidate io =
     (case ready v of
        Inl e \<Rightarrow> (Inl e, v)
      | Inr _ \<Rightarrow>
        (case clock_only_difference (en_ext env) (en_json env) (dv_app v) candidate of
           Inl e \<Rightarrow> (Inl e, v)
         | Inr clock_only \<Rightarrow>
             if clock_only \<and> \<not> clock_due (st_persisted_last_time (dv_store v)) (app_last_time candidate)
                \<and> app_clock_frozen candidate = st_persisted_frozen (dv_store v)
             then (Inr (), v\<lparr>dv_app := (dv_app v)\<lparr>app_last_time := app_last_time candidate\<rparr>\<rparr>)
             else (case checked_inc (app_generation (dv_app v)) of
                     None \<Rightarrow> (Inl Capacity, v)
                   | Some generation \<Rightarrow>
                       let candidate = candidate\<lparr>app_generation := generation\<rparr> in
                       (case validate (en_ext env) candidate of
                          Inl e \<Rightarrow> (Inl e, v)
                        | Inr _ \<Rightarrow> settle v candidate (publish env (dv_store v) (dv_dir v) candidate io)))))"

definition apply_op ::
    "environment \<Rightarrow> vault \<Rightarrow> (application \<Rightarrow> (error + 'r) \<times> application) \<Rightarrow> publish_io \<Rightarrow> (error + 'r) \<times> vault" where
  "apply_op env v operation io =
     (case ready v of
        Inl e \<Rightarrow> (Inl e, v)
      | Inr _ \<Rightarrow>
          let candidate = (if should_compact (dv_app v) then compact (dv_app v) else dv_app v) in
          (case operation candidate of (result, candidate') \<Rightarrow>
             (case commit env v candidate' io of
                (Inl e, v') \<Rightarrow> (Inl e, v')
              | (Inr _, v') \<Rightarrow> (result, v'))))"

definition admin_scope :: "application \<Rightarrow> auth_context \<Rightarrow> error + unit" where
  "admin_scope app admin =
     (if \<not> ctx_admin admin
         \<or> list_ex (\<lambda>t. tk_owner t \<noteq> ctx_owner admin \<or> tk_workspace t \<noteq> ctx_workspace admin) (bt_values (app_tasks app))
         \<or> list_ex (\<lambda>r. vr_owner r \<noteq> ctx_owner admin \<or> vr_workspace r \<noteq> ctx_workspace admin) (bt_values (app_records app))
      then Inl Denied else Inr ())"

definition rekey ::
    "environment \<Rightarrow> vault \<Rightarrow> auth_context \<Rightarrow> string \<Rightarrow> u8 list \<Rightarrow> publish_io \<Rightarrow> (error + unit) \<times> vault" where
  "rekey env v admin new_mnemonic salt io =
     (case ready v of
        Inl e \<Rightarrow> (Inl e, v)
      | Inr _ \<Rightarrow>
        (case admin_scope (dv_app v) admin of
           Inl e \<Rightarrow> (Inl e, v)
         | Inr _ \<Rightarrow>
           (case validate_mnemonic (en_crypto env) new_mnemonic of
              Inl _ \<Rightarrow> (Inl Invalid, v)
            | Inr _ \<Rightarrow>
              (case st_current_image (dv_store v) of
                 None \<Rightarrow> (Inl InvalidStorage, v)
               | Some previous \<Rightarrow>
                 (case checked_inc (app_generation (dv_app v)) of
                    None \<Rightarrow> (Inl Capacity, v)
                  | Some generation \<Rightarrow>
                      let candidate = (dv_app v)\<lparr>app_generation := generation,
                            app_predecessor := Some (image_hash env previous)\<rparr> in
                      (case validate (en_ext env) candidate of
                         Inl e \<Rightarrow> (Inl e, v)
                       | Inr _ \<Rightarrow>
                         (case derive_key (en_crypto env) new_mnemonic salt kdf_current of
                            Inl _ \<Rightarrow> (Inl InvalidStorage, v)
                          | Inr key \<Rightarrow>
                              settle v candidate
                                (publish_with env (dv_store v) (dv_dir v) candidate key salt kdf_current io))))))))"

section \<open>The operations of the owner\<close>

definition vault_approve_task where
  "vault_approve_task env v ctx t now io = apply_op env v (\<lambda>app. approve_task app ctx t now) io"

definition vault_revoke_task where
  "vault_revoke_task env v ctx tid now io = apply_op env v (\<lambda>app. revoke_task app ctx tid now) io"

definition vault_mutate where
  "vault_mutate env v ctx tid request op now fresh ent io =
     apply_op env v (\<lambda>app. mutate (en_ext env) app ctx tid request op now fresh ent) io"

definition vault_metadata where
  "vault_metadata env v ctx tid rid fs now io = apply_op env v (\<lambda>app. metadata app ctx tid rid fs now) io"

definition vault_read_secret where
  "vault_read_secret env v ctx tid rid fs now io = apply_op env v (\<lambda>app. read_secret app ctx tid rid fs now) io"

definition validate_consumer :: "vault \<Rightarrow> auth_context \<Rightarrow> uuid \<Rightarrow> string \<Rightarrow> string \<Rightarrow> time \<Rightarrow> error + unit" where
  "validate_consumer v ctx tid service origin now =
     (case ready v of
        Inl e \<Rightarrow> Inl e
      | Inr _ \<Rightarrow>
        (case effective_time (dv_app v) now of
           Inl e \<Rightarrow> Inl e
         | Inr eff \<Rightarrow>
           (case task_of (dv_app v) ctx tid eff of
              Inl e \<Rightarrow> Inl e
            | Inr t \<Rightarrow> if tk_service t \<noteq> service \<or> tk_origin t \<noteq> origin then Inl Denied else Inr ())))"

text \<open>The closures of the trusted import and export: clock, trusted context, then the operation.\<close>

definition with_task_context ::
    "auth_context \<Rightarrow> uuid \<Rightarrow> time \<Rightarrow> (application \<Rightarrow> auth_context \<Rightarrow> time \<Rightarrow> (error + 'r) \<times> application)
       \<Rightarrow> application \<Rightarrow> (error + 'r) \<times> application" where
  "with_task_context admin tid now operation app =
     (case clock app now of
        (Inl e, app) \<Rightarrow> (Inl e, app)
      | (Inr eff, app) \<Rightarrow>
          (case trusted_task_context app admin tid eff of
             Inl e \<Rightarrow> (Inl e, app)
           | Inr ctx \<Rightarrow> operation app ctx eff))"

definition import_for_task where
  "import_for_task env v admin tid request kind values now fresh ent io =
     apply_op env v (with_task_context admin tid now
       (\<lambda>app ctx eff. mutate (en_ext env) app ctx tid request (Create kind values) eff fresh ent)) io"

definition read_for_task where
  "read_for_task env v admin tid rid fs now io =
     apply_op env v (with_task_context admin tid now (\<lambda>app ctx eff. read_secret app ctx tid rid fs eff)) io"

definition vault_audit_events :: "vault \<Rightarrow> auth_context \<Rightarrow> error + audit_event list" where
  "vault_audit_events v ctx =
     (case ready v of Inl e \<Rightarrow> Inl e | Inr _ \<Rightarrow> audit_events (dv_app v) ctx)"

end
