(* ===== verification/Workflow.thy ===== *)
theory Workflow
  imports Store
begin

text \<open>
  Private delivery of a secret (\<^verbatim>\<open>src/src/agent/storage/workflow.rs\<close>): the intent is stored before the
  secret leaves the vault, authority is checked again at the handoff, and the outcome is stored
  after it. The clock readings, the attempt identifier and the adapter callback are arguments. The
  result carries what was handed to the adapter, if anything was. A panic of the adapter is not
  modelled.
\<close>

section \<open>The stored steps\<close>

definition find_delivery :: "application \<Rightarrow> request_key \<Rightarrow> (uuid \<times> delivery_attempt) option" where
  "find_delivery app key = List.find (\<lambda>(did, d). da_key d = key) (app_deliveries app)"

definition set_signup :: "uuid \<Rightarrow> signup_state \<Rightarrow> application \<Rightarrow> application" where
  "set_signup rid state app = app\<lparr>app_records := bt_modify rid (\<lambda>r. r\<lparr>vr_signup := state\<rparr>) (app_records app)\<rparr>"

definition new_attempt ::
    "uuid \<Rightarrow> private_use \<Rightarrow> u64 \<Rightarrow> request_key \<Rightarrow> digest \<Rightarrow> time \<Rightarrow> delivery_attempt" where
  "new_attempt tid request version key fingerprint prepared_at =
     \<lparr>da_task = tid, da_record = pu_record request, da_version = version, da_destination = pu_destination request,
      da_fields = pu_fields request, da_status = None, da_key = key, da_fingerprint = fingerprint,
      da_action = pu_action request, da_dispatched = True, da_at = Some prepared_at\<rparr>"

text \<open>An attempt with the same key: its receipt if it was dispatched and finished.\<close>

definition repeat_delivery ::
    "uuid \<times> delivery_attempt \<Rightarrow> u64 \<Rightarrow> digest \<Rightarrow> error + delivery_receipt option" where
  "repeat_delivery previous version fingerprint =
     (case previous of (did, d) \<Rightarrow>
        if da_version d \<noteq> version then Inl Denied
        else if da_fingerprint d \<noteq> fingerprint then Inl ReplayConflict
        else if \<not> da_dispatched d then Inl Denied
        else case da_status d of
               None \<Rightarrow> Inl RecoveryRequired
             | Some status \<Rightarrow> Inr (Some \<lparr>dr_attempt = did, dr_status = status\<rparr>))"

definition prepare_use ::
    "auth_context \<Rightarrow> uuid \<Rightarrow> private_use \<Rightarrow> digest \<Rightarrow> uuid \<Rightarrow> time \<Rightarrow> application
       \<Rightarrow> (error + delivery_receipt option) \<times> application" where
  "prepare_use ctx tid request fingerprint attempt now0 app0 =
     (case clock app0 now0 of
        (Inl e, app) \<Rightarrow> (Inl e, app)
      | (Inr now, app) \<Rightarrow>
          let key = RequestKey (ctx_owner ctx) (ctx_principal ctx) tid (pu_request request) in
          if pu_request request = nil_uuid then (Inl Invalid, app)
          else case select app ctx tid (pu_record request) (pu_fields request) SecretUse
                      (Some (pu_destination request)) now of
            Inl e \<Rightarrow> (Inl e, app)
          | Inr _ \<Rightarrow>
            (case record_of app ctx (pu_record request) of
               Inl e \<Rightarrow> (Inl e, app)
             | Inr r \<Rightarrow>
               if pu_action request \<noteq> ActUse \<and> (vr_kind r \<noteq> KLogin \<or> Username \<notin> pu_fields request
                    \<or> Password \<notin> pu_fields request)
               then (Inl Invalid, app)
               else if pu_action request = ActRegister \<and> vr_restored r then (Inl Conflict, app)
               else if bt_contains (app_requests app) key then (Inl ReplayConflict, app)
               else case find_delivery app key of
                 Some previous \<Rightarrow> (repeat_delivery previous (vr_secret_version r) fingerprint, app)
               | None \<Rightarrow>
                 if pu_action request = ActRegister \<and> registration_sealed app (pu_record request)
                 then (Inl Conflict, app)
                 else if 10000 \<le> length (app_deliveries app) then (Inl Capacity, app)
                 else
                   let app = app\<lparr>app_deliveries := bt_insert attempt
                         (new_attempt tid request (vr_secret_version r) key fingerprint now) (app_deliveries app)\<rparr>
                   in (Inr None,
                       if pu_action request = ActRegister then set_signup (pu_record request) SSubmitted app else app)))"

definition reject_use :: "private_use \<Rightarrow> uuid \<Rightarrow> application \<Rightarrow> (error + unit) \<times> application" where
  "reject_use request attempt app =
     (case map_of (app_deliveries app) attempt of
        None \<Rightarrow> (Inl RecoveryRequired, app)
      | Some _ \<Rightarrow>
          let app = app\<lparr>app_deliveries := bt_modify attempt
                (\<lambda>d. d\<lparr>da_dispatched := False, da_status := Some DRejected\<rparr>) (app_deliveries app)\<rparr> in
          if pu_action request = ActRegister
          then (case map_of (app_records app) (pu_record request) of
                  None \<Rightarrow> (Inl RecoveryRequired, app)
                | Some _ \<Rightarrow> (Inr (), set_signup (pu_record request) SPending app))
          else (Inr (), app))"

definition signup_after :: "private_action \<Rightarrow> delivery_status \<Rightarrow> signup_state \<Rightarrow> signup_state" where
  "signup_after action status previous =
     (case (action, status) of
        (ActRegister, DAccepted) \<Rightarrow> SReportedSuccess
      | (ActRegister, DRejected) \<Rightarrow> SRejected
      | (ActRegister, DHumanRequired) \<Rightarrow> SHumanRequired
      | (ActRegister, DUnknown) \<Rightarrow> SUnknown
      | (ActLogin, DAccepted) \<Rightarrow> SVerifiedLogin
      | _ \<Rightarrow> previous)"

definition finish_use ::
    "auth_context \<Rightarrow> uuid \<Rightarrow> private_use \<Rightarrow> uuid \<Rightarrow> delivery_status \<Rightarrow> time \<Rightarrow> application
       \<Rightarrow> (error + unit) \<times> application" where
  "finish_use ctx tid request attempt status handoff_at app =
     (case map_of (app_deliveries app) attempt of
        None \<Rightarrow> (Inl RecoveryRequired, app)
      | Some _ \<Rightarrow>
          let app = app\<lparr>app_deliveries := bt_modify attempt (\<lambda>d. d\<lparr>da_status := Some status\<rparr>) (app_deliveries app)\<rparr> in
          (case map_of (app_records app) (pu_record request) of
             None \<Rightarrow> (Inl RecoveryRequired, app)
           | Some r \<Rightarrow>
               (Inr (), audit_push
                  (set_signup (pu_record request) (signup_after (pu_action request) status (vr_signup r)) app)
                  \<lparr>ae_task = tid, ae_record = pu_record request, ae_request = None, ae_action = AuSecretUse,
                   ae_at = handoff_at, ae_principal = ctx_principal ctx\<rparr>)))"

section \<open>The whole delivery\<close>

text \<open>\<^verbatim>\<open>apply(..).map_err(..)\<close>: a failed step freezes the owner.\<close>

definition apply_or_freeze ::
    "environment \<Rightarrow> vault \<Rightarrow> (application \<Rightarrow> (error + unit) \<times> application) \<Rightarrow> publish_io \<Rightarrow> (error + unit) \<times> vault" where
  "apply_or_freeze env v operation io =
     (case apply_op env v operation io of
        (Inl _, v') \<Rightarrow> (Inl RecoveryRequired, v'\<lparr>dv_frozen := True\<rparr>)
      | (Inr _, v') \<Rightarrow> (Inr (), v'))"

text \<open>The check right before the handoff, on the owner's own state; it moves the clock in memory.\<close>

definition authorize_handoff ::
    "auth_context \<Rightarrow> uuid \<Rightarrow> private_use \<Rightarrow> time \<Rightarrow> application \<Rightarrow> (error + secret_input \<times> time) \<times> application" where
  "authorize_handoff ctx tid request now app0 =
     (case clock app0 now of
        (Inl e, app) \<Rightarrow> (Inl e, app)
      | (Inr eff, app) \<Rightarrow>
          (case select app ctx tid (pu_record request) (pu_fields request) SecretUse
                  (Some (pu_destination request)) eff of
             Inl e \<Rightarrow> (Inl e, app)
           | Inr values \<Rightarrow> (Inr (values, eff), app)))"

definition deliver_and_store ::
    "environment \<Rightarrow> vault \<Rightarrow> auth_context \<Rightarrow> uuid \<Rightarrow> private_use \<Rightarrow> uuid \<Rightarrow> secret_input \<Rightarrow> time
       \<Rightarrow> (secret_input \<Rightarrow> error + delivery_status) \<Rightarrow> publish_io \<Rightarrow> (error + delivery_receipt) \<times> vault" where
  "deliver_and_store env v ctx tid request attempt values handoff_at deliver io =
     (let delivered = deliver values;
          status = (case delivered of Inl _ \<Rightarrow> DUnknown | Inr s \<Rightarrow> s)
      in case apply_or_freeze env v (finish_use ctx tid request attempt status handoff_at) io of
           (Inl e, v') \<Rightarrow> (Inl e, v')
         | (Inr _, v') \<Rightarrow>
             (case delivered of
                Inl _ \<Rightarrow> (Inl InteractionRequired, v')
              | Inr _ \<Rightarrow> (Inr \<lparr>dr_attempt = attempt, dr_status = status\<rparr>, v')))"

definition use_secret ::
    "environment \<Rightarrow> vault \<Rightarrow> auth_context \<Rightarrow> uuid \<Rightarrow> private_use \<Rightarrow> time \<Rightarrow> time
       \<Rightarrow> (secret_input \<Rightarrow> error + delivery_status) \<Rightarrow> uuid \<Rightarrow> publish_io \<Rightarrow> publish_io
       \<Rightarrow> (error + delivery_receipt) \<times> vault \<times> secret_input option" where
  "use_secret env v ctx tid request now1 now2 deliver attempt io1 io2 =
     (case ex_use_json (en_ext env) request of
        None \<Rightarrow> (Inl Invalid, v, None)
      | Some bytes \<Rightarrow>
          let fingerprint = ex_sha256 (en_ext env) bytes in
          (case apply_op env v (prepare_use ctx tid request fingerprint attempt now1) io1 of
             (Inl e, v1) \<Rightarrow> (Inl e, v1, None)
           | (Inr (Some receipt), v1) \<Rightarrow> (Inr receipt, v1, None)
           | (Inr None, v1) \<Rightarrow>
               (case ready v1 of
                  Inl e \<Rightarrow> (Inl e, v1, None)
                | Inr _ \<Rightarrow>
                    (case authorize_handoff ctx tid request now2 (dv_app v1) of
                       (Inl e, app) \<Rightarrow>
                         (case apply_or_freeze env (v1\<lparr>dv_app := app\<rparr>) (reject_use request attempt) io2 of
                            (Inl e', v2) \<Rightarrow> (Inl e', v2, None)
                          | (Inr _, v2) \<Rightarrow> (Inl e, v2, None))
                     | (Inr (values, handoff_at), app) \<Rightarrow>
                         (case deliver_and_store env (v1\<lparr>dv_app := app\<rparr>) ctx tid request attempt values
                                 handoff_at deliver io2 of
                            (res, v2) \<Rightarrow> (res, v2, Some values))))))"

end
