(* ===== verification/Store_Properties.thy ===== *)
theory Store_Properties
  imports Store
begin

text \<open>
  Properties of the durable owner: an image that was sealed opens again with the same seed, every
  crash point of a publication leaves the old or the new image with the evidence that recovery needs,
  and the outcome of a commit says what is on disk.
\<close>

section \<open>Images\<close>

lemma sealed_opens:
  assumes aead: "aead_correct (en_crypto env)" and json: "json_correct (en_json env)" and app: "storable app"
    and key: "derive_key (en_crypto env) mnemonic salt kdf = Inr key"
    and kdf: "validated (en_crypto env) (kd_m_kib kdf) (kd_t_cost kdf) (kd_p_cost kdf) = Inr kdf"
    and len: "length salt = salt_len" "length nonce = nonce_len"
    and sealed: "seal env app key salt kdf nonce = Inr img" and size: "length img \<le> max_image"
  shows "unseal env img mnemonic = Inr (app, key, salt, kdf)"
proof -
  obtain bytes c where bytes: "encode (en_ext env) (en_json env) app = Inr bytes"
      and c: "cr_aead_encrypt (en_crypto env) key nonce bytes (image_header header_v3 kdf salt) = Some c"
      and img: "img = image_header header_v3 kdf salt @ nonce @ to_be64 (word_of_nat (length c)) @ c"
    using sealed
    by (auto simp: seal_def seal_plaintext_def seal_version_def encrypt_def Let_def
        split: sum.splits if_splits option.splits)
  have "decrypt (en_crypto env) key nonce c (image_header header_v3 kdf salt) = Inr bytes"
    using aead c len by (simp add: decrypt_def aead_correct_def)
  then show ?thesis
    using parse_image_format [OF kdf len _ img size] key decode_encode [OF json app bytes]
    by (simp add: unseal_def)
qed

text \<open>
  C35: Sealing and opening are inverse. An image sealed under the key of a seed phrase opens with that
  phrase to the same state, key, salt and parameters, given that the JSON codec and AES-GCM decode
  what they encoded.
\<close>

theorem unseal_seal:
  assumes aead: "aead_correct (en_crypto env)" and json: "json_correct (en_json env)" and app: "storable app"
    and key: "derive_key (en_crypto env) mnemonic salt kdf = Inr key"
    and kdf: "validated (en_crypto env) (kd_m_kib kdf) (kd_t_cost kdf) (kd_p_cost kdf) = Inr kdf"
    and len: "length salt = salt_len" "length nonce = nonce_len"
    and sealed: "seal env app key salt kdf nonce = Inr img" and size: "length img \<le> max_image"
  shows "unseal env img mnemonic = Inr (app, key, salt, kdf)"
  by (rule sealed_opens [OF assms])

text \<open>
  The header of a version 3 image is authenticated: opening an image succeeds only if the cipher
  accepts the image's own first 40 bytes (magic, version, key derivation parameters and salt) as
  associated data, and only with parameters inside the accepted bounds.
\<close>

theorem open_authenticates_header:
  assumes "unseal env img mnemonic = Inr (app, key, salt, kdf)"
  shows "\<exists>version nonce c plaintext.
    img = image_header version kdf salt @ nonce @ to_be64 (word_of_nat (length c)) @ c
    \<and> (version = header_v2 \<or> version = header_v3) \<and> length img \<le> max_image
    \<and> 19456 \<le> unat (kd_m_kib kdf) \<and> unat (kd_m_kib kdf) \<le> 1048576
    \<and> unat (kd_t_cost kdf) \<le> 100 \<and> unat (kd_p_cost kdf) \<le> 16
    \<and> derive_key (en_crypto env) mnemonic salt kdf = Inr key
    \<and> cr_aead_decrypt (en_crypto env) key nonce c (if version = header_v3 then take 40 img else []) = Some plaintext
    \<and> decode (en_ext env) (en_json env) plaintext = Inr app \<and> validates (en_ext env) app"
proof -
  obtain p plaintext where p: "parse_image (en_crypto env) img = Some p" "salt = pi_salt p" "kdf = pi_kdf p"
      "derive_key (en_crypto env) mnemonic (pi_salt p) (pi_kdf p) = Inr key"
      "decrypt (en_crypto env) key (pi_nonce p) (pi_ciphertext p) (pi_aad p) = Inr plaintext"
      "decode (en_ext env) (en_json env) plaintext = Inr app"
    using assms by (auto simp: unseal_def split: option.splits sum.splits)
  have "cr_aead_decrypt (en_crypto env) key (pi_nonce p) (pi_ciphertext p)
      (if pi_version p = header_v3 then take 40 img else []) = Some plaintext"
    using p(5) parse_image_aad [OF p(1)] by (auto simp: decrypt_def split: if_splits option.splits)
  then show ?thesis
    using parse_image_Some [OF p(1)] validated_bounds [OF parse_image_Some(2) [OF p(1)]] p decode_validates [OF p(6)]
    by (intro exI [of _ "pi_version p"] exI [of _ "pi_nonce p"] exI [of _ "pi_ciphertext p"] exI [of _ plaintext]) simp
qed

text \<open>A concrete environment: the empty vault as the only snapshot, and a cipher that copies.\<close>

definition ex_fresh_app :: application where
  "ex_fresh_app = default_application\<lparr>app_generation := 1\<rparr>"

definition ex_env :: environment where
  "ex_env = \<lparr>en_ext = \<lparr>ex_mutation_json = (\<lambda>_. Some [1]), ex_use_json = (\<lambda>_. Some [2]), ex_sha256 = (\<lambda>b. b)\<rparr>,
     en_json = \<lparr>js_encode = (\<lambda>s. if s = snapshot_of ex_fresh_app then Some [7] else None),
       js_decode = (\<lambda>b. if b = [7] then Some (snapshot_of ex_fresh_app) else None)\<rparr>,
     en_crypto = \<lparr>cr_params_ok = (\<lambda>_. True), cr_argon2 = (\<lambda>_ _ _. Some [9]), cr_word_count = (\<lambda>_. Some 12),
       cr_aead_encrypt = (\<lambda>_ _ p _. Some p), cr_aead_decrypt = (\<lambda>_ _ c _. Some c)\<rparr>\<rparr>"

lemma ex_env_laws: "aead_correct (en_crypto ex_env)" "json_correct (en_json ex_env)" "storable ex_fresh_app"
  by (auto simp: aead_correct_def json_correct_def ex_env_def storable_def ex_fresh_app_def default_application_def
      split: if_splits)

lemma ex_fresh_valid: "validates ext ex_fresh_app"
  by (simp add: validates_def ex_fresh_app_def default_application_def within_limits_def limit_def
      empty_history_def fcard.rep_eq bt_values_def)

definition ex_image :: "u8 list" where
  "ex_image = image_header header_v3 kdf_current (replicate 16 0) @ replicate 12 0 @ to_be64 1 @ [7]"

lemma ex_seal: "seal ex_env ex_fresh_app [9] (replicate 16 0) kdf_current (replicate 12 0) = Inr ex_image"
  using ex_fresh_valid [of "en_ext ex_env"]
  by (simp add: seal_def encode_def validate_def seal_plaintext_def seal_version_def encrypt_def ex_env_def
      max_plaintext_def ex_image_def header_v3_def Let_def)

lemma ex_kdf:
  "validated (en_crypto ex_env) (kd_m_kib kdf_current) (kd_t_cost kdf_current) (kd_p_cost kdf_current) = Inr kdf_current"
  "derive_key (en_crypto ex_env) ''seed'' salt kdf_current = Inr [9]"
  by (simp_all add: validated_def kdf_current_def ex_env_def sat_mul8_def derive_key_def validate_mnemonic_def
      derive_key_from_secret_def Let_def)

lemma length_ex_image: "length ex_image = 61"
  by (simp add: ex_image_def length_image_header be64.length_enc salt_len_def)

theorem unseal_seal_witness:
  "unseal ex_env ex_image ''seed'' = Inr (ex_fresh_app, [9], replicate 16 0, kdf_current)"
  by (rule unseal_seal [OF ex_env_laws ex_kdf(2,1) _ _ ex_seal])
     (simp_all add: length_ex_image salt_len_def nonce_len_def max_image_def)

lemma ex_unseal: "unseal ex_env ex_image ''seed'' = Inr (ex_fresh_app, [9], replicate 16 0, kdf_current)"
proof -
  have p: "parse_image (en_crypto ex_env) ex_image = Some \<lparr>pi_version = header_v3, pi_kdf = kdf_current,
      pi_salt = replicate 16 0, pi_nonce = replicate 12 0,
      pi_aad = image_header header_v3 kdf_current (replicate 16 0), pi_ciphertext = [7]\<rparr>"
    by (subst parse_image_format [OF ex_kdf(1), where version = header_v3 and nonce = "replicate 12 0"
          and salt = "replicate 16 0" and c = "[7]"])
       (simp_all add: salt_len_def nonce_len_def length_ex_image max_image_def, simp add: ex_image_def)
  have enc: "encode (en_ext ex_env) (en_json ex_env) ex_fresh_app = Inr [7]"
    using ex_fresh_valid [of "en_ext ex_env"] by (simp add: encode_def validate_def ex_env_def max_plaintext_def)
  show ?thesis
    using ex_kdf(2) [of "replicate 16 0"] decode_encode [OF ex_env_laws(2,3) enc]
    by (simp add: unseal_def p decrypt_def nonce_len_def) (simp add: ex_env_def)
qed

theorem open_authenticates_header_witness:
  "\<exists>version nonce c. ex_image = image_header version kdf_current (replicate 16 0) @ nonce @ to_be64 (word_of_nat (length c)) @ c"
  using open_authenticates_header [OF ex_unseal] by blast

section \<open>Publication\<close>

lemma names_distinct [simp]:
  "state_name \<noteq> pending_name" "state_name \<noteq> recovery_name" "pending_name \<noteq> recovery_name"
  "pending_name \<noteq> state_name" "recovery_name \<noteq> state_name" "recovery_name \<noteq> pending_name"
  by (simp_all add: state_name_def pending_name_def recovery_name_def)

text \<open>The names of temporary files: none of the three that carry meaning.\<close>

definition temp_ok :: "publish_io \<Rightarrow> bool" where
  "temp_ok io \<longleftrightarrow> po_temp io \<noteq> state_name \<and> po_temp io \<noteq> pending_name \<and> po_temp io \<noteq> recovery_name"

definition no_gate :: "directory \<Rightarrow> bool" where
  "no_gate dir \<longleftrightarrow> map_of dir pending_name = None \<and> map_of dir recovery_name = None"

text \<open>
  What a crash may leave of a publication of \<open>img\<close> over \<open>dir\<close>: the old image, or the new image
  together with the intent that names both.
\<close>

definition recoverable :: "directory \<Rightarrow> store \<Rightarrow> u8 list \<Rightarrow> directory \<Rightarrow> bool" where
  "recoverable dir st img d \<longleftrightarrow>
     map_of d state_name = map_of dir state_name
     \<or> map_of d state_name = Some img \<and> map_of d pending_name = Some (intent_bytes (previous_image st) img)"

lemma map_of_move_file:
  "map_of dir from = Some bytes \<Longrightarrow> map_of (move_file from to dir) = (map_of dir)(from := None, to \<mapsto> bytes)"
  by (simp add: move_file_def)

lemma map_of_leave:
  "map_of (leave name left dir) n = (if n = name \<and> left \<noteq> None then left else map_of dir n)"
  by (auto simp: leave_def split: option.splits)

lemma publish_started:
  assumes "publish_with env st dir app key salt kdf io = (result, st', dirs)" and "dirs \<noteq> []"
  shows "no_gate dir" "\<not> st_blocked st" "\<exists>img. seal env app key salt kdf (po_nonce io) = Inr img"
  using assms
  by (auto simp: publish_with_def pending_exists_def gate_exists_def bt_contains_def no_gate_def
      split: if_splits sum.splits)

lemmas publish_defs = publish_with_def publish_intent_def publish_rename_def publish_done_def block_def Let_def

lemma publish_recoverable:
  assumes pub: "publish_with env st dir app key salt kdf io = (result, st', dirs)"
    and img: "seal env app key salt kdf (po_nonce io) = Inr img" and temp: "temp_ok io"
    and d: "d \<in> set (if result = DurableP \<and> po_unlink io then butlast dirs else dirs)"
  shows "recoverable dir st img d"
  using assms
  by (auto simp: publish_defs recoverable_def temp_ok_def map_of_move_file map_of_leave
      split: if_splits io_write.splits io_rename.splits)

lemma publish_outcomes:
  assumes pub: "publish_with env st dir app key salt kdf io = (result, st', dirs)" and temp: "temp_ok io"
  shows "result = NotPublishedP \<Longrightarrow> st' = st \<and> map_of (final_dir dir dirs) state_name = map_of dir state_name
      \<and> no_gate (final_dir dir dirs)"
    and "result = UnknownP \<Longrightarrow> st' = block st"
    and "result = DurableP \<Longrightarrow> \<exists>img. seal env app key salt kdf (po_nonce io) = Inr img
      \<and> map_of (final_dir dir dirs) state_name = Some img \<and> st_current_image st' = Some img
      \<and> st_key st' = key \<and> st_salt st' = salt \<and> st_kdf st' = kdf
      \<and> st_persisted_last_time st' = app_last_time app \<and> st_persisted_frozen st' = app_clock_frozen app
      \<and> (\<not> st_blocked st' \<longrightarrow> no_gate (final_dir dir dirs))"
  using assms
  by (auto simp: publish_defs final_dir_def temp_ok_def no_gate_def map_of_move_file map_of_leave
      pending_exists_def gate_exists_def bt_contains_def
      split: if_splits io_write.splits io_rename.splits sum.splits)

text \<open>
  C26: A publication can be cut off anywhere. After every system call, whatever the calls returned and
  whatever a failed call left behind, the state file is the old image or the new one, and as long as
  the owner has not confirmed the new image durable, a new image on disk comes with the intent file
  that holds both images.
\<close>

theorem publication_is_crash_safe:
  assumes "publish_with env st dir app key salt kdf io = (result, st', dirs)"
    and "seal env app key salt kdf (po_nonce io) = Inr img" and "temp_ok io"
    and "d \<in> set dirs"
  shows "map_of d state_name = map_of dir state_name
    \<or> map_of d state_name = Some img
      \<and> (map_of d pending_name = Some (intent_bytes (previous_image st) img)
         \<or> result = DurableP \<and> d = final_dir dir dirs)"
proof (cases "d \<in> set (if result = DurableP \<and> po_unlink io then butlast dirs else dirs)")
  case True
  then show ?thesis using publish_recoverable [OF assms(1-3)] by (auto simp: recoverable_def)
next
  case False
  then have "result = DurableP" "d = last dirs" "dirs \<noteq> []"
    using assms(4) in_set_butlast_or_last [of d dirs] by (auto split: if_splits)
  then show ?thesis
    using publish_outcomes(3) [OF assms(1,3)] assms(2) by (auto simp: final_dir_def)
qed

definition ex_io :: publish_io where
  "ex_io = \<lparr>po_gate_error = False, po_nonce = replicate 12 0, po_temp = ''candidate'', po_write = Wrote,
     po_unlink_temp = True, po_intent = Wrote, po_intent_sync = True, po_rename = RenameFailed True,
     po_sync = True, po_unlink = True, po_unlink_sync = True\<rparr>"

definition ex_store :: store where
  "ex_store = \<lparr>st_key = [9], st_salt = replicate 16 0, st_kdf = kdf_current, st_current_image = None,
     st_blocked = False, st_persisted_last_time = None, st_persisted_frozen = False\<rparr>"

lemma ex_temp: "temp_ok ex_io" "temp_ok (ex_io\<lparr>po_rename := Renamed\<rparr>)"
  by (simp_all add: temp_ok_def ex_io_def state_name_def pending_name_def recovery_name_def)

theorem publication_is_crash_safe_witness:
  "\<exists>dirs d. publish_with ex_env ex_store [] ex_fresh_app [9] (replicate 16 0) kdf_current ex_io
      = (UnknownP, block ex_store, dirs) \<and> d \<in> set dirs \<and> map_of d state_name = Some ex_image
      \<and> map_of d pending_name = Some (intent_bytes [] ex_image)"
proof -
  obtain dirs where pub: "publish_with ex_env ex_store [] ex_fresh_app [9] (replicate 16 0) kdf_current ex_io
      = (UnknownP, block ex_store, dirs)" "dirs \<noteq> []" "map_of (last dirs) state_name = Some ex_image"
    using ex_seal ex_temp(1)
    by (simp add: publish_defs ex_io_def ex_store_def pending_exists_def gate_exists_def bt_contains_def
        map_of_move_file temp_ok_def del: bt_insert.simps)
  have "seal ex_env ex_fresh_app [9] (replicate 16 0) kdf_current (po_nonce ex_io) = Inr ex_image"
    using ex_seal by (simp add: ex_io_def)
  from publication_is_crash_safe [OF pub(1) this ex_temp(1), of "last dirs"] pub
  have "map_of (last dirs) pending_name = Some (intent_bytes [] ex_image)"
    by (simp add: previous_image_def ex_store_def)
  with pub last_in_set [OF pub(2)] show ?thesis by blast
qed

section \<open>Commits\<close>

lemma ready_Inr: "ready v = Inr () \<longleftrightarrow> \<not> dv_frozen v \<and> \<not> st_blocked (dv_store v)"
  by (simp add: ready_def)

lemma ready_cases: "ready v = Inr () \<or> ready v = Inl RecoveryRequired"
  by (simp add: ready_def)

lemma settle_outcomes:
  assumes "settle v candidate (publish_with env (dv_store v) (dv_dir v) candidate key salt kdf io) = (res, v')"
    and "temp_ok io" and "\<not> dv_frozen v"
  shows "(res = Inr () \<and> dv_app v' = candidate \<and> dv_frozen v' = st_blocked (dv_store v')
      \<and> (\<exists>img. seal env candidate key salt kdf (po_nonce io) = Inr img
            \<and> map_of (dv_dir v') state_name = Some img \<and> st_current_image (dv_store v') = Some img
            \<and> st_key (dv_store v') = key \<and> st_salt (dv_store v') = salt \<and> st_kdf (dv_store v') = kdf
            \<and> (\<not> st_blocked (dv_store v') \<longrightarrow> no_gate (dv_dir v'))))
    \<or> (res = Inl NotPublished \<and> dv_app v' = dv_app v \<and> dv_store v' = dv_store v \<and> dv_frozen v' = dv_frozen v
        \<and> map_of (dv_dir v') state_name = map_of (dv_dir v) state_name)
    \<or> (res = Inl RecoveryRequired \<and> dv_app v' = dv_app v \<and> ready v' = Inl RecoveryRequired)"
proof -
  obtain result st' dirs where pub:
    "publish_with env (dv_store v) (dv_dir v) candidate key salt kdf io = (result, st', dirs)"
    by (cases "publish_with env (dv_store v) (dv_dir v) candidate key salt kdf io") auto
  show ?thesis
  proof (cases result)
    case NotPublishedP
    then show ?thesis
      using assms publish_outcomes(1) [OF pub assms(2)] by (auto simp: settle_def pub Let_def)
  next
    case DurableP
    then show ?thesis
      using assms publish_outcomes(3) [OF pub assms(2)] by (auto simp: settle_def pub Let_def)
  next
    case UnknownP
    then show ?thesis
      using assms(1) by (auto simp: settle_def pub Let_def ready_def)
  qed
qed

lemma commit_cases:
  assumes com: "commit env v candidate io = (res, v')" and temp: "temp_ok io"
  shows "case res of
      Inr _ \<Rightarrow>
        v' = v\<lparr>dv_app := (dv_app v)\<lparr>app_last_time := app_last_time candidate\<rparr>\<rparr>
        \<or> (\<exists>generation img. checked_inc (app_generation (dv_app v)) = Some generation
             \<and> dv_app v' = candidate\<lparr>app_generation := generation\<rparr> \<and> validates (en_ext env) (dv_app v')
             \<and> seal env (dv_app v') (st_key (dv_store v)) (st_salt (dv_store v)) (st_kdf (dv_store v)) (po_nonce io) = Inr img
             \<and> map_of (dv_dir v') state_name = Some img \<and> st_current_image (dv_store v') = Some img)
    | Inl e \<Rightarrow> dv_app v' = dv_app v
        \<and> (map_of (dv_dir v') state_name = map_of (dv_dir v) state_name \<and> dv_store v' = dv_store v
           \<or> ready v' = Inl RecoveryRequired)"
proof (cases "ready v")
  case (Inl e)
  then have "res = Inl e" "v' = v" using com by (simp_all add: commit_def)
  then show ?thesis by simp
next
  case ready: (Inr u)
  show ?thesis
  proof (cases "\<exists>generation. checked_inc (app_generation (dv_app v)) = Some generation
      \<and> validates (en_ext env) (candidate\<lparr>app_generation := generation\<rparr>)
      \<and> settle v (candidate\<lparr>app_generation := generation\<rparr>)
          (publish env (dv_store v) (dv_dir v) (candidate\<lparr>app_generation := generation\<rparr>) io) = (res, v')")
    case True
    then obtain generation where g: "checked_inc (app_generation (dv_app v)) = Some generation"
        "validates (en_ext env) (candidate\<lparr>app_generation := generation\<rparr>)"
        "settle v (candidate\<lparr>app_generation := generation\<rparr>)
          (publish env (dv_store v) (dv_dir v) (candidate\<lparr>app_generation := generation\<rparr>) io) = (res, v')"
      by blast
    have "\<not> dv_frozen v" using ready by (simp add: ready_def split: if_splits)
    from settle_outcomes [OF g(3) [unfolded publish_def] temp this] g(1,2) show ?thesis by auto
  next
    case False
    then show ?thesis
      using com unfolding commit_def ready
      by (auto simp: validate_def Let_def split: sum.splits if_splits option.splits)
  qed
qed

text \<open>
  A commit is all or nothing. If it succeeds, either only the clock moved (in memory, nothing
  written) or the state file is the sealed, validated candidate of the next generation and the owner
  holds exactly that state. If it fails, the owner's state is unchanged, and either the state file is
  too or the owner is frozen and refuses everything until recovery.
\<close>

theorem commit_is_atomic:
  assumes com: "commit env v candidate io = (res, v')" and temp: "temp_ok io"
  shows "case res of
      Inr _ \<Rightarrow>
        v' = v\<lparr>dv_app := (dv_app v)\<lparr>app_last_time := app_last_time candidate\<rparr>\<rparr>
        \<or> (\<exists>generation img. checked_inc (app_generation (dv_app v)) = Some generation
             \<and> dv_app v' = candidate\<lparr>app_generation := generation\<rparr> \<and> validates (en_ext env) (dv_app v')
             \<and> seal env (dv_app v') (st_key (dv_store v)) (st_salt (dv_store v)) (st_kdf (dv_store v)) (po_nonce io) = Inr img
             \<and> map_of (dv_dir v') state_name = Some img \<and> st_current_image (dv_store v') = Some img)
    | Inl e \<Rightarrow> dv_app v' = dv_app v
        \<and> (map_of (dv_dir v') state_name = map_of (dv_dir v) state_name \<and> dv_store v' = dv_store v
           \<or> ready v' = Inl RecoveryRequired)"
  by (rule commit_cases [OF assms])

definition ex_vault_owner :: vault where
  "ex_vault_owner = \<lparr>dv_app = ex_fresh_app,
     dv_store = ex_store\<lparr>st_current_image := Some ex_image\<rparr>, dv_frozen = False,
     dv_dir = [(state_name, ex_image)]\<rparr>"

theorem commit_is_atomic_witness:
  "dv_app (snd (commit ex_env ex_vault_owner ex_fresh_app ex_io)) = ex_fresh_app"
proof -
  let ?out = "commit ex_env ex_vault_owner ex_fresh_app ex_io"
  have enc: "encode (en_ext ex_env) (en_json ex_env) ex_fresh_app = Inr [7]"
    using ex_fresh_valid [of "en_ext ex_env"] by (simp add: encode_def validate_def ex_env_def max_plaintext_def)
  have same: "ex_fresh_app\<lparr>app_last_time := None, app_generation := 1\<rparr> = ex_fresh_app"
    by (simp add: ex_fresh_app_def default_application_def)
  have out: "?out = (Inr (), ex_vault_owner)"
    using enc same
    by (simp add: commit_def ready_def ex_vault_owner_def ex_store_def clock_only_difference_def max_time_def
        Let_def)
       (simp add: ex_fresh_app_def default_application_def clock_due_def)
  show ?thesis
    using commit_is_atomic [OF out ex_temp(1)] out
    by (auto simp: ex_vault_owner_def ex_fresh_app_def default_application_def checked_inc_def split: if_splits)
qed

text \<open>
  A frozen owner does nothing. Once an outcome on disk is unknown, every operation, whatever it is,
  returns the recovery error and changes neither the owner nor the directory.
\<close>

theorem frozen_owner_refuses:
  assumes "dv_frozen v \<or> st_blocked (dv_store v)"
  shows "apply_op env v operation io = (Inl RecoveryRequired, v)
    \<and> rekey env v admin mnemonic salt io = (Inl RecoveryRequired, v)
    \<and> validate_consumer v ctx tid service origin now = Inl RecoveryRequired
    \<and> vault_audit_events v ctx = Inl RecoveryRequired"
  using assms by (simp add: apply_op_def rekey_def validate_consumer_def vault_audit_events_def ready_def)

theorem frozen_owner_refuses_witness:
  "vault_audit_events (ex_vault_owner\<lparr>dv_frozen := True\<rparr>) (from_authenticated_admin ''o'' ''p'' ''w'') = Inl RecoveryRequired"
proof -
  have "dv_frozen (ex_vault_owner\<lparr>dv_frozen := True\<rparr>) \<or> st_blocked (dv_store (ex_vault_owner\<lparr>dv_frozen := True\<rparr>))"
    by simp
  from frozen_owner_refuses [OF this] show ?thesis by blast
qed

end
