(* ===== verification/Compaction_Facts.thy ===== *)
theory Compaction_Facts
  imports Compaction
begin

text \<open>
  What compaction keeps of the baselines. A flag of a baseline that folding receipts leaves alone and
  that sealing can only set survives every loop of \<open>compact\<close>; the locale states that contract, and
  the two flags of the code, the dispatched registration and the verified login, are its instances.
\<close>

definition flag_sealed :: "(record_baseline \<Rightarrow> bool) \<Rightarrow> application \<Rightarrow> uuid \<Rightarrow> bool" where
  "flag_sealed flag app rid \<longleftrightarrow> (\<exists>b. map_of (app_baselines app) rid = Some b \<and> flag b)"

lemma map_of_fold_remove: "map_of (fold bt_remove ks m) k = (if k \<in> set ks then None else map_of m k)"
  by (induction ks arbitrary: m) auto

lemma map_of_retain_Some: "map_of m k = Some v \<Longrightarrow> P k v \<Longrightarrow> map_of (bt_retain P m) k = Some v"
  by (induction m) (auto simp: bt_retain_def split: if_splits)

section \<open>The tables each loop leaves alone\<close>

lemma compact_receipts_tables:
  "app_records (compact_receipts x app) = app_records app"
  "app_deliveries (compact_receipts x app) = app_deliveries app"
  by (simp_all add: compact_receipts_def Let_def)

lemma compact_grant_tables:
  "app_records (compact_grant x app) = app_records app"
  "app_deliveries (compact_grant x app) = app_deliveries app"
  by (simp_all add: compact_grant_def Let_def split: option.split)

lemma seal_delivery_tables:
  "app_records (seal_delivery app d) = app_records app"
  "app_deliveries (seal_delivery app d) = app_deliveries app"
  by (auto simp: seal_delivery_def Let_def)

lemma compact_delivery_records: "app_records (compact_delivery x app) = app_records app"
  by (simp add: compact_delivery_def seal_delivery_tables Let_def split: option.split)

lemma fold_compact_tables:
  "app_records (fold compact_receipts xs app) = app_records app"
  "app_deliveries (fold compact_receipts xs app) = app_deliveries app"
  "app_records (fold compact_grant xs app) = app_records app"
  "app_deliveries (fold compact_grant xs app) = app_deliveries app"
  "app_records (fold compact_delivery xs app) = app_records app"
  by (induction xs arbitrary: app)
     (simp_all add: compact_receipts_tables compact_grant_tables compact_delivery_records)

text \<open>The state after the three loops over receipts, grants and deliveries.\<close>

definition compact_loops :: "application \<Rightarrow> application" where
  "compact_loops app =
     (let app = fold compact_receipts (bt_keys (app_records app)) app;
          app = fold compact_grant (bt_keys (app_grants app)) app
      in fold compact_delivery (bt_keys (app_deliveries app)) app)"

lemma compact_loops_tail:
  "compact app = compact_baselines (compact_audit (compact_tasks (compact_records (compact_loops app))))"
  by (simp add: compact_def compact_loops_def Let_def)

lemma compact_loops_records: "app_records (compact_loops app) = app_records app"
  by (simp add: compact_loops_def Let_def fold_compact_tables)

lemma compact_tail_tables:
  "app_records (compact_audit (compact_tasks app)) = app_records app"
  "app_deliveries (compact_audit (compact_tasks app)) = app_deliveries app"
  "app_baselines (compact_audit (compact_tasks app)) = app_baselines app"
  by (simp_all add: compact_audit_def compact_tasks_def Let_def)

lemma compact_records_live:
  "app_records (compact app) = app_records (compact_records (compact_loops app))"
  by (simp add: compact_loops_tail compact_baselines_def compact_tail_tables)

lemma compact_records_Some:
  assumes "map_of (app_records (compact app)) rid = Some r"
  shows "map_of (app_records app) rid = Some r"
  using assms unfolding compact_records_live
  by (simp add: compact_records_def Let_def map_of_fold_remove compact_loops_records split: if_splits)

section \<open>A flag of the baselines\<close>

locale baseline_flag =
  fixes flag :: "record_baseline \<Rightarrow> bool"
  assumes flag_receipt: "flag (fold_receipt m b) = flag b"
    and flag_pruned: "flag (b\<lparr>rb_pruned_grants := gs\<rparr>) = flag b"
    and flag_register: "flag b \<Longrightarrow> flag (b\<lparr>rb_registration_dispatched := True\<rparr>)"
    and flag_login: "flag b \<Longrightarrow> flag (b\<lparr>rb_verified_login := True\<rparr>)"
    and flag_kept: "flag b \<Longrightarrow> bt_contains (app_records app) rid \<Longrightarrow> baseline_kept app rid b"
begin

lemma flag_receipts: "flag (fold (\<lambda>(key, m). fold_receipt m) ms b) = flag b"
  by (induction ms arbitrary: b) (simp_all add: flag_receipt split: prod.split)

lemma sealed_receipts:
  assumes "flag_sealed flag app rid"
  shows "flag_sealed flag (compact_receipts x app) rid"
proof -
  obtain b where b: "map_of (app_baselines app) rid = Some b" "flag b"
    using assms by (auto simp: flag_sealed_def)
  then have "flag (fold (\<lambda>(key, m). fold_receipt m) ms (baseline_or_default app rid))"
    for ms :: "(request_key \<times> remembered) list"
    unfolding flag_receipts by (simp add: baseline_or_default_def)
  then show ?thesis
    using b by (cases "x = rid") (simp_all add: compact_receipts_def flag_sealed_def Let_def flag_pruned)
qed

lemma sealed_grant: "flag_sealed flag app rid \<Longrightarrow> flag_sealed flag (compact_grant x app) rid"
  by (cases "map_of (app_grants app) x") (auto simp: compact_grant_def flag_sealed_def Let_def flag_pruned)

lemma sealed_seal:
  assumes "flag_sealed flag app rid"
  shows "flag_sealed flag (seal_delivery app d) rid"
  using assms
  by (auto simp: seal_delivery_def flag_sealed_def baseline_or_default_def Let_def flag_register flag_login)

lemma sealed_delivery: "flag_sealed flag app rid \<Longrightarrow> flag_sealed flag (compact_delivery x app) rid"
  using sealed_seal by (auto simp: compact_delivery_def flag_sealed_def Let_def split: option.splits)

lemma sealed_folds:
  "flag_sealed flag app rid \<Longrightarrow> flag_sealed flag (fold compact_receipts xs app) rid"
  "flag_sealed flag app rid \<Longrightarrow> flag_sealed flag (fold compact_grant xs app) rid"
  "flag_sealed flag app rid \<Longrightarrow> flag_sealed flag (fold compact_delivery xs app) rid"
  by (induction xs arbitrary: app) (simp_all add: sealed_receipts sealed_grant sealed_delivery)

lemma sealed_tail:
  assumes sealed: "flag_sealed flag app rid"
    and live: "bt_contains (app_records (compact_records app)) rid"
    and clean: "\<And>b. flag b \<Longrightarrow> flag (clean_baseline (compact_audit (compact_tasks (compact_records app))) rid b)"
  shows "flag_sealed flag (compact_baselines (compact_audit (compact_tasks (compact_records app)))) rid"
proof -
  let ?a = "compact_audit (compact_tasks (compact_records app))"
  obtain b where b: "map_of (app_baselines app) rid = Some b" "flag b"
    using sealed unfolding flag_sealed_def by blast
  have "map_of (app_baselines ?a) rid = Some b"
    using b(1) live unfolding compact_tail_tables unfolding compact_records_def Let_def
    by (simp add: map_of_fold_remove bt_contains_def split: if_splits)
  moreover have "baseline_kept ?a rid (clean_baseline ?a rid b)"
    using live by (intro flag_kept clean b(2)) (simp add: compact_tail_tables)
  ultimately have "map_of (app_baselines (compact_baselines ?a)) rid = Some (clean_baseline ?a rid b)"
    by (simp add: compact_baselines_def map_of_retain_Some)
  then show ?thesis using clean [OF b(2)] by (simp add: flag_sealed_def)
qed

lemma sealed_loops: "flag_sealed flag app rid \<Longrightarrow> flag_sealed flag (compact_loops app) rid"
  by (simp add: compact_loops_def Let_def sealed_folds)

end

interpretation registered: baseline_flag rb_registration_dispatched
  by unfold_locales
     (simp_all add: fold_receipt_def baseline_kept_def Let_def split: cached_kind.splits option.splits)

interpretation logged_in: baseline_flag rb_verified_login
  by unfold_locales
     (simp_all add: fold_receipt_def baseline_kept_def Let_def split: cached_kind.splits option.splits)

text \<open>A sealed login stays sealed for as long as the record is kept as verified.\<close>

lemma compact_keeps_login:
  assumes sealed: "flag_sealed rb_verified_login app rid"
    and live: "map_of (app_records (compact app)) rid = Some r" and "vr_signup r = SVerifiedLogin"
  shows "flag_sealed rb_verified_login (compact app) rid"
  unfolding compact_loops_tail
proof (rule logged_in.sealed_tail [OF logged_in.sealed_loops [OF sealed]])
  have r: "map_of (app_records (compact_records (compact_loops app))) rid = Some r"
    using live by (simp add: compact_records_live)
  then show "bt_contains (app_records (compact_records (compact_loops app))) rid" by (simp add: bt_contains_def)
  show "rb_verified_login
      (clean_baseline (compact_audit (compact_tasks (compact_records (compact_loops app)))) rid b)"
    if "rb_verified_login b" for b
    using that r assms(3) by (simp add: clean_baseline_def compact_tail_tables Let_def)
qed

end
