(* ===== verification/Workflow_Properties.thy ===== *)
theory Workflow_Properties
  imports Workflow Store_Properties Policy_Properties Compaction_Facts Example_Vault
begin

text \<open>
  Properties of private delivery: nothing is handed to an adapter before its intent is on disk and
  its authority has been checked at the handoff, and a registration is dispatched at most once.
\<close>

section \<open>What a successful step stored\<close>

lemma commit_Inr:
  assumes com: "commit env v candidate io = (Inr (), v')" and temp: "temp_ok io"
  obtains (clock_only) "clock_only_difference (en_ext env) (en_json env) (dv_app v) candidate = Inr True"
      "v' = v\<lparr>dv_app := (dv_app v)\<lparr>app_last_time := app_last_time candidate\<rparr>\<rparr>"
    | (published) generation img where "checked_inc (app_generation (dv_app v)) = Some generation"
      "dv_app v' = candidate\<lparr>app_generation := generation\<rparr>"
      "seal env (dv_app v') (st_key (dv_store v)) (st_salt (dv_store v)) (st_kdf (dv_store v)) (po_nonce io) = Inr img"
      "map_of (dv_dir v') state_name = Some img"
proof (cases "clock_only_difference (en_ext env) (en_json env) (dv_app v) candidate = Inr True
    \<and> v' = v\<lparr>dv_app := (dv_app v)\<lparr>app_last_time := app_last_time candidate\<rparr>\<rparr>")
  case True
  then show ?thesis using clock_only by blast
next
  case False
  have ready: "ready v = Inr ()" using com ready_cases [of v] by (auto simp: commit_def)
  obtain generation where g: "checked_inc (app_generation (dv_app v)) = Some generation"
      "settle v (candidate\<lparr>app_generation := generation\<rparr>)
          (publish env (dv_store v) (dv_dir v) (candidate\<lparr>app_generation := generation\<rparr>) io) = (Inr (), v')"
    using com False unfolding commit_def ready
    by (auto simp: Let_def split: sum.splits if_splits option.splits)
  have "\<not> dv_frozen v" using ready by (simp add: ready_def split: if_splits)
  from settle_outcomes [OF g(2) [unfolded publish_def] temp this] g(1) show ?thesis
    using published by auto
qed

text \<open>States that encode to the same bytes agree on everything a snapshot holds.\<close>

lemma encode_inject:
  assumes "json_correct js" and "encode ext js a = Inr bytes" and "encode ext js b = Inr bytes"
  shows "snapshot_of a = snapshot_of b"
proof -
  have "js_encode js (snapshot_of a) = Some bytes" "js_encode js (snapshot_of b) = Some bytes"
    using assms(2,3) by (auto simp: encode_def split: sum.splits option.splits if_splits)
  then have "js_decode js bytes = Some (snapshot_of a)" "js_decode js bytes = Some (snapshot_of b)"
    using assms(1) unfolding json_correct_def by blast+
  then show ?thesis by simp
qed

lemma clock_only_deliveries:
  assumes "json_correct js" and "clock_only_difference ext js a b = Inr True"
  shows "app_deliveries a = app_deliveries b"
proof -
  let ?high = "max_time (app_last_time a) (app_last_time b)"
  let ?a = "a\<lparr>app_last_time := ?high, app_generation := 1\<rparr>" and ?b = "b\<lparr>app_last_time := ?high, app_generation := 1\<rparr>"
  obtain bytes where "encode ext js ?a = Inr bytes" "encode ext js ?b = Inr bytes"
    using assms(2) by (auto simp: clock_only_difference_def Let_def split: sum.splits)
  from arg_cong [OF encode_inject [OF assms(1) this], of sn_deliveries] show ?thesis
    by (simp add: snapshot_of_def)
qed

lemma prepare_use_None:
  assumes "prepare_use ctx tid request fp attempt now app = (Inr None, app')"
  obtains d where "map_of (app_deliveries app') attempt = Some d" "da_status d = None" "da_dispatched d"
    "da_key d = RequestKey (ctx_owner ctx) (ctx_principal ctx) tid (pu_request request)"
    "da_record d = pu_record request" "da_action d = pu_action request"
  using assms
  by (auto simp: prepare_use_def set_signup_def new_attempt_def repeat_delivery_def Let_def
      split: sum.splits prod.splits if_splits option.splits)

lemma apply_op_Inr:
  assumes "apply_op env v operation io = (Inr x, v')"
  obtains candidate candidate' where
    "candidate = (if should_compact (dv_app v) then compact (dv_app v) else dv_app v)"
    "operation candidate = (Inr x, candidate')" "commit env v candidate' io = (Inr (), v')"
  using assms by (auto simp: apply_op_def Let_def split: sum.splits prod.splits)

lemma use_secret_handed:
  assumes "use_secret env v ctx tid request now1 now2 deliver attempt io1 io2 = (res, v', Some values)"
  obtains bytes v1 eff app where "ex_use_json (en_ext env) request = Some bytes"
    "apply_op env v (prepare_use ctx tid request (ex_sha256 (en_ext env) bytes) attempt now1) io1 = (Inr None, v1)"
    "authorize_handoff ctx tid request now2 (dv_app v1) = (Inr (values, eff), app)"
    "deliver_and_store env (v1\<lparr>dv_app := app\<rparr>) ctx tid request attempt values eff deliver io2 = (res, v')"
  using assms
  by (auto simp: use_secret_def Let_def split: option.splits sum.splits prod.splits)


section \<open>Registration\<close>

subsection \<open>Compaction keeps the evidence\<close>

definition base_sealed :: "application \<Rightarrow> uuid \<Rightarrow> bool" where
  "base_sealed app rid \<longleftrightarrow> (\<exists>b. map_of (app_baselines app) rid = Some b \<and> rb_registration_dispatched b)"

definition delivery_sealed :: "application \<Rightarrow> uuid \<Rightarrow> bool" where
  "delivery_sealed app rid \<longleftrightarrow>
     (\<exists>d \<in> snd ` set (app_deliveries app). da_record d = rid \<and> da_action d = ActRegister \<and> da_dispatched d)"

lemma registration_sealed_iff: "registration_sealed app rid \<longleftrightarrow> base_sealed app rid \<or> delivery_sealed app rid"
  by (auto simp: registration_sealed_def base_sealed_def delivery_sealed_def list_ex_iff split: option.splits)

lemma base_sealed_flag: "base_sealed app rid \<longleftrightarrow> flag_sealed rb_registration_dispatched app rid"
  by (simp add: base_sealed_def flag_sealed_def)

lemma seal_delivery_facts:
  "base_sealed app rid \<Longrightarrow> base_sealed (seal_delivery app d) rid"
  "da_action d = ActRegister \<Longrightarrow> da_dispatched d \<Longrightarrow> bt_contains (app_records app) (da_record d) \<Longrightarrow>
     base_sealed (seal_delivery app d) (da_record d)"
  by (simp_all add: base_sealed_flag registered.sealed_seal)
     (auto simp: seal_delivery_def flag_sealed_def baseline_or_default_def Let_def)

lemma compact_delivery_sealed:
  assumes "bt_wf (app_deliveries app)"
  shows "bt_wf (app_deliveries (compact_delivery x app))"
    and "registration_sealed app rid \<Longrightarrow> bt_contains (app_records app) rid \<Longrightarrow>
      registration_sealed (compact_delivery x app) rid"
proof -
  show "bt_wf (app_deliveries (compact_delivery x app))"
    using assms by (simp add: compact_delivery_def seal_delivery_tables Let_def split: option.splits)
  assume sealed: "registration_sealed app rid" and live: "bt_contains (app_records app) rid"
  show "registration_sealed (compact_delivery x app) rid"
  proof (cases "compact_delivery x app = app")
    case False
    then obtain d where d: "map_of (app_deliveries app) x = Some d"
        "compact_delivery x app = (seal_delivery app d)\<lparr>app_deliveries := bt_remove x (app_deliveries app)\<rparr>"
      by (auto simp: compact_delivery_def Let_def seal_delivery_tables split: option.splits if_splits)
    show ?thesis
    proof (cases "base_sealed app rid \<or> da_record d = rid \<and> da_action d = ActRegister \<and> da_dispatched d")
      case True
      then have "base_sealed (seal_delivery app d) rid" using live seal_delivery_facts by auto
      then show ?thesis by (simp add: d(2) registration_sealed_iff base_sealed_def)
    next
      case no: False
      then obtain y e where "(y, e) \<in> set (app_deliveries app)" "da_record e = rid" "da_action e = ActRegister" "da_dispatched e"
        using sealed by (auto simp: registration_sealed_iff delivery_sealed_def)
      moreover from this have "y \<noteq> x" using d(1) assms no by (auto simp: bt_mem_iff)
      ultimately show ?thesis
        by (force simp: d(2) registration_sealed_iff delivery_sealed_def bt_remove_def)
    qed
  qed (use sealed in simp)
qed

lemma compact_tail_sealed:
  assumes "registration_sealed app rid" and "bt_contains (app_records (compact_records app)) rid"
  shows "registration_sealed (compact_baselines (compact_audit (compact_tasks (compact_records app)))) rid"
proof -
  let ?a = "compact_baselines (compact_audit (compact_tasks (compact_records app)))"
  have "base_sealed ?a rid" if "base_sealed app rid"
    using registered.sealed_tail [OF that [unfolded base_sealed_flag] assms(2)]
    by (simp add: base_sealed_flag clean_baseline_def Let_def)
  moreover have "app_deliveries ?a = app_deliveries app"
    by (simp add: compact_baselines_def compact_tail_tables compact_records_def Let_def)
  then have "delivery_sealed ?a rid = delivery_sealed app rid" by (simp add: delivery_sealed_def)
  ultimately show ?thesis using assms(1) by (auto simp: registration_sealed_iff)
qed

lemma fold_compact_delivery_sealed:
  assumes "bt_wf (app_deliveries app)"
  shows "registration_sealed app rid \<Longrightarrow> bt_contains (app_records app) rid \<Longrightarrow>
      registration_sealed (fold compact_delivery xs app) rid"
  using assms by (induction xs arbitrary: app) (simp_all add: compact_delivery_sealed compact_delivery_records)

lemma compact_keeps_registration_sealed:
  assumes wf: "bt_wf (app_deliveries app)" and sealed: "registration_sealed app rid"
    and live: "bt_contains (app_records (compact app)) rid"
  shows "registration_sealed (compact app) rid"
proof -
  let ?a1 = "fold compact_receipts (bt_keys (app_records app)) app"
  let ?a2 = "fold compact_grant (bt_keys (app_grants ?a1)) ?a1"
  have "bt_wf (app_deliveries ?a2)" by (simp add: fold_compact_tables wf)
  moreover have "registration_sealed ?a2 rid"
    using sealed by (auto simp: registration_sealed_iff delivery_sealed_def base_sealed_flag
        fold_compact_tables registered.sealed_folds)
  moreover have live': "bt_contains (app_records (compact_records (compact_loops app))) rid"
    using live unfolding compact_records_live .
  moreover from this have "bt_contains (app_records ?a2) rid"
    by (simp add: compact_records_def Let_def bt_contains_def map_of_fold_remove compact_loops_records
        fold_compact_tables split: if_splits)
  ultimately have "registration_sealed (compact_loops app) rid"
    by (simp add: compact_loops_def Let_def fold_compact_delivery_sealed)
  from compact_tail_sealed [OF this live'] show ?thesis by (simp add: compact_loops_tail)
qed

lemma compact_deliveries_wf:
  assumes "bt_wf (app_deliveries app)"
  shows "bt_wf (app_deliveries (compact app))"
proof -
  have fold: "bt_wf (app_deliveries (fold compact_delivery xs a))" if "bt_wf (app_deliveries a)" for xs a
    using that by (induction xs arbitrary: a) (simp_all add: compact_delivery_sealed)
  have "app_deliveries (compact_baselines (compact_audit (compact_tasks (compact_records a)))) = app_deliveries a" for a
    by (simp add: compact_baselines_def compact_audit_def compact_tasks_def compact_records_def Let_def)
  then show ?thesis
    using assms by (simp add: compact_def Let_def fold fold_compact_tables)
qed

subsection \<open>One dispatch per record\<close>

text \<open>A record whose registration is over: it was dispatched, or the record is gone.\<close>

definition registration_closed :: "application \<Rightarrow> uuid \<Rightarrow> bool" where
  "registration_closed app rid \<longleftrightarrow> registration_sealed app rid \<or> \<not> bt_contains (app_records app) rid"

lemma closed_frame [simp]:
  "registration_closed (app\<lparr>app_last_time := t\<rparr>) rid = registration_closed app rid"
  "registration_closed (app\<lparr>app_generation := g\<rparr>) rid = registration_closed app rid"
  "registration_closed (app\<lparr>app_clock_frozen := b\<rparr>) rid = registration_closed app rid"
  by (simp_all add: registration_closed_def registration_sealed_def)

lemma clock_closed: "clock app now = (res, app') \<Longrightarrow> registration_closed app' rid = registration_closed app rid"
  by (auto simp: clock_def split: sum.splits if_splits)

lemma prepare_use_closed:
  assumes "registration_closed app (pu_record request)" and "pu_action request = ActRegister"
  shows "fst (prepare_use ctx tid request fp attempt now app) \<noteq> Inr None"
proof -
  obtain res app' where c: "clock app now = (res, app')" by (cases "clock app now") auto
  have "registration_closed app' (pu_record request)" using assms(1) clock_closed [OF c] by simp
  then consider "registration_sealed app' (pu_record request)" | "record_of app' ctx (pu_record request) = Inl Denied"
    by (auto simp: registration_closed_def record_of_def bt_contains_def)
  then show ?thesis
  proof cases
    case 1
    then show ?thesis
      using assms(2) unfolding prepare_use_def c
      by (simp add: repeat_delivery_def Let_def split: sum.split prod.split option.split)
  next
    case 2
    then show ?thesis
      using assms(2) unfolding prepare_use_def c by (simp add: Let_def split: sum.split)
  qed
qed

lemma compact_closed:
  assumes "bt_wf (app_deliveries app)" and "registration_closed app rid"
  shows "registration_closed (compact app) rid"
proof -
  have "bt_contains (app_records app) rid" if "bt_contains (app_records (compact app)) rid"
    using that compact_records_Some [of app rid]
    by (cases "map_of (app_records (compact app)) rid") (auto simp: bt_contains_def)
  then show ?thesis
    using assms compact_keeps_registration_sealed by (auto simp: registration_closed_def)
qed

lemma commit_app:
  assumes "commit env v candidate io = (res, v')" and "temp_ok io"
  shows "(\<exists>t. dv_app v' = (dv_app v)\<lparr>app_last_time := t\<rparr>)
    \<or> (\<exists>generation. dv_app v' = candidate\<lparr>app_generation := generation\<rparr>)"
proof -
  have "\<exists>t. dv_app v' = (dv_app v)\<lparr>app_last_time := t\<rparr>" if "dv_app v' = dv_app v"
    using that by (intro exI [of _ "app_last_time (dv_app v)"]) simp
  then show ?thesis using commit_cases [OF assms] by (auto split: sum.splits)
qed

lemma apply_op_app:
  assumes "apply_op env v operation io = (res, v')" and "temp_ok io"
  shows "(\<exists>t. dv_app v' = (dv_app v)\<lparr>app_last_time := t\<rparr>)
    \<or> (\<exists>g. dv_app v' = (snd (operation (if should_compact (dv_app v) then compact (dv_app v) else dv_app v)))
          \<lparr>app_generation := g\<rparr>)"
proof (cases "ready v")
  case (Inl e)
  then have "dv_app v' = (dv_app v)\<lparr>app_last_time := app_last_time (dv_app v)\<rparr>"
    using assms(1) by (simp add: apply_op_def)
  then show ?thesis by blast
next
  case (Inr u)
  let ?c = "if should_compact (dv_app v) then compact (dv_app v) else dv_app v"
  obtain r where "commit env v (snd (operation ?c)) io = (r, v')"
    using assms(1) unfolding apply_op_def Inr by (auto simp: Let_def split: sum.splits prod.splits)
  from commit_app [OF this assms(2)] show ?thesis .
qed

lemma apply_op_closed:
  assumes "apply_op env v operation io = (res, v')" and "temp_ok io"
    and "bt_wf (app_deliveries (dv_app v))" and "registration_closed (dv_app v) rid"
    and keeps: "\<And>app. registration_closed app rid \<Longrightarrow> registration_closed (snd (operation app)) rid"
  shows "registration_closed (dv_app v') rid"
  using apply_op_app [OF assms(1,2)] keeps [OF compact_closed [OF assms(3,4)]] keeps [OF assms(4)] assms(4)
  by (auto split: if_splits)

lemma finish_use_closed:
  assumes "registration_closed app rid"
  shows "registration_closed (snd (finish_use ctx tid request attempt status at app)) rid"
proof -
  let ?app = "snd (finish_use ctx tid request attempt status at app)"
  have tables: "app_baselines ?app = app_baselines app" "bt_contains (app_records ?app) rid = bt_contains (app_records app) rid"
    "app_deliveries ?app = bt_modify attempt (\<lambda>d. d\<lparr>da_status := Some status\<rparr>) (app_deliveries app)
       \<or> app_deliveries ?app = app_deliveries app"
    by (simp_all add: finish_use_def set_signup_def audit_push_def bt_contains_def Let_def split: option.split)
  have "delivery_sealed ?app rid" if sealed: "delivery_sealed app rid"
  proof -
    obtain did d where d: "(did, d) \<in> set (app_deliveries app)" "da_record d = rid" "da_action d = ActRegister"
        "da_dispatched d"
      using sealed by (auto simp: delivery_sealed_def)
    have "(did, d) \<in> set (app_deliveries ?app) \<or> (did, d\<lparr>da_status := Some status\<rparr>) \<in> set (app_deliveries ?app)"
      using d(1) tables(3) by (force simp: bt_modify_def)
    then show ?thesis using d(2-4) unfolding delivery_sealed_def by force
  qed
  then show ?thesis
    using assms by (auto simp: registration_closed_def registration_sealed_iff base_sealed_def tables(1,2))
qed

lemma prepare_use_dispatches:
  assumes "prepare_use ctx tid request fp attempt now app = (Inr None, app')" and "pu_action request = ActRegister"
    and "bt_wf (app_deliveries app)"
  shows "registration_closed app' (pu_record request)" and "bt_wf (app_deliveries app')"
proof -
  obtain d where d: "map_of (app_deliveries app') attempt = Some d" "da_dispatched d"
      "da_record d = pu_record request" "da_action d = ActRegister"
    using prepare_use_None [OF assms(1)] assms(2) by metis
  then have "delivery_sealed app' (pu_record request)"
    unfolding delivery_sealed_def by (intro bexI [of _ d]) (auto dest!: map_of_SomeD intro: rev_image_eqI)
  then show "registration_closed app' (pu_record request)"
    by (simp add: registration_closed_def registration_sealed_iff)
  have "app_deliveries (snd (clock app now)) = app_deliveries app"
    by (simp add: clock_def split: sum.split)
  moreover obtain a where "app_deliveries app' = bt_insert attempt a (app_deliveries (snd (clock app now)))"
    using assms(1)
    by (auto simp: prepare_use_def set_signup_def repeat_delivery_def Let_def
        split: sum.splits prod.splits if_splits option.splits)
  ultimately show "bt_wf (app_deliveries app')" using assms(3) by simp
qed

lemma closed_hands_nothing:
  assumes "registration_closed (dv_app v) (pu_record request)" and "pu_action request = ActRegister"
    and "bt_wf (app_deliveries (dv_app v))"
  shows "snd (snd (use_secret env v ctx tid request now1 now2 deliver attempt io1 io2)) = None"
proof (rule ccontr)
  assume "snd (snd (use_secret env v ctx tid request now1 now2 deliver attempt io1 io2)) \<noteq> None"
  then obtain res v' handed where
    "use_secret env v ctx tid request now1 now2 deliver attempt io1 io2 = (res, v', Some handed)"
    by (metis not_None_eq prod.collapse)
  then obtain bytes v1 where
    "apply_op env v (prepare_use ctx tid request (ex_sha256 (en_ext env) bytes) attempt now1) io1 = (Inr None, v1)"
    by (rule use_secret_handed)
  then obtain candidate c where "candidate = (if should_compact (dv_app v) then compact (dv_app v) else dv_app v)"
      and c: "prepare_use ctx tid request (ex_sha256 (en_ext env) bytes) attempt now1 candidate = (Inr None, c)"
    by (rule apply_op_Inr)
  then have "registration_closed candidate (pu_record request)"
    using assms(1) compact_closed [OF assms(3,1)] by simp
  from prepare_use_closed [OF this assms(2)] c show False by (metis fst_conv)
qed

lemma dispatch_closes:
  assumes use: "use_secret env v ctx tid request now1 now2 deliver attempt io1 io2 = (res, v', Some values)"
    and reg: "pu_action request = ActRegister" and wf: "bt_wf (app_deliveries (dv_app v))"
    and io: "temp_ok io1" "temp_ok io2" and json: "json_correct (en_json env)"
    and fresh: "map_of (app_deliveries (dv_app v)) attempt = None"
  shows "registration_closed (dv_app v') (pu_record request) \<and> bt_wf (app_deliveries (dv_app v'))"
proof -
  obtain bytes v1 eff app where u:
    "apply_op env v (prepare_use ctx tid request (ex_sha256 (en_ext env) bytes) attempt now1) io1 = (Inr None, v1)"
    "authorize_handoff ctx tid request now2 (dv_app v1) = (Inr (values, eff), app)"
    "deliver_and_store env (v1\<lparr>dv_app := app\<rparr>) ctx tid request attempt values eff deliver io2 = (res, v')"
    by (rule use_secret_handed [OF use])
  obtain candidate c where cand: "candidate = (if should_compact (dv_app v) then compact (dv_app v) else dv_app v)"
      and c: "prepare_use ctx tid request (ex_sha256 (en_ext env) bytes) attempt now1 candidate = (Inr None, c)"
      "commit env v c io1 = (Inr (), v1)"
    by (rule apply_op_Inr [OF u(1)])
  have "bt_wf (app_deliveries candidate)" using wf by (simp add: cand compact_deliveries_wf)
  note disp = prepare_use_dispatches [OF c(1) reg this]
  have v1: "registration_closed (dv_app v1) (pu_record request) \<and> bt_wf (app_deliveries (dv_app v1))"
  proof (cases rule: commit_Inr [OF c(2) io(1)])
    case 1
    then have "app_deliveries (dv_app v) = app_deliveries c" using clock_only_deliveries [OF json] by blast
    moreover obtain d where "map_of (app_deliveries c) attempt = Some d" by (rule prepare_use_None [OF c(1)])
    ultimately show ?thesis using fresh by simp
  next
    case 2
    then show ?thesis using disp by simp
  qed
  have app: "registration_closed app (pu_record request)" "bt_wf (app_deliveries app)"
    using u(2) v1 clock_closed [of "dv_app v1" now2 _ app "pu_record request"]
    by (auto simp: authorize_handoff_def clock_def split: sum.splits if_splits prod.splits)
  obtain status r2 v2 where f: "apply_op env (v1\<lparr>dv_app := app\<rparr>) (finish_use ctx tid request attempt status eff) io2 = (r2, v2)"
      "dv_app v' = dv_app v2"
    using u(3) by (auto simp: deliver_and_store_def apply_or_freeze_def Let_def split: prod.splits sum.splits)
  have "registration_closed (dv_app v2) (pu_record request)"
    by (rule apply_op_closed [OF f(1) io(2) _ _ finish_use_closed]) (simp_all add: app)
  moreover have "bt_wf (app_deliveries (snd (finish_use ctx tid request attempt status eff a)))"
    if "bt_wf (app_deliveries a)" for a
    using that by (simp add: finish_use_def set_signup_def audit_push_def Let_def split: option.split)
  then have "bt_wf (app_deliveries (dv_app v2))"
    using apply_op_app [OF f(1) io(2)] app(2) compact_deliveries_wf [OF app(2)] by auto
  ultimately show ?thesis using f(2) by simp
qed


section \<open>A delivery, step by step\<close>

lemmas snapshot_defs = validates_def within_limits_def limit_def empty_history_def same_scope_def validate_record_def
  validate_agent_grant_def validate_grant_def entry_or_default_def note_revision_def baseline_through_def
  validate_kind_def revision_range_def validate_history_def delivery_use_def validate_delivery_def
  validate_signup_def validate_event_def insort_insert_key_def

definition ex_ready :: application where
  "ex_ready = ex_stored\<lparr>app_generation := 1\<rparr>"

definition ex_request :: private_use where
  "ex_request = \<lparr>pu_request = 21, pu_record = 51, pu_fields = {Username, Password}, pu_destination = ''dest'',
     pu_action = ActRegister\<rparr>"

definition ex_open :: application where
  "ex_open = set_signup 51 SSubmitted (ex_ready\<lparr>app_last_time := Some 102,
     app_deliveries := [(71, new_attempt 7 ex_request 1 (ex_key 21) [2] 102)]\<rparr>)"

definition ex_json :: json_codec where
  "ex_json = \<lparr>js_encode = (\<lambda>s. if s = snapshot_of (ex_ready\<lparr>app_last_time := Some 102\<rparr>) then Some [0]
       else if s = snapshot_of ex_open then Some [1]
       else if s = snapshot_of (ex_open\<lparr>app_generation := 2\<rparr>) then Some [2] else None),
     js_decode = (\<lambda>b. if b = [0] then Some (snapshot_of (ex_ready\<lparr>app_last_time := Some 102\<rparr>))
       else if b = [1] then Some (snapshot_of ex_open)
       else if b = [2] then Some (snapshot_of (ex_open\<lparr>app_generation := 2\<rparr>)) else None)\<rparr>"

definition ex_use_env :: environment where
  "ex_use_env = ex_env\<lparr>en_json := ex_json\<rparr>"

lemma ex_json_correct: "json_correct (en_json ex_use_env)"
  by (simp add: json_correct_def ex_use_env_def ex_json_def)

lemma ex_ready_valid: "validates (en_ext ex_env) (ex_ready\<lparr>app_last_time := Some 102\<rparr>)"
  by (simp add: ex_ready_def ex_defs vault_defs ex_env_def snapshot_defs)

lemmas ex_use_defs = ex_open_def ex_ready_def ex_request_def new_attempt_def set_signup_def ex_defs vault_defs

lemma ex_open_valid: "0 < g \<Longrightarrow> validates (en_ext ex_env) (ex_open\<lparr>app_generation := g\<rparr>)"
  by (simp add: ex_use_defs ex_env_def snapshot_defs)

lemma ex_open_same: "ex_open\<lparr>app_generation := 1\<rparr> = ex_open"
  "ex_open\<lparr>app_last_time := Some 102, app_generation := 1\<rparr> = ex_open"
  "ex_ready\<lparr>app_last_time := Some 102, app_generation := 1\<rparr> = ex_ready\<lparr>app_last_time := Some 102\<rparr>"
  by (simp_all add: ex_open_def ex_ready_def set_signup_def)

lemma ex_snapshots_differ: "snapshot_of ex_open \<noteq> snapshot_of (ex_ready\<lparr>app_last_time := Some 102\<rparr>)"
  "snapshot_of (ex_open\<lparr>app_generation := 2\<rparr>) \<noteq> snapshot_of (ex_ready\<lparr>app_last_time := Some 102\<rparr>)"
  "snapshot_of (ex_open\<lparr>app_generation := 2\<rparr>) \<noteq> snapshot_of ex_open"
  by (simp_all add: snapshot_of_def ex_open_def ex_ready_def set_signup_def ex_defs)

lemma ex_encode:
  "encode (en_ext ex_env) ex_json (ex_ready\<lparr>app_last_time := Some 102\<rparr>) = Inr [0]"
  "encode (en_ext ex_env) ex_json ex_open = Inr [1]"
  "encode (en_ext ex_env) ex_json (ex_open\<lparr>app_generation := 2\<rparr>) = Inr [2]"
proof -
  have "validates (en_ext ex_env) ex_open"
    using ex_open_valid [of 1] by (simp add: ex_open_same)
  then show "encode (en_ext ex_env) ex_json ex_open = Inr [1]"
    using ex_snapshots_differ by (simp add: encode_def validate_def max_plaintext_def ex_json_def)
  show "encode (en_ext ex_env) ex_json (ex_ready\<lparr>app_last_time := Some 102\<rparr>) = Inr [0]"
    using ex_ready_valid by (simp add: encode_def validate_def max_plaintext_def ex_json_def)
  show "encode (en_ext ex_env) ex_json (ex_open\<lparr>app_generation := 2\<rparr>) = Inr [2]"
    using ex_open_valid [of 2] ex_snapshots_differ by (simp add: encode_def validate_def max_plaintext_def ex_json_def)
qed

definition ex_owner :: vault where
  "ex_owner = \<lparr>dv_app = ex_ready, dv_store = ex_store\<lparr>st_current_image := Some ex_image\<rparr>, dv_frozen = False,
     dv_dir = [(state_name, ex_image)]\<rparr>"

lemma ex_prepare:
  "prepare_use ex_agent 7 ex_request [2] 71 102 ex_ready = (Inr None, ex_open)"
  "should_compact ex_ready = False"
  by (simp_all add: ex_use_defs prepare_use_def find_delivery_def registration_sealed_def should_compact_def
      compact_at_def stale_def retry_window_def)

lemma ex_commit:
  "\<exists>v1. commit ex_use_env ex_owner ex_open (ex_io\<lparr>po_rename := Renamed\<rparr>) = (Inr (), v1) \<and> ready v1 = Inr ()
     \<and> dv_app v1 = ex_open\<lparr>app_generation := 2\<rparr>"
proof -
  have times: "app_last_time ex_ready = Some 101" "app_last_time ex_open = Some 102" "app_generation ex_ready = 1"
    by (simp_all add: ex_ready_def ex_open_def ex_stored_def set_signup_def)
  have diff: "clock_only_difference (en_ext ex_env) ex_json ex_ready ex_open = Inr False"
    using ex_encode by (simp add: clock_only_difference_def max_time_def times ex_open_same)
  have "\<exists>img. seal ex_use_env (ex_open\<lparr>app_generation := 2\<rparr>) [9] (replicate 16 0) kdf_current (replicate 12 0) = Inr img"
    using ex_encode(3)
    by (simp add: seal_def ex_use_env_def seal_plaintext_def seal_version_def encrypt_def header_v3_def Let_def
        max_plaintext_def ex_env_def)
  then obtain img where img:
    "seal ex_use_env (ex_open\<lparr>app_generation := 2\<rparr>) [9] (replicate 16 0) kdf_current (replicate 12 0) = Inr img"
    by blast
  have gen: "checked_inc (app_generation ex_ready) = Some 2" by (simp add: times checked_inc_def)
  have valid: "validate (en_ext ex_env) (ex_open\<lparr>app_generation := 2\<rparr>) = Inr ()"
    using ex_open_valid [of 2] by (simp add: validate_def)
  show ?thesis
    using diff img gen valid ex_temp(2)
    by (simp add: commit_def ready_def ex_owner_def ex_store_def ex_use_env_def settle_def publish_def publish_defs
        ex_io_def pending_exists_def gate_exists_def bt_contains_def map_of_move_file temp_ok_def
        del: bt_insert.simps)
qed

lemma ex_handoff:
  "authorize_handoff ex_agent 7 ex_request 103 (ex_open\<lparr>app_generation := 2\<rparr>)
     = (Inr (ex_values, 103), ex_open\<lparr>app_generation := 2, app_last_time := Some 103\<rparr>)"
  by (simp add: ex_use_defs authorize_handoff_def)

lemma ex_use:
  obtains res v' where "use_secret ex_use_env ex_owner ex_agent 7 ex_request 102 103 (\<lambda>_. Inr DAccepted) 71
     (ex_io\<lparr>po_rename := Renamed\<rparr>) ex_io = (res, v', Some ex_values)"
proof -
  obtain v1 where v1: "commit ex_use_env ex_owner ex_open (ex_io\<lparr>po_rename := Renamed\<rparr>) = (Inr (), v1)"
      "ready v1 = Inr ()" "dv_app v1 = ex_open\<lparr>app_generation := 2\<rparr>"
    using ex_commit by blast
  have ext: "ex_use_json (en_ext ex_use_env) ex_request = Some [2]" "ex_sha256 (en_ext ex_use_env) [2] = [2]"
    by (simp_all add: ex_use_env_def ex_env_def)
  have "ready ex_owner = Inr ()" "dv_app ex_owner = ex_ready" by (simp_all add: ready_def ex_owner_def ex_store_def)
  then have "apply_op ex_use_env ex_owner (prepare_use ex_agent 7 ex_request [2] 71 102) (ex_io\<lparr>po_rename := Renamed\<rparr>)
      = (Inr None, v1)"
    using v1(1) unfolding apply_op_def by (simp add: ex_prepare Let_def)
  then show ?thesis
    using that v1(2,3) ext ex_handoff unfolding use_secret_def
    by (cases "deliver_and_store ex_use_env (v1\<lparr>dv_app := ex_open\<lparr>app_generation := 2, app_last_time := Some 103\<rparr>\<rparr>)
        ex_agent 7 ex_request 71 ex_values 103 (\<lambda>_. Inr DAccepted) ex_io") (simp add: Let_def)
qed

lemma ex_owner_fresh: "map_of (app_deliveries (dv_app ex_owner)) 71 = None" "bt_wf (app_deliveries (dv_app ex_owner))"
  by (simp_all add: ex_owner_def ex_ready_def ex_stored_def ex_approved_def default_application_def)



end
