(* ===== verification/Compaction_Properties.thy ===== *)
theory Compaction_Properties
  imports Workflow_Properties
begin

text \<open>
  The consequence of a sealed login: once compaction has moved the evidence of a verified login into
  the baseline, the durable owner accepts no operation that takes the record out of that state.
\<close>

section \<open>Validation of a sealed login\<close>

lemma validate_baselines_login:
  assumes "validate_baselines app bs acc = Some acc'" and "(rid, b) \<in> set bs" and "rb_verified_login b"
  shows "\<exists>r. map_of (app_records app) rid = Some r \<and> vr_signup r = SVerifiedLogin"
  using assms
  by (induction app bs acc rule: validate_baselines.induct) (auto split: option.splits if_splits)

lemma sealed_login_validates:
  assumes "validates ext app" and "flag_sealed rb_verified_login app rid"
    and "map_of (app_records app) rid = Some r"
  shows "vr_signup r = SVerifiedLogin"
proof -
  obtain b where "map_of (app_baselines app) rid = Some b" "rb_verified_login b"
    using assms(2) by (auto simp: flag_sealed_def)
  moreover obtain acc where "validate_baselines app (app_baselines app) [] = Some acc"
    using assms(1) by (auto simp: validates_def split: option.splits)
  ultimately have "\<exists>r. map_of (app_records app) rid = Some r \<and> vr_signup r = SVerifiedLogin"
    by (blast intro: validate_baselines_login dest: map_of_SomeD)
  with assms(3) show ?thesis by simp
qed

text \<open>Every successful commit has validated its candidate, whatever else it did.\<close>

lemma commit_validates:
  assumes "commit env v candidate io = (Inr (), v')"
  shows "\<exists>t. validates (en_ext env) (candidate\<lparr>app_last_time := t, app_generation := 1\<rparr>)"
  using assms
  by (auto simp: commit_def clock_only_difference_def encode_def validate_def Let_def
      split: sum.splits if_splits option.splits)

lemma commit_records:
  assumes "commit env v candidate io = (res, v')"
  shows "app_records (dv_app v') = app_records (dv_app v)
    \<or> res = Inr () \<and> app_records (dv_app v') = app_records candidate"
  using assms
  by (auto simp: commit_def settle_def Let_def split: sum.splits if_splits option.splits prod.splits publication.splits)

lemma commit_sealed_login:
  assumes "commit env v candidate io = (Inr (), v')" and "flag_sealed rb_verified_login candidate rid"
    and "map_of (app_records candidate) rid = Some r"
  shows "vr_signup r = SVerifiedLogin"
proof -
  obtain t where "validates (en_ext env) (candidate\<lparr>app_last_time := t, app_generation := 1\<rparr>)"
    using commit_validates [OF assms(1)] by blast
  then show ?thesis
    by (rule sealed_login_validates [where rid = rid]) (use assms(2,3) in \<open>simp_all add: flag_sealed_def\<close>)
qed

section \<open>Compaction forgets requests and adds none\<close>

lemma compact_receipts_requests:
  assumes "map_of (app_requests app) k = None"
  shows "map_of (app_requests (compact_receipts x app)) k = None"
proof -
  have fold: "map_of (fold (\<lambda>(key, m). bt_remove key) ms rs) k = None" if "map_of rs k = None"
    for ms :: "(request_key \<times> remembered) list" and rs :: "(request_key \<times> remembered) list"
    using that by (induction ms arbitrary: rs) (simp_all split: prod.split)
  show ?thesis using fold assms by (simp add: compact_receipts_def Let_def)
qed

lemma compact_loops_requests:
  assumes "map_of (app_requests app) k = None"
  shows "map_of (app_requests (compact app)) k = None"
proof -
  have grants: "app_requests (fold compact_grant xs a) = app_requests a" for xs a
    by (induction xs arbitrary: a) (simp_all add: compact_grant_def Let_def split: option.split)
  have deliveries: "app_requests (fold compact_delivery xs a) = app_requests a" for xs a
    by (induction xs arbitrary: a)
       (simp_all add: compact_delivery_def seal_delivery_def Let_def split: option.split)
  have "map_of (app_requests (fold compact_receipts xs app)) k = None" for xs
    using assms by (induction xs arbitrary: app) (simp_all add: compact_receipts_requests)
  then show ?thesis
    by (simp add: compact_def compact_baselines_def compact_audit_def compact_tasks_def compact_records_def
        grants deliveries Let_def)
qed

section \<open>Operations that end a verified login\<close>

text \<open>A change of a credential resets the sign-up state, and a report never sets the verified state.\<close>

fun ends_login :: "uuid \<Rightarrow> mutation \<Rightarrow> bool" where
  "ends_login rid (Patch rid' expected v) = (rid' = rid \<and> changes_credential v)"
| "ends_login rid (ReportOutcome rid' expected state) = (rid' = rid)"
| "ends_login rid _ = False"

lemma ends_login_effect:
  assumes ends: "ends_login rid op" and "map_of (app_requests app) (RequestKey (ctx_owner ctx) (ctx_principal ctx) tid request) = None"
    and m: "mutate ext app ctx tid request op now fresh ent = (Inr receipt, app')"
  obtains r r' where "map_of (app_records app) rid = Some r" "map_of (app_records app') rid = Some r'"
    "vr_signup r' \<noteq> SVerifiedLogin" "app_baselines app' = app_baselines app"
proof (cases rule: mutate_cases [OF m])
  case (4 eff t bytes receipt')
  let ?a = "app\<lparr>app_last_time := Some eff\<rparr>"
  obtain op' mid where x: "authorize ?a ctx t op eff False = Inr ()" "materialize ?a op ent = Inr op'"
      "perform ?a ctx t tid op' fresh = (Inr receipt', mid)" "app_records app' = app_records mid"
    by (rule execute_cases [OF 4(9)]) (auto simp: audit_push_def)
  have "op' = op" using x(2) ends by (cases op) (auto simp: materialize_def)
  moreover have "state \<noteq> SVerifiedLogin" if "op = ReportOutcome rid e state" for e state
    using x(1) that by (auto simp: authorize_def authorize_target_def split: option.splits if_splits sum.splits)
  ultimately have "\<exists>r r'. map_of (app_records app) rid = Some r \<and> map_of (app_records app') rid = Some r'
      \<and> vr_signup r' \<noteq> SVerifiedLogin"
    using x(3,4) ends by (cases op) (auto simp: patch_record_def Let_def split: option.splits if_splits)
  then show ?thesis using that execute_frame(7) [OF 4(9)] by auto
qed (use assms in auto)

lemma mutate_refused_records:
  assumes "mutate ext app ctx tid request op now fresh ent = (Inl e, app')"
  shows "app_records app' = app_records app"
  using assms by (cases rule: mutate_cases) auto

text \<open>
  C34: After compaction has sealed a verified login, the credential of that record can no longer be
  changed. While the baseline of a verified record carries the sealed login, no new request that
  changes its credential or reports another outcome succeeds: the owner answers with an error and the
  record stays as it was, or is gone because it had been deleted. Compaction before the operation
  does not clear the seal, since the record is still verified at that point.
\<close>

theorem sealed_login_blocks_rotation:
  assumes sealed: "flag_sealed rb_verified_login (dv_app v) rid"
    and r: "map_of (app_records (dv_app v)) rid = Some r" "vr_signup r = SVerifiedLogin"
    and ends: "ends_login rid op"
    and new: "map_of (app_requests (dv_app v)) (RequestKey (ctx_owner ctx) (ctx_principal ctx) tid request) = None"
  shows "\<exists>e v'. vault_mutate env v ctx tid request op now fresh ent io = (Inl e, v')
    \<and> map_of (app_records (dv_app v')) rid \<in> {None, Some r}"
proof -
  define a where "a = (if should_compact (dv_app v) then compact (dv_app v) else dv_app v)"
  obtain res a' where m: "mutate (en_ext env) a ctx tid request op now fresh ent = (res, a')" by fastforce
  obtain c v' where c: "commit env v a' io = (c, v')" by fastforce
  have step: "vault_mutate env v ctx tid request op now fresh ent io =
      (case ready v of Inl e \<Rightarrow> (Inl e, v) | Inr _ \<Rightarrow> (case c of Inl e \<Rightarrow> Inl e | Inr _ \<Rightarrow> res, v'))"
    unfolding vault_mutate_def apply_op_def Let_def a_def [symmetric] by (simp add: m c split: sum.split)
  have recs: "map_of (app_records a) rid \<in> {None, Some r}"
    using r(1) compact_records_Some [of "dv_app v" rid] by (cases "map_of (app_records (compact (dv_app v))) rid") (auto simp: a_def)
  have new_a: "map_of (app_requests a) (RequestKey (ctx_owner ctx) (ctx_principal ctx) tid request) = None"
    using new by (simp add: a_def compact_loops_requests)
  show ?thesis
  proof (cases res)
    case (Inl e)
    have "map_of (app_records (dv_app v')) rid \<in> {None, Some r}"
      using commit_records [OF c] r(1) recs mutate_refused_records [OF m [unfolded Inl]] by auto
    then show ?thesis using Inl r(1) by (auto simp: step split: sum.split)
  next
    case (Inr receipt)
    obtain s s' where s: "map_of (app_records a) rid = Some s" "map_of (app_records a') rid = Some s'"
        "vr_signup s' \<noteq> SVerifiedLogin" "app_baselines a' = app_baselines a"
      by (rule ends_login_effect [OF ends new_a m [unfolded Inr]])
    have "flag_sealed rb_verified_login a rid"
      using sealed s(1) recs r(2) compact_keeps_login [OF sealed] by (auto simp: a_def split: if_splits)
    then have "flag_sealed rb_verified_login a' rid" by (simp add: flag_sealed_def s(4))
    then have "c \<noteq> Inr ()" using commit_sealed_login c s(2,3) by blast
    then obtain e where "c = Inl e" by (cases c) auto
    then show ?thesis using commit_records [OF c] r(1) by (auto simp: step split: sum.split)
  qed
qed

text \<open>The stored example vault after the login of its record was verified and its evidence compacted.\<close>

definition ex_sealed :: application where
  "ex_sealed = ex_stored\<lparr>app_records := [(51, ex_record\<lparr>vr_signup := SVerifiedLogin\<rparr>)],
     app_baselines := [(51, default_baseline\<lparr>rb_verified_login := True\<rparr>)], app_generation := 1\<rparr>"

definition ex_sealed_owner :: vault where
  "ex_sealed_owner = ex_owner\<lparr>dv_app := ex_sealed\<rparr>"

lemma ex_sealed_valid: "validates ex_ext ex_sealed"
  by (simp add: ex_sealed_def ex_defs vault_defs snapshot_defs default_baseline_def)

theorem sealed_login_blocks_rotation_witness:
  "validates ex_ext ex_sealed
   \<and> fst (mutate ex_ext ex_sealed ex_agent 7 13 (Patch 51 1 [(Password, ''new'')]) 103 0 [])
       = Inr \<lparr>rc_record = 51, rc_revision = 2, rc_grant = None\<rparr>
   \<and> (\<exists>e v'. vault_mutate (ex_env\<lparr>en_ext := ex_ext\<rparr>) ex_sealed_owner ex_agent 7 13
         (Patch 51 1 [(Password, ''new'')]) 103 0 [] ex_io = (Inl e, v')
       \<and> map_of (app_records (dv_app v')) 51 \<in> {None, Some (ex_record\<lparr>vr_signup := SVerifiedLogin\<rparr>)})"
proof (intro conjI sealed_login_blocks_rotation ex_sealed_valid)
  show "fst (mutate ex_ext ex_sealed ex_agent 7 13 (Patch 51 1 [(Password, ''new'')]) 103 0 [])
      = Inr \<lparr>rc_record = 51, rc_revision = 2, rc_grant = None\<rparr>"
    by (simp add: ex_sealed_def ex_defs vault_defs)
qed (simp_all add: ex_sealed_owner_def ex_owner_def ex_sealed_def flag_sealed_def default_baseline_def ex_defs vault_defs)

end
