(* ===== verification/Recovery.thy ===== *)
theory Recovery
  imports Store
begin

text \<open>
  Explicit recovery by the administrator (\<^verbatim>\<open>src/src/agent/storage/recovery.rs\<close>): the gate files, the
  rule that says which pair of states one commit may connect, the sanitising of a recovered state and
  the recovery itself. The code compares parts of two states by their JSON encoding; the encoder is
  deterministic and invertible on these types, so the model compares the parts themselves. Outcomes
  of system calls are arguments as in the store.
\<close>

section \<open>Gates\<close>

definition read_gate :: "directory \<Rightarrow> string \<Rightarrow> error + (u8 list \<times> u8 list)" where
  "read_gate dir name =
     (case map_of dir name of
        None \<Rightarrow> Inl RecoveryRequired
      | Some bytes \<Rightarrow>
          if length bytes < 24 \<or> max_image * 2 + 24 < length bytes \<or> take 8 bytes \<noteq> intent_magic
          then Inl RecoveryRequired
          else
            let old_len = unat (from_be64 (take 8 (drop 8 bytes)));
                new_len = unat (from_be64 (take 8 (drop 16 bytes)))
            in if max_image < old_len \<or> max_image < new_len \<or> new_len = 0 \<or> old_len + new_len + 24 \<noteq> length bytes
               then Inl RecoveryRequired
               else Inr (take old_len (drop 24 bytes), drop (24 + old_len) bytes))"

section \<open>Transitions\<close>

definition referenced_task :: "application \<Rightarrow> uuid \<Rightarrow> bool" where
  "referenced_task app tid \<longleftrightarrow>
     list_ex (\<lambda>r. vr_task r = tid) (bt_values (app_records app))
     \<or> list_ex (\<lambda>g. gr_issuer_task g = tid) (bt_values (app_grants app))
     \<or> list_ex (\<lambda>d. da_task d = tid \<or> rk_task (da_key d) = tid) (bt_values (app_deliveries app))
     \<or> list_ex (\<lambda>key. rk_task key = tid) (bt_keys (app_requests app))"

definition later_clock :: "application \<Rightarrow> application \<Rightarrow> time option" where
  "later_clock prev nxt = (case app_last_time nxt of Some t \<Rightarrow> Some t | None \<Rightarrow> app_last_time prev)"

definition expired_at :: "time option \<Rightarrow> time \<Rightarrow> bool" where
  "expired_at clk expires = (case clk of None \<Rightarrow> False | Some now \<Rightarrow> expires \<le> now)"

definition task_transition :: "application \<Rightarrow> application \<Rightarrow> uuid \<Rightarrow> task_approval \<Rightarrow> bool" where
  "task_transition prev nxt tid t =
     (case map_of (app_tasks nxt) tid of
        Some retained \<Rightarrow> t = retained
      | None \<Rightarrow>
          \<not> (\<not> expired_at (later_clock prev nxt) (tk_expires_at t) \<and> tid |\<notin>| app_revoked_tasks prev
             \<or> referenced_task nxt tid))"

definition record_transition :: "application \<Rightarrow> uuid \<Rightarrow> vault_record \<Rightarrow> bool" where
  "record_transition nxt rid r =
     (case map_of (app_records nxt) rid of
        Some n \<Rightarrow>
          \<not> (vr_owner r \<noteq> vr_owner n \<or> vr_workspace r \<noteq> vr_workspace n \<or> vr_created_by r \<noteq> vr_created_by n
             \<or> vr_task r \<noteq> vr_task n \<or> vr_service r \<noteq> vr_service n \<or> vr_origin r \<noteq> vr_origin n
             \<or> vr_kind r \<noteq> vr_kind n \<or> vr_revision n < vr_revision r
             \<or> vr_secret_version n < vr_secret_version r \<or> (vr_deleted r \<and> \<not> vr_deleted n)
             \<or> vr_restored r \<noteq> vr_restored n
             \<or> (vr_revision r = vr_revision n \<and> (vr_secret_version r \<noteq> vr_secret_version n
                  \<or> vr_deleted r \<noteq> vr_deleted n \<or> vr_values r \<noteq> vr_values n)))
      | None \<Rightarrow>
          \<not> (\<not> vr_deleted r \<or> list_ex (\<lambda>g. gr_record g = rid) (bt_values (app_grants nxt))
             \<or> list_ex (\<lambda>d. da_record d = rid) (bt_values (app_deliveries nxt))
             \<or> list_ex (\<lambda>m. rc_record (rm_result m) = rid) (bt_values (app_requests nxt))))"

definition grant_transition :: "application \<Rightarrow> application \<Rightarrow> uuid \<Rightarrow> grant \<Rightarrow> bool" where
  "grant_transition prev nxt gid g =
     (case map_of (app_grants nxt) gid of
        Some n \<Rightarrow>
          \<not> (gr_record g \<noteq> gr_record n \<or> gr_version g \<noteq> gr_version n \<or> gr_issuer_task g \<noteq> gr_issuer_task n
             \<or> gr_admin_issued g \<noteq> gr_admin_issued n \<or> (gr_revoked g \<and> \<not> gr_revoked n) \<or> gr_spec g \<noteq> gr_spec n)
      | None \<Rightarrow>
          \<not> (\<not> gr_revoked g \<and> \<not> expired_at (later_clock prev nxt) (gs_expires_at (gr_spec g))
             \<or> list_ex (\<lambda>m. rc_grant (rm_result m) = Some gid) (bt_values (app_requests nxt))))"

definition request_transition :: "application \<Rightarrow> application \<Rightarrow> request_key \<Rightarrow> remembered \<Rightarrow> bool" where
  "request_transition prev nxt key m =
     (case map_of (app_requests nxt) key of
        Some retained \<Rightarrow> m = retained
      | None \<Rightarrow>
          let rid = rc_record (rm_result m);
              through = baseline_through nxt rid;
              old_revision = (case map_of (app_records prev) rid of None \<Rightarrow> 0 | Some r \<Rightarrow> vr_revision r);
              covered = (rc_revision (rm_result m) \<le> through \<and> through \<le> old_revision);
              record_removed = (\<not> bt_contains (app_records nxt) rid
                \<and> (case map_of (app_records prev) rid of None \<Rightarrow> False | Some r \<Rightarrow> vr_deleted r))
          in covered \<or> record_removed)"

definition login_evidence_kept :: "application \<Rightarrow> delivery_attempt \<Rightarrow> bool" where
  "login_evidence_kept nxt d =
     (case map_of (app_records nxt) (da_record d) of
        None \<Rightarrow> True
      | Some r \<Rightarrow>
          let still = (vr_signup r = SVerifiedLogin \<and> vr_secret_version r = da_version d);
              is_sealed = (case map_of (app_baselines nxt) (da_record d) of None \<Rightarrow> False | Some b \<Rightarrow> rb_verified_login b);
              retained = list_ex (\<lambda>e. da_record e = da_record d \<and> da_action e = ActLogin \<and> da_dispatched e
                \<and> da_status e = Some DAccepted \<and> da_version e = vr_secret_version r) (bt_values (app_deliveries nxt))
          in \<not> (still \<and> \<not> is_sealed \<and> \<not> retained))"

definition delivery_transition :: "application \<Rightarrow> uuid \<Rightarrow> delivery_attempt \<Rightarrow> bool" where
  "delivery_transition nxt did d =
     (case map_of (app_deliveries nxt) did of
        Some n \<Rightarrow>
          (if da_status d = None then d\<lparr>da_status := da_status n, da_dispatched := da_dispatched n\<rparr> else d) = n
      | None \<Rightarrow>
          if da_status d = None
             \<or> da_action d = ActRegister \<and> da_dispatched d \<and> bt_contains (app_records nxt) (da_record d)
               \<and> \<not> (case map_of (app_baselines nxt) (da_record d) of
                      None \<Rightarrow> False | Some b \<Rightarrow> rb_registration_dispatched b)
          then False
          else if da_action d = ActLogin \<and> da_dispatched d \<and> da_status d = Some DAccepted
          then login_evidence_kept nxt d
          else True)"

definition transition_ok :: "application \<Rightarrow> application \<Rightarrow> bool" where
  "transition_ok prev nxt \<longleftrightarrow>
     checked_inc (app_generation prev) = Some (app_generation nxt)
     \<and> \<not> ((app_tasks prev = []) \<noteq> (app_tasks nxt = []) \<and> app_tasks nxt = [])
     \<and> (\<forall>tid |\<in>| app_revoked_tasks prev. \<not> (bt_contains (app_tasks nxt) tid \<and> tid |\<notin>| app_revoked_tasks nxt))
     \<and> list_all (\<lambda>(tid, t). task_transition prev nxt tid t) (app_tasks prev)
     \<and> list_all (\<lambda>(rid, r). record_transition nxt rid r) (app_records prev)
     \<and> list_all (\<lambda>(gid, g). grant_transition prev nxt gid g) (app_grants prev)
     \<and> list_all (\<lambda>(key, m). request_transition prev nxt key m) (app_requests prev)
     \<and> list_all (\<lambda>(did, d). delivery_transition nxt did d) (app_deliveries prev)"

definition transition :: "application \<Rightarrow> application \<Rightarrow> error + unit" where
  "transition prev nxt = (if transition_ok prev nxt then Inr () else Inl RecoveryRequired)"

section \<open>Sanitising\<close>

text \<open>
  An unfinished delivery is closed as unknown, and the sign-up state of its record with it. The loop
  stops with an error when a record is missing.
\<close>

definition close_delivery :: "uuid \<Rightarrow> application \<Rightarrow> application option" where
  "close_delivery did app =
     (case map_of (app_deliveries app) did of
        None \<Rightarrow> Some app
      | Some d \<Rightarrow>
          if da_status d \<noteq> None then Some app
          else
            let app = app\<lparr>app_deliveries := bt_modify did (\<lambda>d. d\<lparr>da_status := Some DUnknown\<rparr>) (app_deliveries app)\<rparr> in
            if da_action d = ActUse then Some app
            else if bt_contains (app_records app) (da_record d)
            then Some (app\<lparr>app_records :=
                   bt_modify (da_record d) (\<lambda>r. r\<lparr>vr_signup := SUnknown\<rparr>) (app_records app)\<rparr>)
            else None)"

fun close_deliveries :: "uuid list \<Rightarrow> application \<Rightarrow> application option" where
  "close_deliveries [] app = Some app"
| "close_deliveries (did # dids) app =
     (case close_delivery did app of None \<Rightarrow> None | Some app' \<Rightarrow> close_deliveries dids app')"

definition revoke_everything :: "application \<Rightarrow> application" where
  "revoke_everything app = app\<lparr>app_revoked_tasks := app_revoked_tasks app |\<union>| fset_of_list (bt_keys (app_tasks app)),
     app_grants := bt_map (\<lambda>_ g. g\<lparr>gr_revoked := True\<rparr>) (app_grants app)\<rparr>"

definition sanitize :: "externals \<Rightarrow> application \<Rightarrow> time \<Rightarrow> error + application" where
  "sanitize ext app now =
     (case checked_inc (app_generation app) of
        None \<Rightarrow> Inl RecoveryRequired
      | Some generation \<Rightarrow>
          let app = revoke_everything (app\<lparr>app_generation := generation\<rparr>) in
          (case close_deliveries (bt_keys (app_deliveries app)) app of
             None \<Rightarrow> Inl RecoveryRequired
           | Some app \<Rightarrow>
               let app = app\<lparr>app_clock_frozen := False, app_last_time := Some now, app_predecessor := None\<rparr> in
               (case validate ext app of Inl _ \<Rightarrow> Inl RecoveryRequired | Inr _ \<Rightarrow> Inr app)))"

definition scope :: "application \<Rightarrow> auth_context \<Rightarrow> error + unit" where
  "scope app ctx =
     (if \<not> ctx_admin ctx
         \<or> list_ex (\<lambda>t. tk_owner t \<noteq> ctx_owner ctx \<or> tk_workspace t \<noteq> ctx_workspace ctx) (bt_values (app_tasks app))
         \<or> list_ex (\<lambda>r. vr_owner r \<noteq> ctx_owner ctx \<or> vr_workspace r \<noteq> ctx_workspace ctx) (bt_values (app_records app))
      then Inl Denied else Inr ())"

definition empty_initial :: "application \<Rightarrow> bool" where
  "empty_initial app \<longleftrightarrow> app_generation app = 1 \<and> app_tasks app = [] \<and> app_records app = [] \<and> app_grants app = []
     \<and> app_requests app = [] \<and> app_revoked_tasks app = {||} \<and> app_deliveries app = []
     \<and> app_audit app = [] \<and> app_last_time app = None \<and> \<not> app_clock_frozen app"

definition safe_initial_publication :: "application \<Rightarrow> bool" where
  "safe_initial_publication app \<longleftrightarrow> empty_initial app
     \<or> list_all vr_restored (bt_values (app_records app))
       \<and> list_all (\<lambda>tid. tid |\<in>| app_revoked_tasks app) (bt_keys (app_tasks app))
       \<and> list_all gr_revoked (bt_values (app_grants app))
       \<and> list_all (\<lambda>d. da_status d \<noteq> None) (bt_values (app_deliveries app))"

section \<open>Reading what a crash left\<close>

definition absent_initial_image :: "environment \<Rightarrow> directory \<Rightarrow> string \<Rightarrow> error + u8 list" where
  "absent_initial_image env dir mnemonic =
     (case read_gate dir pending_name of
        Inl e \<Rightarrow> Inl e
      | Inr (previous, candidate) \<Rightarrow>
          if previous \<noteq> [] then Inl RecoveryRequired
          else (case unseal env candidate mnemonic of
                  Inl _ \<Rightarrow> Inl RecoveryRequired
                | Inr (app, _) \<Rightarrow>
                    if safe_initial_publication app then Inr candidate else Inl RecoveryRequired))"

definition validate_pending :: "environment \<Rightarrow> directory \<Rightarrow> string \<Rightarrow> u8 list \<Rightarrow> error + unit" where
  "validate_pending env dir mnemonic visible =
     (case read_gate dir pending_name of
        Inl e \<Rightarrow> Inl e
      | Inr (prev, nxt) \<Rightarrow>
          (case unseal env nxt mnemonic of
             Inl _ \<Rightarrow> Inl RecoveryRequired
           | Inr (candidate, _, salt, kdf) \<Rightarrow>
               let bound = (app_predecessor candidate = Some (image_hash env prev));
                   legal =
                     (if prev = [] then safe_initial_publication candidate
                      else case unseal env prev mnemonic of
                             Inl _ \<Rightarrow> bound
                           | Inr (previous, _, old_salt, old_kdf) \<Rightarrow>
                               (salt \<noteq> old_salt \<or> kdf \<noteq> old_kdf \<longrightarrow> bound) \<and> transition previous candidate = Inr ())
               in if legal \<and> (visible = nxt \<or> visible = prev) then Inr () else Inl RecoveryRequired))"

text \<open>Write a temporary file, rename it over \<open>name\<close>, sync the directory: the way all three images are installed.\<close>

record install_io =
  in_temp :: string
  in_write :: io_write
  in_rename :: io_rename
  in_sync :: bool

definition install_file :: "string \<Rightarrow> u8 list \<Rightarrow> install_io \<Rightarrow> directory \<Rightarrow> bool \<times> directory" where
  "install_file name bytes io dir =
     (case in_write io of
        WriteFailed left \<Rightarrow> (False, leave (in_temp io) left dir)
      | Wrote \<Rightarrow>
          let dir = bt_insert (in_temp io) bytes dir in
          (case in_rename io of
             RenameFailed happened \<Rightarrow> (False, if happened then move_file (in_temp io) name dir else dir)
           | Renamed \<Rightarrow> (in_sync io, move_file (in_temp io) name dir)))"

definition adopt_rekeyed ::
    "environment \<Rightarrow> directory \<Rightarrow> string \<Rightarrow> auth_context \<Rightarrow> u8 list \<Rightarrow> install_io \<Rightarrow> (error + unit) \<times> directory" where
  "adopt_rekeyed env dir mnemonic admin visible io =
     (if \<not> gate_exists dir pending_name then (Inl RecoveryRequired, dir)
      else case read_gate dir pending_name of
        Inl e \<Rightarrow> (Inl e, dir)
      | Inr (prev, nxt) \<Rightarrow>
          if visible \<noteq> prev \<and> visible \<noteq> nxt then (Inl RecoveryRequired, dir)
          else (case unseal env nxt mnemonic of
            Inl _ \<Rightarrow> (Inl RecoveryRequired, dir)
          | Inr (app, _) \<Rightarrow>
              (case scope app admin of
                 Inl e \<Rightarrow> (Inl e, dir)
               | Inr _ \<Rightarrow>
                   if app_predecessor app \<noteq> Some (image_hash env prev) then (Inl RecoveryRequired, dir)
                   else if visible = nxt then (Inr (), dir)
                   else (case install_file state_name nxt io dir of
                           (ok, dir') \<Rightarrow> (if ok then Inr () else Inl RecoveryRequired, dir')))))"

definition write_pair :: "directory \<Rightarrow> u8 list \<Rightarrow> u8 list \<Rightarrow> install_io \<Rightarrow> (error + unit) \<times> directory" where
  "write_pair dir prev nxt io =
     (case install_file recovery_name (intent_bytes prev nxt) io dir of
        (ok, dir') \<Rightarrow> (if ok then Inr () else Inl RecoveryRequired, dir'))"

section \<open>Recovery\<close>

record recover_io =
  ri_adopt :: install_io
  ri_plan :: install_io
  ri_state :: install_io
  ri_nonce :: "u8 list"
  ri_unlink_pending :: bool
  ri_pending_sync :: bool
  ri_unlink_plan :: bool
  ri_plan_sync :: bool

text \<open>The image to install and its state: from an earlier recovery plan, or sanitised now.\<close>

definition planned_state ::
    "environment \<Rightarrow> directory \<Rightarrow> string \<Rightarrow> auth_context \<Rightarrow> u8 list \<Rightarrow> u8 list \<Rightarrow> kdf_params
       \<Rightarrow> error + (application \<times> u8 list)" where
  "planned_state env dir mnemonic admin visible salt kdf =
     (case read_gate dir recovery_name of
        Inl e \<Rightarrow> Inl e
      | Inr (base, planned) \<Rightarrow>
        (case (unseal env base mnemonic, unseal env planned mnemonic) of
           (Inr (previous, _, base_salt, base_kdf), Inr (target, _, target_salt, target_kdf)) \<Rightarrow>
             (case (scope previous admin, scope target admin) of
                (Inr _, Inr _) \<Rightarrow>
                  if salt \<noteq> base_salt \<or> salt \<noteq> target_salt \<or> kdf \<noteq> base_kdf \<or> kdf \<noteq> target_kdf
                     \<or> (visible \<noteq> base \<and> visible \<noteq> planned)
                  then Inl RecoveryRequired
                  else (case app_last_time target of
                    None \<Rightarrow> Inl RecoveryRequired
                  | Some at \<Rightarrow>
                    (case sanitize (en_ext env) previous at of
                       Inl e \<Rightarrow> Inl e
                     | Inr expected \<Rightarrow>
                       (case (encode (en_ext env) (en_json env) expected, encode (en_ext env) (en_json env) target) of
                          (Inr a, Inr b) \<Rightarrow>
                            if a \<noteq> b then Inl RecoveryRequired
                            else if gate_exists dir pending_name
                            then (case validate_pending env dir mnemonic base of
                                    Inl e \<Rightarrow> Inl e | Inr _ \<Rightarrow> Inr (target, planned))
                            else Inr (target, planned)
                        | (Inl e, _) \<Rightarrow> Inl e
                        | (_, Inl e) \<Rightarrow> Inl e)))
              | _ \<Rightarrow> Inl Denied)
         | _ \<Rightarrow> Inl RecoveryRequired))"

definition fresh_state ::
    "environment \<Rightarrow> directory \<Rightarrow> string \<Rightarrow> application \<Rightarrow> u8 list \<Rightarrow> u8 list \<Rightarrow> u8 list \<Rightarrow> kdf_params \<Rightarrow> time
       \<Rightarrow> recover_io \<Rightarrow> (error + (application \<times> u8 list)) \<times> directory" where
  "fresh_state env dir mnemonic app visible key salt kdf now io =
     (if \<not> gate_exists dir pending_name \<and> \<not> app_clock_frozen app \<and> \<not> unfinished app then (Inl Invalid, dir)
      else case (if gate_exists dir pending_name then validate_pending env dir mnemonic visible else Inr ()) of
        Inl e \<Rightarrow> (Inl e, dir)
      | Inr _ \<Rightarrow>
          (case sanitize (en_ext env) app now of
             Inl e \<Rightarrow> (Inl e, dir)
           | Inr app' \<Rightarrow>
               (case seal env app' key salt kdf (ri_nonce io) of
                  Inl e \<Rightarrow> (Inl e, dir)
                | Inr img \<Rightarrow>
                    (case write_pair dir visible img (ri_plan io) of
                       (Inl e, dir') \<Rightarrow> (Inl e, dir')
                     | (Inr _, dir') \<Rightarrow> (Inr (app', img), dir')))))"

text \<open>The clearing of the gates after the recovered image is durable.\<close>

definition clear_gates :: "directory \<Rightarrow> bool \<Rightarrow> recover_io \<Rightarrow> bool \<times> directory" where
  "clear_gates dir has_pending io =
     (if has_pending \<and> \<not> ri_unlink_pending io then (False, dir)
      else
        let dir = (if has_pending then bt_remove pending_name dir else dir) in
        if has_pending \<and> \<not> ri_pending_sync io then (False, dir)
        else if \<not> ri_unlink_plan io then (False, dir)
        else (ri_plan_sync io, bt_remove recovery_name dir))"

definition visible_image ::
    "environment \<Rightarrow> directory \<Rightarrow> string \<Rightarrow> auth_context \<Rightarrow> install_io \<Rightarrow> (error + (u8 list \<times> bool)) \<times> directory" where
  "visible_image env dir mnemonic admin io =
     (let load = (\<lambda>dir. case read_image dir state_name of
             Inl e \<Rightarrow> Inl e
           | Inr (Some img) \<Rightarrow> Inr (img, False)
           | Inr None \<Rightarrow>
               (case absent_initial_image env dir mnemonic of Inl e \<Rightarrow> Inl e | Inr img \<Rightarrow> Inr (img, True)))
      in case read_image dir state_name of
           Inl e \<Rightarrow> (Inl e, dir)
         | Inr (Some img) \<Rightarrow>
             (case unseal env img mnemonic of
                Inr _ \<Rightarrow> (Inr (img, False), dir)
              | Inl _ \<Rightarrow>
                  (case adopt_rekeyed env dir mnemonic admin img io of
                     (Inl e, dir') \<Rightarrow> (Inl e, dir')
                   | (Inr _, dir') \<Rightarrow> (load dir', dir')))
         | Inr None \<Rightarrow> (load dir, dir))"

definition recover_at ::
    "environment \<Rightarrow> directory \<Rightarrow> lock_result \<Rightarrow> string \<Rightarrow> auth_context \<Rightarrow> time \<Rightarrow> recover_io
       \<Rightarrow> (error + vault) \<times> directory" where
  "recover_at env dir0 lock mnemonic admin now io =
     (if \<not> ctx_admin admin then (Inl Denied, dir0)
      else case acquire_recovery lock of
        Inl e \<Rightarrow> (Inl e, dir0)
      | Inr _ \<Rightarrow>
      (case visible_image env dir0 mnemonic admin (ri_adopt io) of
        (Inl e, dir) \<Rightarrow> (Inl e, dir)
      | (Inr (visible, missing_state), dir) \<Rightarrow>
      (case unseal env visible mnemonic of
        Inl _ \<Rightarrow> (Inl RecoveryRequired, dir)
      | Inr (app, key, salt, kdf) \<Rightarrow>
      (case scope app admin of
        Inl e \<Rightarrow> (Inl e, dir)
      | Inr _ \<Rightarrow>
          let has_pending = gate_exists dir pending_name in
          (case (if gate_exists dir recovery_name
                 then (planned_state env dir mnemonic admin visible salt kdf, dir)
                 else fresh_state env dir mnemonic app visible key salt kdf now io) of
             (Inl e, dir) \<Rightarrow> (Inl e, dir)
           | (Inr (app', img), dir) \<Rightarrow>
               (case install_file state_name img (ri_state io) dir of
                  (False, dir) \<Rightarrow> (Inl RecoveryRequired, dir)
                | (True, dir) \<Rightarrow>
                    (case clear_gates dir has_pending io of
                       (False, dir) \<Rightarrow> (Inl RecoveryRequired, dir)
                     | (True, dir) \<Rightarrow>
                         (Inr \<lparr>dv_app = app', dv_store = \<lparr>st_key = key, st_salt = salt, st_kdf = kdf,
                                 st_current_image = Some img, st_blocked = False,
                                 st_persisted_last_time = app_last_time app',
                                 st_persisted_frozen = app_clock_frozen app'\<rparr>,
                               dv_frozen = False, dv_dir = dir\<rparr>, dir))))))))"

end
