(* ===== verification/Backup.thy ===== *)
theory Backup
  imports Recovery
begin

text \<open>
  Encrypted backups (\<^verbatim>\<open>src/src/agent/storage/backup.rs\<close>): the envelope, whose prefix is repeated inside
  the plaintext and passed as associated data, and the restored copy, which carries no authority. A
  passphrase is its UTF-8 bytes: characters are the bytes that are not continuation bytes, and white
  space is ASCII white space.
\<close>

datatype backup_secret = Seed string | Passphrase string

definition backup_magic :: "u8 list" where "backup_magic = bytes_of ''CMABAK02''"

fun secret_kind :: "backup_secret \<Rightarrow> 32 word" where
  "secret_kind (Seed _) = 1"
| "secret_kind (Passphrase _) = 2"

definition char_count :: "string \<Rightarrow> nat" where
  "char_count s = length (filter (\<lambda>c. \<not> (128 \<le> (of_char c :: nat) \<and> (of_char c :: nat) < 192)) s)"

fun derive_backup_key ::
    "primitives \<Rightarrow> backup_secret \<Rightarrow> u8 list \<Rightarrow> kdf_params \<Rightarrow> error + u8 list" where
  "derive_backup_key cr (Seed seed) salt kdf =
     (case derive_key cr seed salt kdf of Inl _ \<Rightarrow> Inl InvalidStorage | Inr key \<Rightarrow> Inr key)"
| "derive_backup_key cr (Passphrase p) salt kdf =
     (if char_count p < 16 \<or> 4096 < length p \<or> list_all whitespace p then Inl InvalidStorage
      else case derive_key_from_secret cr p salt kdf of Inl _ \<Rightarrow> Inl InvalidStorage | Inr key \<Rightarrow> Inr key)"

section \<open>The envelope\<close>

definition backup_prefix :: "32 word \<Rightarrow> 32 word \<Rightarrow> kdf_params \<Rightarrow> u8 list \<Rightarrow> u8 list" where
  "backup_prefix version kind kdf salt =
     backup_magic @ to_be32 version @ to_be32 kind @ to_be32 (kd_m_kib kdf) @ to_be32 (kd_t_cost kdf)
       @ to_be32 (kd_p_cost kdf) @ salt"

definition encrypt_snapshot_version ::
    "primitives \<Rightarrow> u8 list \<Rightarrow> backup_secret \<Rightarrow> 32 word \<Rightarrow> u8 list \<Rightarrow> u8 list \<Rightarrow> error + u8 list" where
  "encrypt_snapshot_version cr snap bsec version salt nonce =
     (if max_plaintext < length snap then Inl Capacity
      else case derive_backup_key cr bsec salt kdf_current of
        Inl e \<Rightarrow> Inl e
      | Inr key \<Rightarrow>
          let pre = backup_prefix version (secret_kind bsec) kdf_current salt;
              aad = (if 3 \<le> version then pre else [])
          in case encrypt cr key nonce (pre @ snap) aad of
               Inl _ \<Rightarrow> Inl InvalidStorage
             | Inr ciphertext \<Rightarrow>
                 let bytes = pre @ nonce @ to_be64 (word_of_nat (length ciphertext)) @ ciphertext
                 in if max_image < length bytes then Inl Capacity else Inr bytes)"

definition encrypt_snapshot where
  "encrypt_snapshot cr snap bsec salt nonce = encrypt_snapshot_version cr snap bsec 3 salt nonce"

definition encrypt_backup ::
    "environment \<Rightarrow> application \<Rightarrow> backup_secret \<Rightarrow> u8 list \<Rightarrow> u8 list \<Rightarrow> error + u8 list" where
  "encrypt_backup env app bsec salt nonce =
     (case encode (en_ext env) (en_json env) app of
        Inl e \<Rightarrow> Inl e
      | Inr snap \<Rightarrow> encrypt_snapshot (en_crypto env) snap bsec salt nonce)"

definition within_ceiling :: "kdf_params \<Rightarrow> bool" where
  "within_ceiling kdf \<longleftrightarrow>
     \<not> (kd_m_kib kdf_current < kd_m_kib kdf \<or> kd_t_cost kdf_current < kd_t_cost kdf
        \<or> kd_p_cost kdf_current < kd_p_cost kdf)"

record parsed_backup =
  pb_version :: "32 word"
  pb_kdf :: kdf_params
  pb_salt :: "u8 list"
  pb_prefix :: "u8 list"
  pb_nonce :: "u8 list"
  pb_ciphertext :: "u8 list"

definition parse_backup :: "primitives \<Rightarrow> u8 list \<Rightarrow> 32 word \<Rightarrow> parsed_backup option" where
  "parse_backup cr bytes kind =
     (if max_image < length bytes then None else do {
        (m, bs) \<leftarrow> read_array 8 bytes;
        if m \<noteq> backup_magic then None else do {
          (v, bs) \<leftarrow> read_array 4 bs;
          (k, bs) \<leftarrow> read_array 4 bs;
          if (from_be32 v \<noteq> 2 \<and> from_be32 v \<noteq> 3) \<or> from_be32 k \<noteq> kind then None else do {
            (kdf, bs) \<leftarrow> parse_kdf cr bs;
            if \<not> within_ceiling kdf then None else do {
              (salt, bs) \<leftarrow> read_array salt_len bs;
              let pre = take (length bytes - length bs) bytes;
              (nonce, bs) \<leftarrow> read_array nonce_len bs;
              (len, bs) \<leftarrow> read_array 8 bs;
              if from_be64 len \<noteq> word_of_nat (length bs) then None
              else Some \<lparr>pb_version = from_be32 v, pb_kdf = kdf, pb_salt = salt, pb_prefix = pre,
                     pb_nonce = nonce, pb_ciphertext = bs\<rparr>
            }
          }
        }
      })"

definition decrypt_backup :: "environment \<Rightarrow> u8 list \<Rightarrow> backup_secret \<Rightarrow> error + application" where
  "decrypt_backup env bytes bsec =
     (case parse_backup (en_crypto env) bytes (secret_kind bsec) of
        None \<Rightarrow> Inl InvalidStorage
      | Some p \<Rightarrow>
        (case derive_backup_key (en_crypto env) bsec (pb_salt p) (pb_kdf p) of
           Inl e \<Rightarrow> Inl e
         | Inr key \<Rightarrow>
           (case decrypt (en_crypto env) key (pb_nonce p) (pb_ciphertext p)
                   (if pb_version p = 3 then pb_prefix p else []) of
              Inl _ \<Rightarrow> Inl InvalidStorage
            | Inr plaintext \<Rightarrow>
                if length plaintext < length (pb_prefix p) \<or> take (length (pb_prefix p)) plaintext \<noteq> pb_prefix p
                then Inl InvalidStorage
                else decode (en_ext env) (en_json env) (drop (length (pb_prefix p)) plaintext))))"

section \<open>Export and restore\<close>

definition export_backup ::
    "environment \<Rightarrow> vault \<Rightarrow> auth_context \<Rightarrow> backup_secret \<Rightarrow> u8 list \<Rightarrow> u8 list \<Rightarrow> error + u8 list" where
  "export_backup env v admin bsec salt nonce =
     (case ready v of
        Inl e \<Rightarrow> Inl e
      | Inr _ \<Rightarrow>
        (case admin_scope (dv_app v) admin of
           Inl e \<Rightarrow> Inl e
         | Inr _ \<Rightarrow>
             if app_clock_frozen (dv_app v) then Inl ClockRecoveryRequired
             else encrypt_backup env (dv_app v) bsec salt nonce))"

definition prepare_restored :: "externals \<Rightarrow> application \<Rightarrow> auth_context \<Rightarrow> time \<Rightarrow> error + application" where
  "prepare_restored ext app admin now =
     (case admin_scope app admin of
        Inl e \<Rightarrow> Inl e
      | Inr _ \<Rightarrow>
        (case checked_inc (app_generation app) of
           None \<Rightarrow> Inl Capacity
         | Some generation \<Rightarrow>
             let app = revoke_everything (app\<lparr>app_generation := generation\<rparr>);
                 app = app\<lparr>app_records := bt_map (\<lambda>_ r. r\<lparr>vr_restored := True\<rparr>) (app_records app)\<rparr>
             in case close_deliveries (bt_keys (app_deliveries app)) app of
                  None \<Rightarrow> Inl InvalidStorage
                | Some app \<Rightarrow>
                    let app = app\<lparr>app_last_time := Some (case app_last_time app of None \<Rightarrow> now | Some prev \<Rightarrow> max prev now),
                                  app_predecessor := None\<rparr>
                    in case validate ext app of Inl e \<Rightarrow> Inl e | Inr _ \<Rightarrow> Inr app))"

definition restore_backup ::
    "environment \<Rightarrow> directory \<Rightarrow> lock_result \<Rightarrow> bool \<Rightarrow> string \<Rightarrow> auth_context \<Rightarrow> u8 list \<Rightarrow> backup_secret
       \<Rightarrow> time \<Rightarrow> u8 list \<Rightarrow> publish_io \<Rightarrow> (error + vault) \<times> directory" where
  "restore_backup env dir lock gate_failed destination_seed admin bytes bsec now salt io =
     (if \<not> ctx_admin admin then (Inl Denied, dir)
      else case decrypt_backup env bytes bsec of
        Inl e \<Rightarrow> (Inl e, dir)
      | Inr app \<Rightarrow>
        (case prepare_restored (en_ext env) app admin now of
           Inl e \<Rightarrow> (Inl e, dir)
         | Inr app' \<Rightarrow> create_from_app env dir lock gate_failed destination_seed salt app' io))"

end
