(* ===== verification/Recovery_Properties.thy ===== *)
theory Recovery_Properties
  imports Backup Store_Properties Policy_Properties
begin

text \<open>
  Properties of recovery and backup: the gate file parses back, a recovered or restored vault carries
  no live authority, an exported backup restores to the state it was made from, and recovery accepts
  what one operation can do between two publications.
\<close>

section \<open>Closing deliveries\<close>

lemma map_snd_bt_modify: "(\<And>x. g (f x) = g x) \<Longrightarrow> map (\<lambda>p. g (snd p)) (bt_modify k f m) = map (\<lambda>p. g (snd p)) m"
  by (simp add: bt_modify_def)

definition untouched :: "application \<Rightarrow> application \<Rightarrow> bool" where
  "untouched app app' \<longleftrightarrow> app_tasks app' = app_tasks app \<and> app_revoked_tasks app' = app_revoked_tasks app
    \<and> app_grants app' = app_grants app \<and> app_requests app' = app_requests app \<and> app_audit app' = app_audit app
    \<and> app_last_time app' = app_last_time app \<and> app_generation app' = app_generation app
    \<and> app_clock_frozen app' = app_clock_frozen app
    \<and> map fst (app_records app') = map fst (app_records app)
    \<and> map (\<lambda>p. vr_restored (snd p)) (app_records app') = map (\<lambda>p. vr_restored (snd p)) (app_records app)
    \<and> map fst (app_deliveries app') = map fst (app_deliveries app)"

lemma close_delivery_frame: "close_delivery did app = Some app' \<Longrightarrow> untouched app app'"
  by (auto simp: close_delivery_def untouched_def Let_def map_snd_bt_modify split: option.splits if_splits)

lemma close_deliveries_frame: "close_deliveries dids app = Some app' \<Longrightarrow> untouched app app'"
  by (induction dids arbitrary: app)
     (auto simp: untouched_def split: option.splits dest!: close_delivery_frame)

lemma close_delivery_closes:
  assumes "close_delivery x app = Some app'" and "map_of (app_deliveries app') did = Some d" and "da_status d = None"
  shows "did \<noteq> x \<and> map_of (app_deliveries app) did = Some d"
  using assms by (auto simp: close_delivery_def Let_def split: option.splits if_splits)

lemma close_deliveries_closes:
  assumes "close_deliveries dids app = Some app'" and "map_of (app_deliveries app') did = Some d" and "da_status d = None"
  shows "did \<notin> set dids \<and> map_of (app_deliveries app) did = Some d"
  using assms
proof (induction dids arbitrary: app)
  case (Cons x dids)
  then obtain mid where mid: "close_delivery x app = Some mid" "close_deliveries dids mid = Some app'"
    by (auto split: option.splits)
  from Cons.IH [OF mid(2) Cons.prems(2,3)] close_delivery_closes [OF mid(1) _ Cons.prems(3)] show ?case by auto
qed simp

lemma all_closed:
  assumes "close_deliveries (bt_keys (app_deliveries app)) app = Some app'" and "bt_wf (app_deliveries app)"
  shows "\<not> unfinished app'"
proof
  assume "unfinished app'"
  then obtain did d where d: "(did, d) \<in> set (app_deliveries app')" "da_status d = None"
    by (auto simp: unfinished_def list_ex_iff)
  have keys: "map fst (app_deliveries app') = map fst (app_deliveries app)"
    using close_deliveries_frame [OF assms(1)] by (simp add: untouched_def)
  then have "bt_wf (app_deliveries app')" using assms(2) by (simp add: bt_wf_def)
  then have "map_of (app_deliveries app') did = Some d" using d(1) by (simp add: bt_mem_iff)
  then have "did \<notin> set (bt_keys (app_deliveries app))"
    using close_deliveries_closes [OF assms(1)] d(2) by blast
  moreover have "did \<in> set (map fst (app_deliveries app'))" using d(1) by force
  ultimately show False unfolding keys by (simp add: bt_keys_def)
qed

section \<open>No authority survives\<close>

text \<open>Every task revoked means that every check of a task fails.\<close>

definition powerless :: "application \<Rightarrow> bool" where
  "powerless app \<longleftrightarrow> list_all (\<lambda>tid. tid |\<in>| app_revoked_tasks app) (bt_keys (app_tasks app))
     \<and> list_all gr_revoked (bt_values (app_grants app))"

lemma powerless_task: "powerless app \<Longrightarrow> task_of app ctx tid now = Inl Denied"
  by (force simp: powerless_def task_of_def list_all_iff dest: map_of_SomeD split: option.splits)

lemma powerless_select: "powerless app \<Longrightarrow> \<exists>e. select app ctx tid rid fs perm dest now = Inl e"
  by (simp add: select_def powerless_task)

lemma revoke_everything_powerless:
  assumes "app_tasks app' = app_tasks app" "app_revoked_tasks app' = app_revoked_tasks (revoke_everything app)"
    and "app_grants app' = app_grants (revoke_everything app)"
  shows "powerless app'"
  using assms
  by (auto simp: powerless_def revoke_everything_def list_all_iff fset_of_list_elem bt_map_def bt_keys_def)

text \<open>
  A recovered vault is powerless. After the sanitising step of recovery every task and every grant
  is revoked, no delivery is left open, the clock is live again, and no read, use or mutation by anyone
  succeeds until the administrator approves a new task.
\<close>

theorem sanitized_vault_is_powerless:
  assumes san: "sanitize ext app now = Inr app'" and wf: "bt_wf (app_deliveries app)"
  shows "powerless app' \<and> \<not> unfinished app' \<and> \<not> app_clock_frozen app' \<and> app_last_time app' = Some now
    \<and> validates ext app'
    \<and> (\<exists>e. select app' ctx tid rid fs perm dest now' = Inl e)
    \<and> (\<exists>e. fst (mutate ext' app' ctx tid request op now' fresh ent) = Inl e)"
proof -
  obtain generation mid where mid:
      "close_deliveries (bt_keys (app_deliveries app)) (revoke_everything (app\<lparr>app_generation := generation\<rparr>)) = Some mid"
      "app' = mid\<lparr>app_clock_frozen := False, app_last_time := Some now, app_predecessor := None\<rparr>" "validates ext app'"
    using san
    by (auto simp: sanitize_def Let_def validate_def revoke_everything_def split: option.splits if_splits)
  let ?r = "revoke_everything (app\<lparr>app_generation := generation\<rparr>)"
  have dels: "app_deliveries ?r = app_deliveries app" by (simp add: revoke_everything_def)
  have frame: "app_tasks mid = app_tasks app" "app_revoked_tasks mid = app_revoked_tasks ?r" "app_grants mid = app_grants ?r"
    using close_deliveries_frame [OF mid(1)] by (simp_all add: untouched_def revoke_everything_def)
  have pow: "powerless app'"
    by (rule revoke_everything_powerless [of _ "app\<lparr>app_generation := generation\<rparr>"]) (simp_all add: mid(2) frame)
  have "\<not> unfinished mid"
    by (rule all_closed [of ?r]) (simp_all add: dels mid(1) wf)
  then have "\<not> unfinished app'" by (simp add: mid(2) unfinished_def)
  moreover have "\<exists>e. fst (mutate ext' app' ctx tid request op now' fresh ent) = Inl e"
    using powerless_task [OF pow] by (cases "effective_time app' now'") (auto simp: mutate_def clock_eqs)
  ultimately show ?thesis using pow powerless_select [OF pow] mid by simp
qed

theorem sanitized_vault_is_powerless_witness:
  "\<exists>app'. sanitize (en_ext ex_env) ex_fresh_app 5 = Inr app' \<and> powerless app'"
proof -
  have san: "sanitize (en_ext ex_env) ex_fresh_app 5 = Inr (ex_fresh_app\<lparr>app_generation := 2, app_last_time := Some 5\<rparr>)"
    by (simp add: sanitize_def checked_inc_def ex_fresh_app_def default_application_def revoke_everything_def
        bt_keys_def bt_map_def validate_def validates_def within_limits_def limit_def empty_history_def fcard.rep_eq
        bt_values_def Let_def)
  have "bt_wf (app_deliveries ex_fresh_app)" by (simp add: ex_fresh_app_def default_application_def)
  from sanitized_vault_is_powerless [OF san this] san show ?thesis by blast
qed

lemma later_event_invalid:
  assumes "e \<in> set (app_audit app)" and "now < ae_at e" and "ae_principal e \<noteq> []" and "app_last_time app = Some now"
  shows "\<not> validates ext app"
proof
  assume "validates ext app"
  then have "validate_event app e" using assms(1) by (simp add: validates_def list_all_iff)
  then show False using assms(2-4) by (auto simp: validate_event_def split: option.splits)
qed

text \<open>
  C33: Recovery is refused while an audited event lies in the future of the recovery clock. The
  sanitising step sets the high-water mark to the given reading but keeps the audit trail, and the
  validation wants every event at or before that mark; so a vault whose clock ran ahead and was
  frozen by the correction cannot be recovered until the corrected clock passes the last event.
\<close>

theorem recovery_refused_by_later_event:
  assumes e: "e \<in> set (app_audit app)" "now < ae_at e" "ae_principal e \<noteq> []"
  shows "sanitize ext app now = Inl RecoveryRequired"
proof (cases "sanitize ext app now")
  case (Inl x)
  then show ?thesis by (auto simp: sanitize_def Let_def split: option.splits sum.splits)
next
  case (Inr app')
  then obtain generation mid where mid:
      "close_deliveries (bt_keys (app_deliveries app)) (revoke_everything (app\<lparr>app_generation := generation\<rparr>)) = Some mid"
      "app' = mid\<lparr>app_clock_frozen := False, app_last_time := Some now, app_predecessor := None\<rparr>" "validates ext app'"
    by (auto simp: sanitize_def Let_def validate_def revoke_everything_def split: option.splits if_splits)
  have "app_audit mid = app_audit app"
    using close_deliveries_frame [OF mid(1)] by (simp add: untouched_def revoke_everything_def)
  then have "\<not> validates ext app'"
    using e by (intro later_event_invalid [of e _ now]) (simp_all add: mid(2))
  with mid(3) show ?thesis by simp
qed

theorem recovery_refused_by_later_event_witness:
  "sanitize ex_ext (snd (mutate ex_ext ex_vault ex_agent 7 13 (Delete 51 2) 50 71 [])) 50 = Inl RecoveryRequired
   \<and> app_clock_frozen (snd (mutate ex_ext ex_vault ex_agent 7 13 (Delete 51 2) 50 71 []))"
proof -
  have frozen: "snd (mutate ex_ext ex_vault ex_agent 7 13 (Delete 51 2) 50 71 []) = ex_vault\<lparr>app_clock_frozen := True\<rparr>"
    by (simp add: mutate_def clock_def effective_time_def ex_vault_def ex_stored_def ex_approved_def default_application_def
        sat_sub_def time_min_def time_max_def clock_skew_tolerance_def)
  have "ex_event 12 102 \<in> set (app_audit (ex_vault\<lparr>app_clock_frozen := True\<rparr>))"
    by (simp add: ex_vault_def ex_stored_def)
  from recovery_refused_by_later_event [OF this, of 50 ex_ext] show ?thesis
    unfolding frozen by (simp add: ex_event_def)
qed

section \<open>Restored copies\<close>

text \<open>
  A restored copy is powerless. Every task and grant in it is revoked, every record is marked as
  restored, no delivery is open, its clock is at least that of the original and of the restore, and
  it is what recovery accepts as a first publication.
\<close>

theorem restored_copy_is_powerless:
  assumes prep: "prepare_restored ext app admin now = Inr app'" and wf: "bt_wf (app_deliveries app)"
  shows "powerless app' \<and> \<not> unfinished app' \<and> list_all vr_restored (bt_values (app_records app'))
    \<and> safe_initial_publication app' \<and> validates ext app'
    \<and> (\<exists>t. app_last_time app' = Some t \<and> now \<le> t \<and> (\<forall>high. app_last_time app = Some high \<longrightarrow> high \<le> t))
    \<and> app_clock_frozen app' = app_clock_frozen app"
proof -
  obtain generation mid where mid:
      "close_deliveries (bt_keys (app_deliveries app))
         ((revoke_everything (app\<lparr>app_generation := generation\<rparr>))\<lparr>app_records :=
            bt_map (\<lambda>_ r. r\<lparr>vr_restored := True\<rparr>) (app_records app)\<rparr>) = Some mid"
      "app' = mid\<lparr>app_last_time := Some (case app_last_time app of None \<Rightarrow> now | Some prev \<Rightarrow> max prev now),
         app_predecessor := None\<rparr>" "validates ext app'"
    using prep close_deliveries_frame
    by (fastforce simp: prepare_restored_def Let_def validate_def revoke_everything_def untouched_def
        split: option.splits if_splits sum.splits)
  let ?app = "app\<lparr>app_generation := generation\<rparr>"
  let ?r = "(revoke_everything ?app)\<lparr>app_records := bt_map (\<lambda>_ r. r\<lparr>vr_restored := True\<rparr>) (app_records app)\<rparr>"
  note frame = close_deliveries_frame [OF mid(1), unfolded untouched_def]
  have pow: "powerless app'"
    by (rule revoke_everything_powerless [of _ ?app]) (use frame in \<open>simp_all add: mid(2) revoke_everything_def\<close>)
  have "\<not> unfinished mid"
    by (rule all_closed [of ?r]) (use mid(1) wf in \<open>simp_all add: revoke_everything_def\<close>)
  then have closed: "\<not> unfinished app'" by (simp add: mid(2) unfinished_def)
  have "set (map (\<lambda>p. vr_restored (snd p)) (app_records mid)) \<subseteq> {True}"
    using frame by (simp add: bt_map_def) auto
  then have restored: "list_all vr_restored (bt_values (app_records app'))"
    by (auto simp: mid(2) list_all_iff)
  have "safe_initial_publication app'"
    using pow closed restored
    by (simp add: safe_initial_publication_def powerless_def unfinished_def list_all_iff list_ex_iff)
  then show ?thesis
    using pow closed restored mid frame
    by (auto simp: high_water_def revoke_everything_def split: option.splits)
qed

theorem restored_copy_is_powerless_witness:
  "\<exists>app'. prepare_restored (en_ext ex_env) ex_fresh_app ex_admin 5 = Inr app' \<and> powerless app'"
proof -
  have prep: "prepare_restored (en_ext ex_env) ex_fresh_app ex_admin 5
      = Inr (ex_fresh_app\<lparr>app_generation := 2, app_last_time := Some 5\<rparr>)"
    by (simp add: prepare_restored_def admin_scope_def ex_admin_def from_authenticated_admin_def checked_inc_def
        ex_fresh_app_def default_application_def revoke_everything_def bt_keys_def bt_map_def validate_def
        validates_def within_limits_def limit_def empty_history_def fcard.rep_eq bt_values_def Let_def)
  have "bt_wf (app_deliveries ex_fresh_app)" by (simp add: ex_fresh_app_def default_application_def)
  from restored_copy_is_powerless [OF prep this] prep show ?thesis by blast
qed

section \<open>Backups\<close>

lemma length_backup_magic [simp]: "length backup_magic = 8"
  by (simp add: backup_magic_def bytes_of_def)

lemma parse_backup_format:
  assumes kdf: "validated cr (kd_m_kib kdf) (kd_t_cost kdf) (kd_p_cost kdf) = Inr kdf" "within_ceiling kdf"
    and len: "length salt = salt_len" "length nonce = nonce_len"
    and bytes: "bytes = backup_prefix 3 kind kdf salt @ nonce @ to_be64 (word_of_nat (length c)) @ c"
    and size: "length bytes \<le> max_image"
  shows "parse_backup cr bytes kind = Some \<lparr>pb_version = 3, pb_kdf = kdf, pb_salt = salt,
    pb_prefix = backup_prefix 3 kind kdf salt, pb_nonce = nonce, pb_ciphertext = c\<rparr>"
proof -
  let ?tail = "nonce @ to_be64 (word_of_nat (length c)) @ c"
  have "take (length bytes - length ?tail) bytes = backup_prefix 3 kind kdf salt"
    by (simp add: bytes)
  then show ?thesis
    using size kdf(2)
    by (simp add: parse_backup_def bytes backup_prefix_def Let_def be32.read_field be32.dec_enc be64.read_field
        be64.dec_enc parse_kdf_format [OF kdf(1)] len)
qed

text \<open>
  A backup restores to the state it was made from: decrypting what was exported, with the same
  seed or passphrase, gives the exported state back.
\<close>

theorem decrypt_encrypt_backup:
  assumes aead: "aead_correct (en_crypto env)" and json: "json_correct (en_json env)" and app: "storable app"
    and kdf: "validated (en_crypto env) (kd_m_kib kdf_current) (kd_t_cost kdf_current) (kd_p_cost kdf_current) = Inr kdf_current"
    and len: "length salt = salt_len" "length nonce = nonce_len"
    and enc: "encrypt_backup env app bsec salt nonce = Inr bytes"
  shows "decrypt_backup env bytes bsec = Inr app"
proof -
  let ?pre = "backup_prefix 3 (secret_kind bsec) kdf_current salt"
  obtain snap key c where snap: "encode (en_ext env) (en_json env) app = Inr snap"
      and key: "derive_backup_key (en_crypto env) bsec salt kdf_current = Inr key"
      and c: "cr_aead_encrypt (en_crypto env) key nonce (?pre @ snap) ?pre = Some c"
      and bytes: "bytes = ?pre @ nonce @ to_be64 (word_of_nat (length c)) @ c" and size: "length bytes \<le> max_image"
    using enc
    by (auto simp: encrypt_backup_def encrypt_snapshot_def encrypt_snapshot_version_def encrypt_def Let_def
        split: sum.splits if_splits option.splits)
  have parse: "parse_backup (en_crypto env) bytes (secret_kind bsec) = Some \<lparr>pb_version = 3, pb_kdf = kdf_current,
      pb_salt = salt, pb_prefix = ?pre, pb_nonce = nonce, pb_ciphertext = c\<rparr>"
    by (rule parse_backup_format [OF kdf _ len bytes size]) (simp add: within_ceiling_def)
  have "decrypt (en_crypto env) key nonce c ?pre = Inr (?pre @ snap)"
    using aead c len by (simp add: decrypt_def aead_correct_def)
  then show ?thesis
    using parse key decode_encode [OF json app snap] by (simp add: decrypt_backup_def)
qed

theorem decrypt_encrypt_backup_witness:
  "\<exists>bytes. encrypt_backup ex_env ex_fresh_app (Seed ''seed'') (replicate 16 0) (replicate 12 0) = Inr bytes
     \<and> decrypt_backup ex_env bytes (Seed ''seed'') = Inr ex_fresh_app"
proof -
  have enc: "encode (en_ext ex_env) (en_json ex_env) ex_fresh_app = Inr [7]"
    using ex_fresh_valid [of "en_ext ex_env"] by (simp add: encode_def validate_def ex_env_def max_plaintext_def)
  have len: "length (backup_prefix 3 (secret_kind (Seed ''seed'')) kdf_current (replicate 16 0)) = 44"
    by (simp add: backup_prefix_def be32.length_enc)
  obtain bytes where b: "encrypt_backup ex_env ex_fresh_app (Seed ''seed'') (replicate 16 0) (replicate 12 0) = Inr bytes"
    using enc ex_kdf(2) [of "replicate 16 0"] len
    by (simp add: encrypt_backup_def encrypt_snapshot_def encrypt_snapshot_version_def encrypt_def Let_def
        max_plaintext_def max_image_def be64.length_enc)
       (simp add: ex_env_def be64.length_enc max_image_def)
  have "decrypt_backup ex_env bytes (Seed ''seed'') = Inr ex_fresh_app"
    by (rule decrypt_encrypt_backup [OF ex_env_laws ex_kdf(1) _ _ b]) (simp_all add: salt_len_def nonce_len_def)
  with b show ?thesis by blast
qed

section \<open>Gates and transitions\<close>

text \<open>
  The gate file is unambiguous: reading what a publication or a recovery plan wrote gives back
  exactly the two images, for all images within the size limit.
\<close>

theorem read_gate_intent:
  assumes "map_of dir name = Some (intent_bytes prev nxt)"
    and "length prev \<le> max_image" and "0 < length nxt" and "length nxt \<le> max_image"
  shows "read_gate dir name = Inr (prev, nxt)"
proof -
  let ?b = "intent_bytes prev nxt"
  have small: "n < 2 ^ 64" if "n \<le> max_image" for n :: nat
    using that by (simp add: max_image_def)
  have parts: "take 8 ?b = intent_magic" "take 8 (drop 8 ?b) = to_be64 (word_of_nat (length prev))"
    "take 8 (drop 16 ?b) = to_be64 (word_of_nat (length nxt))" "drop 24 ?b = prev @ nxt"
    "length ?b = 24 + length prev + length nxt"
    by (simp_all add: intent_bytes_def be64.length_enc)
  have "drop (24 + length prev) ?b = drop (length prev) (drop 24 ?b)" by (simp add: add.commute)
  then have rest: "drop (24 + length prev) ?b = nxt" unfolding parts(4) by simp
  have "unat (from_be64 (to_be64 (word_of_nat (length prev)))) = length prev"
    "unat (from_be64 (to_be64 (word_of_nat (length nxt)))) = length nxt"
    using small [OF assms(2)] small [OF assms(4)] by (simp_all add: be64.dec_enc unat_of_nat)
  then show ?thesis
    using assms parts rest by (simp add: read_gate_def Let_def)
qed

theorem read_gate_intent_witness: "read_gate [(pending_name, intent_bytes [] [5])] pending_name = Inr ([], [5])"
  by (rule read_gate_intent) (simp_all add: max_image_def)

lemma evolves_transition:
  assumes ok: "vault_ok app" and dels: "bt_wf (app_deliveries app)" and ev: "evolves app app'"
    and gen: "checked_inc (app_generation app) = Some g"
  shows "transition_ok app (app'\<lparr>app_generation := g\<rparr>)"
proof -
  let ?n = "app'\<lparr>app_generation := g\<rparr>"
  note wf = vault_tables [OF ok, unfolded tables_ok_def]
  have look: "map_of m k = Some v" if "(k, v) \<in> set m" "bt_wf m" for k v and m :: "('a::linorder, 'b) btmap"
    using that by (simp add: bt_mem_iff)
  have tasks: "task_transition app ?n tid t" if "(tid, t) \<in> set (app_tasks app)" for tid t
    using evolves_task [OF ev look [OF that]] wf by (simp add: task_transition_def)
  have records: "record_transition ?n rid r" if "(rid, r) \<in> set (app_records app)" for rid r
    using evolves_record [OF ev look [OF that]] wf by (auto simp: record_transition_def record_evolves_def not_less)
  have grants: "grant_transition app ?n gid x" if "(gid, x) \<in> set (app_grants app)" for gid x
    using evolves_grant [OF ev look [OF that]] wf by (auto simp: grant_transition_def grant_evolves_def)
  have requests: "request_transition app ?n key m" if "(key, m) \<in> set (app_requests app)" for key m
    using evolves_request [OF ev look [OF that]] wf by (simp add: request_transition_def)
  have deliveries: "delivery_transition ?n did d" if "(did, d) \<in> set (app_deliveries app)" for did d
    using look [OF that dels] evolves_rest(1) [OF ev] by (simp add: delivery_transition_def)
  have "app_tasks ?n = [] \<Longrightarrow> app_tasks app = []"
    using evolves_task [OF ev, of "fst (hd (app_tasks app))"] by (cases "app_tasks app") (auto split: if_splits)
  then show ?thesis
    using gen evolves_revoked [OF ev] tasks records grants requests deliveries
    by (auto simp: transition_ok_def list_all_iff dest: fsubsetD)
qed

text \<open>
  C31: Recovery accepts what an operation does. The state before any policy operation and the state
  after it, published as the next generation, always form a pair that the transition rule of recovery
  allows, so an interrupted publication of a legal operation is never refused as tampering.
\<close>

theorem operations_are_legal_transitions:
  assumes "vault_ok app" and "bt_wf (app_deliveries app)" and "admissible app q"
    and "app_step ext q app = (res, app')" and "checked_inc (app_generation app) = Some g"
  shows "transition app (app'\<lparr>app_generation := g\<rparr>) = Inr ()"
  using evolves_transition [OF assms(1,2) _ assms(5)] app_step_evolves [OF assms(3), of ext] assms(4)
  by (simp add: transition_def)

theorem operations_are_legal_transitions_witness:
  "transition ex_stored (ex_vault\<lparr>app_generation := 1\<rparr>) = Inr ()"
  by (rule operations_are_legal_transitions [OF ex_stored_ok _ _ ex_steps(4)])
     (simp_all add: fresh_id_def time_min_def ex_stored_def ex_approved_def default_application_def checked_inc_def)

end
