(* ===== verification/Chars.thy ===== *)
theory Chars
  imports Prelude
begin

text \<open>
  Byte strings: the character classes, splitting functions, number formatting and address parsers
  of the Rust standard library that the HTTPS consumer uses. A string is the list of its bytes in
  UTF-8. The address parsers follow \<^verbatim>\<open>core::net::parser\<close>: greedy digit groups, the optional
  embedded IPv4 tail of an IPv6 address and the single \<^verbatim>\<open>::\<close>.
\<close>

section \<open>Character classes\<close>

definition ascii_digit :: "char \<Rightarrow> bool" where
  "ascii_digit c \<longleftrightarrow> CHR ''0'' \<le> c \<and> c \<le> CHR ''9''"

definition ascii_upper :: "char \<Rightarrow> bool" where
  "ascii_upper c \<longleftrightarrow> CHR ''A'' \<le> c \<and> c \<le> CHR ''Z''"

definition ascii_lower :: "char \<Rightarrow> bool" where
  "ascii_lower c \<longleftrightarrow> CHR ''a'' \<le> c \<and> c \<le> CHR ''z''"

definition ascii_alnum :: "char \<Rightarrow> bool" where
  "ascii_alnum c \<longleftrightarrow> ascii_digit c \<or> ascii_upper c \<or> ascii_lower c"

definition ascii_hexdigit :: "char \<Rightarrow> bool" where
  "ascii_hexdigit c \<longleftrightarrow> ascii_digit c \<or> (CHR ''A'' \<le> c \<and> c \<le> CHR ''F'') \<or> (CHR ''a'' \<le> c \<and> c \<le> CHR ''f'')"

definition printable :: "char \<Rightarrow> bool" where
  "printable c \<longleftrightarrow> CHR 0x20 \<le> c \<and> c \<le> CHR 0x7E"

definition to_lower :: "char \<Rightarrow> char" where
  "to_lower c = (if ascii_upper c then char_of (of_char c + 32 :: nat) else c)"

definition eq_ignore_case :: "string \<Rightarrow> string \<Rightarrow> bool" where
  "eq_ignore_case a b \<longleftrightarrow> map to_lower a = map to_lower b"

text \<open>
  \<^verbatim>\<open>char::is_control\<close> over UTF-8: the ASCII controls, and U+0080 to U+009F as their two bytes.
\<close>

definition ascii_control :: "char \<Rightarrow> bool" where
  "ascii_control c \<longleftrightarrow> c < CHR 0x20 \<or> c = CHR 0x7F"

fun has_control :: "string \<Rightarrow> bool" where
  "has_control [] = False"
| "has_control [c] = ascii_control c"
| "has_control (c # d # s) =
     (ascii_control c \<or> (c = CHR 0xC2 \<and> CHR 0x80 \<le> d \<and> d \<le> CHR 0x9F) \<or> has_control (d # s))"

text \<open>
  \<^verbatim>\<open>str::trim\<close> leaves nothing: every character has the Unicode property White\_Space, over UTF-8.
\<close>

fun blank :: "string \<Rightarrow> bool" where
  "blank [] = True"
| "blank (c # s) =
     (if c = CHR 0x20 \<or> CHR 0x09 \<le> c \<and> c \<le> CHR 0x0D then blank s
      else case s of
        d # s' \<Rightarrow>
          if c = CHR 0xC2 \<and> (d = CHR 0x85 \<or> d = CHR 0xA0) then blank s'
          else (case s' of
            e # s'' \<Rightarrow>
              (c = CHR 0xE1 \<and> d = CHR 0x9A \<and> e = CHR 0x80
               \<or> c = CHR 0xE2 \<and> d = CHR 0x80 \<and> (CHR 0x80 \<le> e \<and> e \<le> CHR 0x8A \<or> e = CHR 0xA8 \<or> e = CHR 0xA9 \<or> e = CHR 0xAF)
               \<or> c = CHR 0xE2 \<and> d = CHR 0x81 \<and> e = CHR 0x9F
               \<or> c = CHR 0xE3 \<and> d = CHR 0x80 \<and> e = CHR 0x80)
              \<and> blank s''
          | [] \<Rightarrow> False)
      | [] \<Rightarrow> False)"

section \<open>Splitting\<close>

fun strip_prefix :: "string \<Rightarrow> string \<Rightarrow> string option" where
  "strip_prefix [] s = Some s"
| "strip_prefix (p # ps) [] = None"
| "strip_prefix (p # ps) (c # s) = (if p = c then strip_prefix ps s else None)"

fun split_once :: "char \<Rightarrow> string \<Rightarrow> (string \<times> string) option" where
  "split_once sep [] = None"
| "split_once sep (c # s) =
     (if c = sep then Some ([], s)
      else map_option (\<lambda>(a, b). (c # a, b)) (split_once sep s))"

fun split_on :: "char \<Rightarrow> string \<Rightarrow> string list" where
  "split_on sep [] = [[]]"
| "split_on sep (c # s) =
     (if c = sep then [] # split_on sep s
      else case split_on sep s of [] \<Rightarrow> [[c]] | w # ws \<Rightarrow> (c # w) # ws)"

fun trim_end :: "char \<Rightarrow> string \<Rightarrow> string" where
  "trim_end x [] = []"
| "trim_end x (c # s) = (case trim_end x s of [] \<Rightarrow> if c = x then [] else [c] | t \<Rightarrow> c # t)"

section \<open>Numbers\<close>

definition digit_char :: "nat \<Rightarrow> char" where
  "digit_char d = (if d < 10 then char_of (48 + d) else char_of (87 + d))"

fun nat_string :: "nat \<Rightarrow> nat \<Rightarrow> string" where
  "nat_string radix n =
     (if radix < 2 \<or> n < radix then [digit_char n]
      else nat_string radix (n div radix) @ [digit_char (n mod radix)])"

declare nat_string.simps [simp del]

definition to_digit :: "nat \<Rightarrow> char \<Rightarrow> nat option" where
  "to_digit radix c =
     (let d = (if ascii_digit c then of_char c - 48
               else if ascii_lower c then of_char c - 87
               else if ascii_upper c then of_char c - 55 else radix)
      in if d < radix then Some d else None)"

definition is_digit :: "nat \<Rightarrow> char \<Rightarrow> bool" where
  "is_digit radix c \<longleftrightarrow> to_digit radix c \<noteq> None"

definition digits_value :: "nat \<Rightarrow> string \<Rightarrow> nat" where
  "digits_value radix s =
     fold (\<lambda>c n. radix * n + (case to_digit radix c of None \<Rightarrow> 0 | Some d \<Rightarrow> d)) s 0"

section \<open>Addresses\<close>

definition read_number :: "nat \<Rightarrow> nat \<Rightarrow> bool \<Rightarrow> nat \<Rightarrow> string \<Rightarrow> (nat \<times> string) option" where
  "read_number radix max_digits allow_zero_prefix max_value s =
     (let ds = takeWhile (is_digit radix) s; n = digits_value radix ds in
      if max_digits < length ds \<or> ds = [] \<or> (\<not> allow_zero_prefix \<and> hd ds = CHR ''0'' \<and> 1 < length ds)
         \<or> max_value < n
      then None else Some (n, dropWhile (is_digit radix) s))"

definition read_given :: "char \<Rightarrow> string \<Rightarrow> string option" where
  "read_given c s = (case s of [] \<Rightarrow> None | d # r \<Rightarrow> if d = c then Some r else None)"

fun read_octets :: "nat \<Rightarrow> bool \<Rightarrow> string \<Rightarrow> (nat list \<times> string) option" where
  "read_octets 0 first s = Some ([], s)"
| "read_octets (Suc n) first s =
     (case (if first then Some s else read_given (CHR ''.'') s) of
        None \<Rightarrow> None
      | Some r \<Rightarrow>
          (case read_number 10 3 False 255 r of
             None \<Rightarrow> None
           | Some (d, r') \<Rightarrow> map_option (\<lambda>(ds, r''). (d # ds, r'')) (read_octets n False r')))"

definition read_ipv4 :: "string \<Rightarrow> (nat list \<times> string) option" where
  "read_ipv4 s = read_octets 4 True s"

definition parse_ipv4 :: "string \<Rightarrow> nat list option" where
  "parse_ipv4 s =
     (if 15 < length s then None
      else case read_ipv4 s of Some (ds, []) \<Rightarrow> Some ds | _ \<Rightarrow> None)"

fun join_with :: "string \<Rightarrow> string list \<Rightarrow> string" where
  "join_with sep [] = []"
| "join_with sep [w] = w"
| "join_with sep (w # ws) = w @ sep @ join_with sep ws"

definition show_ipv4 :: "nat list \<Rightarrow> string" where
  "show_ipv4 ds = join_with ''.'' (map (nat_string 10) ds)"

text \<open>Groups of an IPv6 address; the flag says that the last two came from an embedded IPv4 address.\<close>

fun read_groups :: "nat \<Rightarrow> bool \<Rightarrow> string \<Rightarrow> nat list \<times> bool \<times> string" where
  "read_groups 0 first s = ([], False, s)"
| "read_groups (Suc n) first s =
     (let start = (if first then Some s else read_given (CHR '':'') s) in
      case (if 0 < n then Option.bind start read_ipv4 else None) of
        Some (ds, r) \<Rightarrow> ([256 * ds ! 0 + ds ! 1, 256 * ds ! 2 + ds ! 3], True, r)
      | None \<Rightarrow>
          (case Option.bind start (read_number 16 4 True 65535) of
             None \<Rightarrow> ([], False, s)
           | Some (g, r) \<Rightarrow>
               (case read_groups n False r of (gs, v4, r') \<Rightarrow> (g # gs, v4, r'))))"

definition parse_ipv6 :: "string \<Rightarrow> nat list option" where
  "parse_ipv6 s =
     (case read_groups 8 True s of (head, v4, r) \<Rightarrow>
        if length head = 8 then (if r = [] then Some head else None)
        else if v4 then None
        else case Option.bind (read_given (CHR '':'') r) (read_given (CHR '':'')) of
               None \<Rightarrow> None
             | Some r' \<Rightarrow>
                 (case read_groups (7 - length head) True r' of (tail, _, r'') \<Rightarrow>
                    if r'' = [] then Some (head @ replicate (8 - length head - length tail) 0 @ tail) else None))"

text \<open>The longest run of zero groups, the first one if there are several: its start and length.\<close>

fun zero_runs :: "nat \<Rightarrow> nat \<times> nat \<Rightarrow> nat \<times> nat \<Rightarrow> nat list \<Rightarrow> nat \<times> nat" where
  "zero_runs i current longest [] = longest"
| "zero_runs i (start, len) longest (g # gs) =
     (if g = 0 then
        let current = (if len = 0 then (i, 1) else (start, len + 1))
        in zero_runs (i + 1) current (if snd longest < snd current then current else longest) gs
      else zero_runs (i + 1) (0, 0) longest gs)"

definition show_groups :: "nat list \<Rightarrow> string" where
  "show_groups gs = join_with '':'' (map (nat_string 16) gs)"

definition show_ipv6 :: "nat list \<Rightarrow> string" where
  "show_ipv6 gs =
     (if take 6 gs = [0, 0, 0, 0, 0, 65535] \<and> length gs = 8
      then ''::ffff:'' @ show_ipv4 [gs ! 6 div 256, gs ! 6 mod 256, gs ! 7 div 256, gs ! 7 mod 256]
      else case zero_runs 0 (0, 0) (0, 0) gs of (start, len) \<Rightarrow>
             if 1 < len then show_groups (take start gs) @ ''::'' @ show_groups (drop (start + len) gs)
             else show_groups gs)"

section \<open>Facts\<close>

lemma strip_prefix_Some: "strip_prefix p s = Some r \<longleftrightarrow> s = p @ r"
  by (induction p s rule: strip_prefix.induct) auto

lemma split_once_Some: "split_once x s = Some (a, b) \<Longrightarrow> s = a @ x # b \<and> x \<notin> set a"
  by (induction s arbitrary: a) (auto split: if_splits)

lemma split_once_None: "split_once x s = None \<longleftrightarrow> x \<notin> set s"
  by (induction s) auto

lemma split_on_not_Nil [simp]: "split_on x s \<noteq> []"
  by (induction s) (auto split: list.splits)

lemma set_split_on: "c \<in> set s \<Longrightarrow> c = x \<or> (\<exists>w \<in> set (split_on x s). c \<in> set w)"
proof (induction s)
  case (Cons a s)
  then show ?case by (cases "split_on x s") auto
qed simp

lemma set_join_with: "set (join_with sep ws) \<subseteq> set sep \<union> \<Union>(set ` set ws)"
  by (induction sep ws rule: join_with.induct) auto

lemma trim_end_prefix: "\<exists>n. s = trim_end x s @ replicate n x"
proof (induction s)
  case (Cons c s)
  then obtain n where "s = trim_end x s @ replicate n x" by blast
  then show ?case
    by (cases "trim_end x s") (auto intro: exI [of _ n] exI [of _ "Suc n"])
qed simp

lemma ascii_alnum_digit: "ascii_digit c \<Longrightarrow> ascii_alnum c"
  by (simp add: ascii_alnum_def)

lemma digit_char_hex: "d < 16 \<Longrightarrow> ascii_alnum (digit_char d) \<and> ascii_hexdigit (digit_char d)"
proof -
  assume "d < 16"
  moreover have "list_all (\<lambda>d. ascii_alnum (digit_char d) \<and> ascii_hexdigit (digit_char d)) [0..<16]"
    by code_simp
  ultimately show ?thesis by (simp add: list_all_iff)
qed

lemma nat_string_alnum: "radix \<le> 16 \<Longrightarrow> radix \<ge> 2 \<Longrightarrow> c \<in> set (nat_string radix n) \<Longrightarrow> ascii_alnum c"
proof (induction radix n rule: nat_string.induct)
  case (1 radix n)
  show ?case
  proof (cases "n < radix")
    case True
    then show ?thesis using 1 digit_char_hex [of n] by (simp add: nat_string.simps [of radix n])
  next
    case False
    moreover have "n mod radix < 16" using 1(3) mod_less_divisor [of radix n] 1(2) by linarith
    ultimately show ?thesis
      using 1 digit_char_hex [of "n mod radix"] by (auto simp: nat_string.simps [of radix n])
  qed
qed

lemma show_ipv4_chars: "c \<in> set (show_ipv4 ds) \<Longrightarrow> ascii_alnum c \<or> c = CHR ''.''"
  using set_join_with [of "''.''" "map (nat_string 10) ds"] nat_string_alnum [of 10] by (auto simp: show_ipv4_def)

lemma show_ipv6_chars: "c \<in> set (show_ipv6 gs) \<Longrightarrow> ascii_alnum c \<or> c = CHR '':'' \<or> c = CHR ''.''"
proof -
  have g: "c \<in> set (show_groups ds) \<Longrightarrow> ascii_alnum c \<or> c = CHR '':''" for ds
    using set_join_with [of "'':''" "map (nat_string 16) ds"] nat_string_alnum [of 16]
    by (auto simp: show_groups_def)
  have f: "ascii_alnum CHR ''f''"
    by (simp add: ascii_alnum_def ascii_lower_def less_eq_char_def)
  show "c \<in> set (show_ipv6 gs) \<Longrightarrow> ascii_alnum c \<or> c = CHR '':'' \<or> c = CHR ''.''"
    using show_ipv4_chars [of c] g f by (auto simp: show_ipv6_def split: prod.splits if_splits)
qed

end
