(* ===== verification/Https.thy ===== *)
theory Https
  imports Chars Vault_Types
begin

text \<open>
  The private HTTPS consumer (\<^verbatim>\<open>src/src/agent_https.rs\<close>): validation of a configured destination, the
  configuration text handed to the \<^verbatim>\<open>curl\<close> child, and the supervision loop of the delivery. File
  metadata, the start of the child and what each system call of the loop returned are arguments.
\<close>

section \<open>Configuration\<close>

definition max_credential :: nat where "max_credential = 8192"
definition max_config :: nat where "max_config = 65536"
definition default_connect_ms :: nat where "default_connect_ms = 1000"
definition default_total_ms :: nat where "default_total_ms = 2500"
definition wall_margin_ms :: nat where "wall_margin_ms = 1000"

record timeouts =
  to_connect_ms :: nat
  to_total_ms :: nat

definition default_timeouts :: timeouts where
  "default_timeouts = \<lparr>to_connect_ms = default_connect_ms, to_total_ms = default_total_ms\<rparr>"

definition validate_timeouts :: "timeouts \<Rightarrow> error + unit" where
  "validate_timeouts t =
     (if 100 \<le> to_connect_ms t \<and> to_connect_ms t \<le> 10000 \<and> 500 \<le> to_total_ms t \<and> to_total_ms t \<le> 30000
         \<and> to_connect_ms t < to_total_ms t
      then Inr () else Inl Invalid)"

definition wall :: "timeouts \<Rightarrow> nat" where
  "wall t = to_total_ms t + wall_margin_ms"

datatype auth = AuthBasic | AuthBearer | AuthHeader string | AuthQuery string

record destination =
  ds_id :: string
  ds_service :: string
  ds_origin :: string
  ds_path :: string
  ds_auth :: auth
  ds_ca_file :: "string option"
  ds_timeouts :: timeouts

definition destination_fields :: "destination \<Rightarrow> fields" where
  "destination_fields d = (case ds_auth d of AuthBasic \<Rightarrow> {Username, Password} | _ \<Rightarrow> {ApiKey})"

section \<open>Names\<close>

definition is_tchar :: "char \<Rightarrow> bool" where
  "is_tchar c \<longleftrightarrow> ascii_alnum c \<or> c \<in> set (CHR 0x27 # ''!#$%&*+-.^_`|~'')"

definition denied_header :: "string \<Rightarrow> bool" where
  "denied_header name \<longleftrightarrow>
     (6 \<le> length name \<and> eq_ignore_case (take 6 name) ''proxy-'')
     \<or> list_ex (eq_ignore_case name)
         [''host'', ''content-length'', ''transfer-encoding'', ''connection'', ''cookie'', ''set-cookie'',
          ''keep-alive'', ''te'', ''trailer'', ''upgrade'', ''expect'']"

definition valid_header_name :: "string \<Rightarrow> bool" where
  "valid_header_name name \<longleftrightarrow>
     1 \<le> length name \<and> length name \<le> 128 \<and> list_all is_tchar name \<and> \<not> denied_header name"

definition valid_query_param :: "string \<Rightarrow> bool" where
  "valid_query_param param \<longleftrightarrow> 1 \<le> length param \<and> length param \<le> 64
     \<and> list_all (\<lambda>c. ascii_alnum c \<or> c \<in> set ''-_.'') param"

definition validate_auth :: "auth \<Rightarrow> error + unit" where
  "validate_auth a =
     (if (case a of AuthBasic \<Rightarrow> True | AuthBearer \<Rightarrow> True
            | AuthHeader name \<Rightarrow> valid_header_name name | AuthQuery param \<Rightarrow> valid_query_param param)
      then Inr () else Inl Invalid)"

section \<open>Origins and paths\<close>

definition valid_port :: "string \<Rightarrow> bool" where
  "valid_port port \<longleftrightarrow> port \<noteq> [] \<and> length port \<le> 5 \<and> list_all ascii_digit port
     \<and> digits_value 10 port \<le> 65535 \<and> digits_value 10 port \<noteq> 0"

definition valid_ipv6_authority :: "string \<Rightarrow> bool" where
  "valid_ipv6_authority authority =
     (case strip_prefix ''['' authority of
        None \<Rightarrow> False
      | Some rest \<Rightarrow>
          (case split_once (CHR '']'') rest of
             None \<Rightarrow> False
           | Some (addr, after) \<Rightarrow>
               if addr = [] \<or> CHR ''%'' \<in> set addr then False
               else (case parse_ipv6 addr of
                       None \<Rightarrow> False
                     | Some ip \<Rightarrow>
                         if addr \<noteq> show_ipv6 ip then False
                         else if after = [] then True
                         else (case strip_prefix '':'' after of None \<Rightarrow> False | Some port \<Rightarrow> valid_port port))))"

text \<open>A label of an alternative numeric spelling of an IPv4 address.\<close>

definition numeric_label :: "string \<Rightarrow> bool" where
  "numeric_label label \<longleftrightarrow>
     (label \<noteq> [] \<and> list_all ascii_digit label)
     \<or> (case (case strip_prefix ''0x'' label of None \<Rightarrow> strip_prefix ''0X'' label | Some hex \<Rightarrow> Some hex) of
          None \<Rightarrow> False
        | Some hex \<Rightarrow> hex \<noteq> [] \<and> list_all ascii_hexdigit hex)"

definition dns_label :: "string \<Rightarrow> bool" where
  "dns_label label \<longleftrightarrow> label \<noteq> [] \<and> length label \<le> 63 \<and> hd label \<noteq> CHR ''-'' \<and> last label \<noteq> CHR ''-''
     \<and> list_all (\<lambda>c. ascii_alnum c \<or> c = CHR ''-'') label"

definition valid_host :: "string \<Rightarrow> bool" where
  "valid_host host =
     (if host = [] \<or> 253 < length host then False
      else case parse_ipv4 host of
             Some ip \<Rightarrow> host = show_ipv4 ip
           | None \<Rightarrow>
               if list_all numeric_label (split_on (CHR ''.'') host) then False
               else list_all dns_label (split_on (CHR ''.'') host))"

definition valid_origin :: "string \<Rightarrow> bool" where
  "valid_origin origin =
     (if 512 < length origin \<or> \<not> list_all (\<lambda>c. c \<le> CHR 0x7F) origin then False
      else case strip_prefix ''https://'' origin of
        None \<Rightarrow> False
      | Some authority \<Rightarrow>
          if authority \<noteq> [] \<and> hd authority = CHR ''['' then valid_ipv6_authority authority
          else (case split_once (CHR '':'') authority of
                  Some (host, port) \<Rightarrow> valid_port port \<and> valid_host host
                | None \<Rightarrow> valid_host authority))"

definition path_char :: "char \<Rightarrow> bool" where
  "path_char c \<longleftrightarrow> ascii_alnum c \<or> c \<in> set (CHR 0x27 # ''/-._~!$&()*+,;=:@'')"

fun path_bytes :: "string \<Rightarrow> bool" where
  "path_bytes [] = True"
| "path_bytes (c # s) =
     (if c = CHR ''%'' then
        (case s of h # l # r \<Rightarrow> ascii_hexdigit h \<and> ascii_hexdigit l \<and> path_bytes r | _ \<Rightarrow> False)
      else path_char c \<and> path_bytes s)"

definition valid_path :: "string \<Rightarrow> bool" where
  "valid_path path \<longleftrightarrow> path \<noteq> [] \<and> length path \<le> 2048 \<and> hd path = CHR ''/'' \<and> take 2 path \<noteq> ''//''
     \<and> path_bytes path"

section \<open>The certificate file\<close>

record file_metadata =
  fm_uid :: nat
  fm_symlink :: bool
  fm_mode :: "32 word"
  fm_is_file :: bool
  fm_is_dir :: bool
  fm_len :: nat

text \<open>
  \<^verbatim>\<open>Path::components\<close> of an absolute path: empty and \<^verbatim>\<open>.\<close> components are skipped, \<^verbatim>\<open>..\<close> is kept
  and refused. The metadata of the path built so far is looked up after each component.
\<close>

definition path_components :: "string \<Rightarrow> string list" where
  "path_components text = filter (\<lambda>w. w \<noteq> [] \<and> w \<noteq> ''.'') (split_on (CHR ''/'') text)"

definition component_ok :: "nat \<Rightarrow> bool \<Rightarrow> file_metadata \<Rightarrow> bool" where
  "component_ok euid is_last m \<longleftrightarrow>
     \<not> fm_symlink m \<and> (fm_uid m = 0 \<or> fm_uid m = euid) \<and> and (fm_mode m) 18 = 0
     \<and> (if is_last then fm_is_file m \<and> 0 < fm_len m \<and> fm_len m \<le> 1048576 else fm_is_dir m)"

fun check_components ::
    "nat \<Rightarrow> (string list \<Rightarrow> file_metadata option) \<Rightarrow> string list \<Rightarrow> string list \<Rightarrow> bool" where
  "check_components euid stat checked rest =
     (case stat checked of
        None \<Rightarrow> False
      | Some m \<Rightarrow>
          component_ok euid (rest = []) m
          \<and> (case rest of [] \<Rightarrow> True
             | name # rest' \<Rightarrow> name \<noteq> ''..'' \<and> check_components euid stat (checked @ [name]) rest'))"

declare check_components.simps [simp del]

definition validate_ca :: "nat \<Rightarrow> (string list \<Rightarrow> file_metadata option) \<Rightarrow> string \<Rightarrow> error + unit" where
  "validate_ca euid stat text =
     (if text = [] \<or> hd text \<noteq> CHR ''/'' \<or> 4096 < length text \<or> has_control text then Inl Invalid
      else if check_components euid stat [] (path_components text) then Inr () else Inl Invalid)"

definition validate_destination ::
    "nat \<Rightarrow> (string list \<Rightarrow> file_metadata option) \<Rightarrow> destination \<Rightarrow> error + unit" where
  "validate_destination euid stat d =
     (if ds_id d = [] \<or> 128 < length (ds_id d)
         \<or> \<not> list_all (\<lambda>c. ascii_alnum c \<or> c \<in> set ''_.:-'') (ds_id d)
         \<or> ds_service d = [] \<or> 2048 < length (ds_service d) \<or> \<not> list_all printable (ds_service d)
         \<or> \<not> valid_origin (ds_origin d) \<or> \<not> valid_path (ds_path d)
      then Inl Invalid
      else case validate_timeouts (ds_timeouts d) of
        Inl e \<Rightarrow> Inl e
      | Inr _ \<Rightarrow>
        (case validate_auth (ds_auth d) of
           Inl e \<Rightarrow> Inl e
         | Inr _ \<Rightarrow> (case ds_ca_file d of None \<Rightarrow> Inr () | Some path \<Rightarrow> validate_ca euid stat path)))"

section \<open>The configuration text\<close>

fun push_escaped :: "string \<Rightarrow> string \<Rightarrow> string" where
  "push_escaped out [] = out"
| "push_escaped out (c # s) =
     push_escaped (if c = CHR 0x5C \<or> c = CHR 0x22 then out @ [CHR 0x5C, c] else out @ [c]) s"

definition quote_line :: string where "quote_line = [CHR 0x22, CHR 0x0A]"

definition append_url :: "string \<Rightarrow> string \<Rightarrow> string \<Rightarrow> string" where
  "append_url out origin path =
     push_escaped (push_escaped (out @ ''url = '' @ [CHR 0x22]) origin) path @ quote_line"

definition pad3 :: "nat \<Rightarrow> string" where
  "pad3 n = replicate (3 - length (nat_string 10 n)) (CHR ''0'') @ nat_string 10 n"

definition timeout_seconds :: "nat \<Rightarrow> string" where
  "timeout_seconds ms =
     (let whole = ms div 1000; frac = ms mod 1000 in
      if frac = 0 then nat_string 10 whole
      else trim_end (CHR ''0'') (nat_string 10 whole @ ''.'' @ pad3 frac))"

definition append_timeouts :: "string \<Rightarrow> timeouts \<Rightarrow> string" where
  "append_timeouts out t =
     out @ ''connect-timeout = '' @ [CHR 0x22] @ timeout_seconds (to_connect_ms t) @ quote_line
       @ ''max-time = '' @ [CHR 0x22] @ timeout_seconds (to_total_ms t) @ quote_line"

definition config_prefix :: "destination \<Rightarrow> string" where
  "config_prefix d =
     (let prefix = append_timeouts (append_url [] (ds_origin d) (ds_path d)) (ds_timeouts d) in
      case ds_ca_file d of
        None \<Rightarrow> prefix
      | Some path \<Rightarrow> push_escaped (prefix @ ''cacert = '' @ [CHR 0x22]) path @ quote_line)"

section \<open>Credentials\<close>

definition valid_private_ascii :: "string \<Rightarrow> bool" where
  "valid_private_ascii v \<longleftrightarrow> v \<noteq> [] \<and> length v \<le> max_credential \<and> list_all printable v"

definition valid_basic :: "string \<Rightarrow> bool" where
  "valid_basic v \<longleftrightarrow> v \<noteq> [] \<and> length v \<le> max_credential \<and> \<not> has_control v"

definition valid_bearer :: "string \<Rightarrow> bool" where
  "valid_bearer v =
     (if v = [] \<or> max_credential < length v then False
      else let token = trim_end (CHR ''='') v
           in token \<noteq> [] \<and> list_all (\<lambda>c. ascii_alnum c \<or> c \<in> set ''-._~+/'') token)"

definition auth_lines :: "string \<Rightarrow> auth \<Rightarrow> secret_input \<Rightarrow> error + string" where
  "auth_lines out a v =
     (case a of
        AuthBasic \<Rightarrow>
          if length v \<noteq> 2 then Inl Invalid
          else (case (map_of v Username, map_of v Password) of
             (Some username, Some password) \<Rightarrow>
               if \<not> valid_basic username \<or> CHR '':'' \<in> set username \<or> \<not> valid_basic password then Inl Invalid
               else Inr (push_escaped (push_escaped (out @ ''user = '' @ [CHR 0x22]) username @ '':'') password @ quote_line)
           | _ \<Rightarrow> Inl Invalid)
      | AuthBearer \<Rightarrow>
          if length v \<noteq> 1 then Inl Invalid
          else (case map_of v ApiKey of
             None \<Rightarrow> Inl Invalid
           | Some token \<Rightarrow>
               if \<not> valid_bearer token then Inl Invalid
               else Inr (push_escaped (out @ ''header = '' @ [CHR 0x22] @ ''Authorization: Bearer '') token @ quote_line))
      | AuthHeader name \<Rightarrow>
          if length v \<noteq> 1 then Inl Invalid
          else (case map_of v ApiKey of
             None \<Rightarrow> Inl Invalid
           | Some token \<Rightarrow>
               if \<not> valid_header_name name \<or> \<not> valid_private_ascii token then Inl Invalid
               else Inr (push_escaped (push_escaped (out @ ''header = '' @ [CHR 0x22]) name @ '': '') token @ quote_line))
      | AuthQuery param \<Rightarrow>
          if length v \<noteq> 1 then Inl Invalid
          else (case map_of v ApiKey of
             None \<Rightarrow> Inl Invalid
           | Some token \<Rightarrow>
               if \<not> valid_query_param param \<or> \<not> valid_private_ascii token then Inl Invalid
               else Inr (push_escaped (push_escaped (out @ ''data-urlencode = '' @ [CHR 0x22]) param @ ''='') token
                      @ quote_line @ ''get'' @ [CHR 0x0A])))"

definition append_auth :: "string \<Rightarrow> auth \<Rightarrow> secret_input \<Rightarrow> error + string" where
  "append_auth out a v =
     (case auth_lines out a v of
        Inl e \<Rightarrow> Inl e
      | Inr out' \<Rightarrow> if max_config < length out' then Inl Invalid else Inr out')"

definition map_status :: "bool \<Rightarrow> string \<Rightarrow> delivery_status" where
  "map_status success bytes =
     (if \<not> success \<or> length bytes \<noteq> 3 \<or> \<not> list_all ascii_digit bytes then DUnknown
      else if hd bytes = CHR ''2'' then DAccepted
      else if hd bytes = CHR ''3'' \<or> hd bytes = CHR ''4'' then DRejected
      else DUnknown)"

section \<open>The delivery loop\<close>

text \<open>
  What one pass of the loop observes: whether the deadline had passed, what the write, the read, the
  wait and the poll returned. A write returns at most the bytes offered and a read at most the room
  left in the buffer of four bytes.
\<close>

datatype io_write_result = WroteBytes nat | WriteTransient | WriteBroken
datatype io_read_result = ReadBytes string | ReadTransient | ReadBroken
datatype wait_result = StillRunning | Exited bool | WaitBroken

record tick =
  tc_expired :: bool
  tc_write :: io_write_result
  tc_read :: io_read_result
  tc_wait :: wait_result
  tc_poll_broken :: bool

record delivery =
  dl_sent :: nat
  dl_input_open :: bool
  dl_received :: string
  dl_eof :: bool
  dl_exit :: "bool option"

definition delivery_start :: delivery where
  "delivery_start = \<lparr>dl_sent = 0, dl_input_open = True, dl_received = [], dl_eof = False, dl_exit = None\<rparr>"

definition deliver_write :: "nat \<Rightarrow> tick \<Rightarrow> delivery \<Rightarrow> delivery_status + delivery" where
  "deliver_write len t s =
     (if \<not> dl_input_open s then Inr s
      else case tc_write t of
        WriteBroken \<Rightarrow> Inl DUnknown
      | WroteBytes count \<Rightarrow>
          if count = 0 then Inl DUnknown
          else Inr (s\<lparr>dl_sent := dl_sent s + count, dl_input_open := dl_sent s + count \<noteq> len\<rparr>)
      | WriteTransient \<Rightarrow> Inr (s\<lparr>dl_input_open := dl_sent s \<noteq> len\<rparr>))"

definition deliver_read :: "tick \<Rightarrow> delivery \<Rightarrow> delivery_status + delivery" where
  "deliver_read t s =
     (if dl_eof s then Inr s
      else case tc_read t of
        ReadBroken \<Rightarrow> Inl DUnknown
      | ReadTransient \<Rightarrow> Inr s
      | ReadBytes bytes \<Rightarrow>
          if bytes = [] then Inr (s\<lparr>dl_eof := True\<rparr>)
          else if length (dl_received s @ bytes) = 4 then Inl DUnknown
          else Inr (s\<lparr>dl_received := dl_received s @ bytes\<rparr>))"

definition deliver_wait :: "tick \<Rightarrow> delivery \<Rightarrow> delivery_status + delivery" where
  "deliver_wait t s =
     (case dl_exit s of
        Some _ \<Rightarrow> Inr s
      | None \<Rightarrow>
          (case tc_wait t of
             WaitBroken \<Rightarrow> Inl DUnknown
           | StillRunning \<Rightarrow> Inr s
           | Exited success \<Rightarrow> Inr (s\<lparr>dl_exit := Some success\<rparr>)))"

definition deliver_tick :: "nat \<Rightarrow> tick \<Rightarrow> delivery \<Rightarrow> delivery_status + delivery" where
  "deliver_tick len t s0 =
     (if tc_expired t then Inl DUnknown
      else case deliver_write len t s0 of
        Inl r \<Rightarrow> Inl r
      | Inr s1 \<Rightarrow>
        (case deliver_read t s1 of
           Inl r \<Rightarrow> Inl r
         | Inr s2 \<Rightarrow>
           (case deliver_wait t s2 of
              Inl r \<Rightarrow> Inl r
            | Inr s3 \<Rightarrow>
                (case dl_exit s3 of
                   Some success \<Rightarrow>
                     if dl_eof s3 then Inl (map_status success (dl_received s3))
                     else if tc_poll_broken t then Inl DUnknown else Inr s3
                 | None \<Rightarrow> if tc_poll_broken t then Inl DUnknown else Inr s3))))"

text \<open>The loop over the passes observed so far: no result while it is still running.\<close>

fun deliver_loop :: "nat \<Rightarrow> tick list \<Rightarrow> delivery \<Rightarrow> delivery_status option" where
  "deliver_loop len [] s = None"
| "deliver_loop len (t # ts) s =
     (case deliver_tick len t s of Inl status \<Rightarrow> Some status | Inr s' \<Rightarrow> deliver_loop len ts s')"

record prepared_https =
  ph_prefix :: string
  ph_auth :: auth
  ph_wall :: nat

definition prepare ::
    "nat \<Rightarrow> (string list \<Rightarrow> file_metadata option) \<Rightarrow> bool \<Rightarrow> destination \<Rightarrow> error + prepared_https" where
  "prepare euid stat child_ok d =
     (case validate_destination euid stat d of
        Inl e \<Rightarrow> Inl e
      | Inr _ \<Rightarrow>
          if \<not> child_ok then Inl InteractionRequired
          else Inr \<lparr>ph_prefix = config_prefix d, ph_auth = ds_auth d, ph_wall = wall (ds_timeouts d)\<rparr>)"

text \<open>The callback of the delivery, and the text it writes to the child.\<close>

definition deliver :: "prepared_https \<Rightarrow> tick list \<Rightarrow> secret_input \<Rightarrow> (error + delivery_status) option" where
  "deliver p ticks v =
     (case append_auth (ph_prefix p) (ph_auth p) v of
        Inl e \<Rightarrow> Some (Inl e)
      | Inr config \<Rightarrow> map_option Inr (deliver_loop (length config) ticks delivery_start))"

end
