(* ===== verification/Https_Properties.thy ===== *)
theory Https_Properties
  imports Https
begin

text \<open>
  Properties of the HTTPS consumer: the configuration handed to the child reads back as exactly the
  intended settings, fits its buffer, and names a plain origin; the reported status is evidence of
  the child's answer and the loop always ends.
\<close>

section \<open>Reading the configuration back\<close>

text \<open>
  The specification of the configuration language, as the \<^verbatim>\<open>curl\<close> manual documents it: one setting
  per line, a value in double quotes in which a backslash protects a quote or a backslash, and a value
  never continues on the next line.
\<close>

datatype directive = Setting string string | Flag string

fun read_value :: "string \<Rightarrow> (string \<times> string) option" where
  "read_value [] = None"
| "read_value (c # s) =
     (if c = CHR 0x22 then Some ([], s)
      else if c = CHR 0x0A then None
      else if c = CHR 0x5C then
        (case s of
           d # r \<Rightarrow> if d = CHR 0x22 \<or> d = CHR 0x5C then map_option (\<lambda>(v, t). (d # v, t)) (read_value r) else None
         | [] \<Rightarrow> None)
      else map_option (\<lambda>(v, t). (c # v, t)) (read_value s))"

definition name_char :: "char \<Rightarrow> bool" where
  "name_char c \<longleftrightarrow> ascii_lower c \<or> c = CHR ''-''"

definition read_directive :: "string \<Rightarrow> (directive \<times> string) option" where
  "read_directive s =
     (let name = takeWhile name_char s; rest = dropWhile name_char s in
      case strip_prefix ('' = '' @ [CHR 0x22]) rest of
        Some r \<Rightarrow>
          (case read_value r of
             Some (v, c # r') \<Rightarrow> if c = CHR 0x0A then Some (Setting name v, r') else None
           | _ \<Rightarrow> None)
      | None \<Rightarrow>
          (case rest of c # r \<Rightarrow> if c = CHR 0x0A then Some (Flag name, r) else None | [] \<Rightarrow> None))"

fun read_config :: "nat \<Rightarrow> string \<Rightarrow> directive list option" where
  "read_config 0 s = (if s = [] then Some [] else None)"
| "read_config (Suc n) s =
     (if s = [] then Some []
      else case read_directive s of
             None \<Rightarrow> None
           | Some (d, r) \<Rightarrow> map_option ((#) d) (read_config n r))"

fun escape :: "string \<Rightarrow> string" where
  "escape [] = []"
| "escape (c # s) = (if c = CHR 0x5C \<or> c = CHR 0x22 then [CHR 0x5C, c] else [c]) @ escape s"

fun render :: "directive \<Rightarrow> string" where
  "render (Setting name v) = name @ '' = '' @ [CHR 0x22] @ escape v @ quote_line"
| "render (Flag name) = name @ [CHR 0x0A]"

fun directive_ok :: "directive \<Rightarrow> bool" where
  "directive_ok (Setting name v) \<longleftrightarrow> list_all name_char name \<and> CHR 0x0A \<notin> set v"
| "directive_ok (Flag name) \<longleftrightarrow> list_all name_char name"

lemma push_escaped_escape: "push_escaped out s = out @ escape s"
  by (induction out s rule: push_escaped.induct) auto

lemma escape_append: "escape (a @ b) = escape a @ escape b"
  by (induction a) auto

lemma length_escape: "length (escape s) \<le> 2 * length s"
  by (induction s) auto

lemma read_value_escape: "CHR 0x0A \<notin> set v \<Longrightarrow> read_value (escape v @ CHR 0x22 # r) = Some (v, r)"
  by (induction v) auto

lemma name_chars_stop: "list_all name_char name \<Longrightarrow> \<not> name_char c \<Longrightarrow>
    takeWhile name_char (name @ c # r) = name \<and> dropWhile name_char (name @ c # r) = c # r"
  by (induction name) auto

lemma read_render:
  assumes "directive_ok d"
  shows "read_directive (render d @ r) = Some (d, r)"
proof (cases d)
  case (Setting name v)
  have "\<not> name_char (CHR '' '')" by code_simp
  then show ?thesis
    using assms Setting name_chars_stop [of name "CHR '' ''" "''= '' @ CHR 0x22 # escape v @ quote_line @ r"]
    by (simp add: read_directive_def quote_line_def read_value_escape Let_def)
next
  case (Flag name)
  have "\<not> name_char (CHR 0x0A)" by code_simp
  then show ?thesis
    using assms Flag name_chars_stop [of name "CHR 0x0A" r] by (simp add: read_directive_def Let_def)
qed

lemma render_not_Nil: "render d \<noteq> []"
  by (cases d) (simp_all add: quote_line_def)

lemma read_config_render:
  "list_all directive_ok ds \<Longrightarrow> length ds \<le> n \<Longrightarrow> read_config n (concat (map render ds)) = Some ds"
proof (induction ds arbitrary: n)
  case Nil
  then show ?case by (cases n) simp_all
next
  case (Cons d ds)
  then obtain m where "n = Suc m" "length ds \<le> m" by (cases n) auto
  then show ?case using Cons by (simp add: read_render render_not_Nil)
qed

lemma length_render: "length ds \<le> length (concat (map render ds))"
proof (induction ds)
  case (Cons d ds)
  then show ?case using render_not_Nil [of d] by (cases "render d") auto
qed simp

section \<open>No line breaks in values\<close>

lemma newline_facts: "\<not> ascii_alnum (CHR 0x0A)" "\<not> ascii_digit (CHR 0x0A)" "\<not> ascii_hexdigit (CHR 0x0A)"
  "\<not> printable (CHR 0x0A)" "\<not> path_char (CHR 0x0A)" "\<not> is_tchar (CHR 0x0A)" "ascii_control (CHR 0x0A)"
  by code_simp+

lemma has_control_member: "c \<in> set s \<Longrightarrow> ascii_control c \<Longrightarrow> has_control s"
  by (induction s rule: has_control.induct) auto

lemma has_control_newline: "CHR 0x0A \<in> set s \<Longrightarrow> has_control s"
  by (rule has_control_member [OF _ newline_facts(7)])

lemma path_bytes_chars: "path_bytes s \<Longrightarrow> c \<in> set s \<Longrightarrow> path_char c \<or> ascii_hexdigit c \<or> c = CHR ''%''"
proof (induction s rule: path_bytes.induct)
  case (2 a s)
  show ?case
  proof (cases "a = CHR ''%''")
    case True
    then obtain h l r where "s = h # l # r" "ascii_hexdigit h" "ascii_hexdigit l" "path_bytes r"
      using 2(3) by (auto split: list.splits)
    then show ?thesis using 2 True by auto
  next
    case False
    then show ?thesis using 2 by auto
  qed
qed simp

lemma path_bytes_plain: "path_bytes s \<Longrightarrow> CHR 0x0A \<notin> set s"
  using path_bytes_chars [of s "CHR 0x0A"] newline_facts by auto

lemma timeout_plain: "CHR 0x0A \<notin> set (timeout_seconds ms)"
proof -
  have d: "CHR 0x0A \<notin> set (nat_string 10 n)" for n
    using nat_string_alnum [of 10 "CHR 0x0A" n] newline_facts(1) by auto
  have t: "set (trim_end x s) \<subseteq> set s" for x and s :: string
    by (metis trim_end_prefix set_append Un_upper1)
  show ?thesis
    using d t [of "CHR ''0''" "nat_string 10 (ms div 1000) @ ''.'' @ pad3 (ms mod 1000)"]
    by (auto simp: timeout_seconds_def pad3_def Let_def)
qed

section \<open>Origins\<close>

lemma valid_host_chars:
  assumes "valid_host host" and "c \<in> set host"
  shows "ascii_alnum c \<or> c = CHR ''-'' \<or> c = CHR ''.''"
proof (cases "parse_ipv4 host")
  case None
  then have "list_all dns_label (split_on (CHR ''.'') host)"
    using assms(1) by (simp add: valid_host_def split: if_splits)
  then show ?thesis
    using set_split_on [OF assms(2), of "CHR ''.''"] by (auto simp: list_all_iff dns_label_def)
next
  case (Some ip)
  then have "host = show_ipv4 ip" using assms(1) by (simp add: valid_host_def split: if_splits)
  then show ?thesis using show_ipv4_chars assms(2) by auto
qed

lemma valid_port_chars: "valid_port port \<Longrightarrow> c \<in> set port \<Longrightarrow> ascii_alnum c"
  by (auto simp: valid_port_def list_all_iff ascii_alnum_digit)

lemma valid_ipv6_chars:
  assumes "valid_ipv6_authority a" and "c \<in> set a"
  shows "ascii_alnum c \<or> c \<in> set ''.:[]''"
proof -
  obtain rest where r: "strip_prefix ''['' a = Some rest"
    using assms(1) by (cases "strip_prefix ''['' a") (simp_all add: valid_ipv6_authority_def)
  then obtain addr after where sp: "split_once (CHR '']'') rest = Some (addr, after)"
    using assms(1) by (cases "split_once (CHR '']'') rest") (auto simp: valid_ipv6_authority_def)
  then obtain ip where ip: "parse_ipv6 addr = Some ip"
    using assms(1) r by (cases "parse_ipv6 addr") (simp_all add: valid_ipv6_authority_def split: if_splits)
  have p: "strip_prefix ''['' a = Some rest" "split_once (CHR '']'') rest = Some (addr, after)" "addr = show_ipv6 ip"
    using assms(1) r sp ip by (simp_all add: valid_ipv6_authority_def split: if_splits)
  have p4: "after = [] \<or> (\<exists>port. strip_prefix '':'' after = Some port \<and> valid_port port)"
    using assms(1) r sp ip by (cases "strip_prefix '':'' after") (simp_all add: valid_ipv6_authority_def split: if_splits)
  have "a = ''['' @ addr @ '']'' @ after"
    using p(1) split_once_Some [OF p(2)] by (auto simp: strip_prefix_Some)
  moreover have "ascii_alnum c \<or> c = CHR '':''" if "c \<in> set after"
    using p4 that valid_port_chars by (auto simp: strip_prefix_Some)
  ultimately show ?thesis
    using assms(2) show_ipv6_chars [of c ip] p(3) by auto
qed

lemma valid_origin_authority:
  assumes "valid_origin origin"
  obtains authority where "origin = ''https://'' @ authority" "authority \<noteq> []"
    "\<forall>c \<in> set authority. ascii_alnum c \<or> c \<in> set ''-.:[]''"
proof -
  obtain authority where a: "strip_prefix ''https://'' origin = Some authority"
      "if authority \<noteq> [] \<and> hd authority = CHR ''['' then valid_ipv6_authority authority
       else (case split_once (CHR '':'') authority of
               Some (host, port) \<Rightarrow> valid_port port \<and> valid_host host | None \<Rightarrow> valid_host authority)"
    using assms by (auto simp: valid_origin_def split: if_splits option.splits)
  have "authority \<noteq> []" using a(2) by (auto simp: valid_host_def)
  moreover have "ascii_alnum c \<or> c \<in> set ''-.:[]''" if c: "c \<in> set authority" for c
  proof (cases "authority \<noteq> [] \<and> hd authority = CHR ''[''")
    case True
    then show ?thesis using a(2) valid_ipv6_chars [OF _ c] by auto
  next
    case no_bracket: False
    show ?thesis
    proof (cases "split_once (CHR '':'') authority")
      case None
      then have "valid_host authority" using a(2) no_bracket by (auto split: if_splits)
      then show ?thesis using valid_host_chars [OF _ c] by auto
    next
      case (Some hp)
      then obtain host port where hp: "authority = host @ CHR '':'' # port" "valid_port port" "valid_host host"
        using a(2) no_bracket split_once_Some [of "CHR '':''" authority] by (cases hp) (auto split: if_splits)
      then show ?thesis using c valid_host_chars [OF hp(3)] valid_port_chars [OF hp(2)] by auto
    qed
  qed
  ultimately show ?thesis using that a(1) by (simp add: strip_prefix_Some)
qed

lemma alnum_not_control: "ascii_alnum c \<Longrightarrow> \<not> ascii_control c"
  by (auto simp: ascii_control_def ascii_alnum_def ascii_digit_def ascii_lower_def ascii_upper_def less_char_def
      less_eq_char_def)


section \<open>The configuration as a whole\<close>

definition destination_directives :: "destination \<Rightarrow> directive list" where
  "destination_directives d =
     [Setting ''url'' (ds_origin d @ ds_path d),
      Setting ''connect-timeout'' (timeout_seconds (to_connect_ms (ds_timeouts d))),
      Setting ''max-time'' (timeout_seconds (to_total_ms (ds_timeouts d)))]
     @ (case ds_ca_file d of None \<Rightarrow> [] | Some path \<Rightarrow> [Setting ''cacert'' path])"

definition auth_directives :: "auth \<Rightarrow> secret_input \<Rightarrow> directive list" where
  "auth_directives a v =
     (let secret_of = (\<lambda>f. case map_of v f of None \<Rightarrow> [] | Some x \<Rightarrow> x) in
      case a of
        AuthBasic \<Rightarrow> [Setting ''user'' (secret_of Username @ '':'' @ secret_of Password)]
      | AuthBearer \<Rightarrow> [Setting ''header'' (''Authorization: Bearer '' @ secret_of ApiKey)]
      | AuthHeader name \<Rightarrow> [Setting ''header'' (name @ '': '' @ secret_of ApiKey)]
      | AuthQuery param \<Rightarrow> [Setting ''data-urlencode'' (param @ ''='' @ secret_of ApiKey), Flag ''get''])"

lemma escape_plain: "CHR 0x22 \<notin> set s \<Longrightarrow> CHR 0x5C \<notin> set s \<Longrightarrow> escape s = s"
  by (induction s) auto

lemma timeout_chars: "c \<in> set (timeout_seconds ms) \<Longrightarrow> ascii_alnum c \<or> c = CHR ''.''"
proof -
  assume c: "c \<in> set (timeout_seconds ms)"
  have t: "set (trim_end x s) \<subseteq> set s" for x and s :: string
    by (metis trim_end_prefix set_append Un_upper1)
  have zero: "ascii_alnum (CHR ''0'')" by code_simp
  show ?thesis
    using c zero nat_string_alnum [of 10 c] t [of "CHR ''0''" "nat_string 10 (ms div 1000) @ ''.'' @ pad3 (ms mod 1000)"]
    by (auto simp: timeout_seconds_def pad3_def Let_def split: if_splits)
qed

lemma escape_timeout: "escape (timeout_seconds ms) = timeout_seconds ms"
proof (rule escape_plain)
  have "\<not> ascii_alnum (CHR 0x22)" "\<not> ascii_alnum (CHR 0x5C)" by code_simp+
  then show "CHR 0x22 \<notin> set (timeout_seconds ms)" "CHR 0x5C \<notin> set (timeout_seconds ms)"
    using timeout_chars by force+
qed

lemma config_prefix_render: "config_prefix d = concat (map render (destination_directives d))"
  by (simp add: config_prefix_def destination_directives_def append_url_def append_timeouts_def
      push_escaped_escape escape_append escape_timeout Let_def split: option.split)

lemma auth_lines_render:
  "auth_lines out a v = Inr out' \<Longrightarrow> out' = out @ concat (map render (auth_directives a v))"
  by (auto simp: auth_lines_def auth_directives_def push_escaped_escape escape_append Let_def
      split: auth.splits option.splits if_splits)

lemma destination_directives_ok:
  assumes "validate_destination euid stat d = Inr ()"
  shows "list_all directive_ok (destination_directives d)"
proof -
  have d: "valid_origin (ds_origin d)" "valid_path (ds_path d)"
    "ds_ca_file d = Some path \<Longrightarrow> validate_ca euid stat path = Inr ()" for path
    using assms by (auto simp: validate_destination_def split: if_splits sum.splits)
  obtain authority where a: "ds_origin d = ''https://'' @ authority" "\<forall>c \<in> set authority. ascii_alnum c \<or> c \<in> set ''-.:[]''"
    by (rule valid_origin_authority [OF d(1)])
  then have "CHR 0x0A \<notin> set (ds_origin d)" using newline_facts(1) by auto
  moreover have "CHR 0x0A \<notin> set (ds_path d)" using d(2) path_bytes_plain by (simp add: valid_path_def)
  moreover have "ds_ca_file d = Some path \<Longrightarrow> CHR 0x0A \<notin> set path" for path
    using d(3) has_control_newline by (auto simp: validate_ca_def split: if_splits)
  moreover have "list_all (list_all name_char) [''url'', ''connect-timeout'', ''max-time'', ''cacert'']" by code_simp
  ultimately show ?thesis
    by (simp add: destination_directives_def timeout_plain split: option.split)
qed

lemma bearer_plain: "valid_bearer v \<Longrightarrow> CHR 0x0A \<notin> set v"
proof -
  assume v: "valid_bearer v"
  obtain n where n: "v = trim_end (CHR ''='') v @ replicate n (CHR ''='')" using trim_end_prefix by blast
  have "CHR 0x0A \<notin> set (trim_end (CHR ''='') v)"
    using v newline_facts(1) by (auto simp: valid_bearer_def Let_def list_all_iff split: if_splits)
  then show ?thesis by (subst n) auto
qed

lemma auth_directives_ok:
  assumes "auth_lines out a v = Inr out'"
  shows "list_all directive_ok (auth_directives a v)"
proof -
  have names: "list_all (list_all name_char) [''user'', ''header'', ''data-urlencode'', ''get'']" by code_simp
  have "valid_basic s \<Longrightarrow> CHR 0x0A \<notin> set s" for s using has_control_newline by (auto simp: valid_basic_def)
  moreover have "valid_private_ascii s \<Longrightarrow> CHR 0x0A \<notin> set s" for s
    using newline_facts(4) by (auto simp: valid_private_ascii_def list_all_iff)
  moreover have "valid_header_name s \<Longrightarrow> CHR 0x0A \<notin> set s" for s
    using newline_facts(6) by (auto simp: valid_header_name_def list_all_iff)
  moreover have "valid_query_param s \<Longrightarrow> CHR 0x0A \<notin> set s" for s
    using newline_facts(1) by (auto simp: valid_query_param_def list_all_iff)
  ultimately show ?thesis
    using assms names bearer_plain
    by (cases a) (auto simp: auth_lines_def auth_directives_def Let_def split: option.splits if_splits)
qed

text \<open>
  C24: No configured or secret value can escape its setting. For a validated destination and accepted
  credentials, reading the text handed to the child gives exactly the intended settings: the address,
  the two timeouts, the certificate file if there is one, and one credential setting whose value is
  the stored secret, byte for byte.
\<close>

theorem config_reads_back:
  assumes "validate_destination euid stat d = Inr ()"
    and "append_auth (config_prefix d) (ds_auth d) v = Inr config"
  shows "read_config (length config) config = Some (destination_directives d @ auth_directives (ds_auth d) v)"
proof -
  let ?ds = "destination_directives d @ auth_directives (ds_auth d) v"
  have a: "auth_lines (config_prefix d) (ds_auth d) v = Inr config"
    using assms(2) by (auto simp: append_auth_def split: sum.splits if_splits)
  then have "config = concat (map render ?ds)"
    using auth_lines_render [OF a] by (simp add: config_prefix_render)
  moreover have "list_all directive_ok ?ds"
    using destination_directives_ok [OF assms(1)] auth_directives_ok [OF a] by simp
  ultimately show ?thesis using read_config_render length_render by metis
qed

lemma length_nat_string: "length (nat_string radix n) \<le> Suc n"
proof (induction radix n rule: nat_string.induct)
  case (1 radix n)
  show ?case
  proof (cases "radix < 2 \<or> n < radix")
    case False
    then have "n div radix < n" by (intro div_less_dividend) auto
    moreover have "length (nat_string radix n) = Suc (length (nat_string radix (n div radix)))"
      using False by (subst nat_string.simps) simp
    ultimately show ?thesis using 1 [OF False] by linarith
  qed (simp add: nat_string.simps [of radix n])
qed

lemma length_timeout: "ms \<le> 30000 \<Longrightarrow> length (timeout_seconds ms) \<le> 1040"
proof -
  assume "ms \<le> 30000"
  then have "ms div 1000 \<le> 30" by (simp add: div_le_mono [of ms 30000 1000, simplified])
  then have w: "length (nat_string 10 (ms div 1000)) \<le> 31" using length_nat_string [of 10 "ms div 1000"] by linarith
  have "ms mod 1000 < 1000" by simp
  then have f: "length (nat_string 10 (ms mod 1000)) \<le> 1000"
    using length_nat_string [of 10 "ms mod 1000"] by linarith
  have t: "length (trim_end x s) \<le> length s" for x and s :: string
    by (metis trim_end_prefix length_append le_add1)
  let ?full = "nat_string 10 (ms div 1000) @ ''.'' @ pad3 (ms mod 1000)"
  have "length (pad3 (ms mod 1000)) \<le> 3 + length (nat_string 10 (ms mod 1000))" by (simp add: pad3_def)
  then have "length ?full \<le> 1040" using w f by simp
  then have "length (trim_end (CHR ''0'') ?full) \<le> 1040" using t le_trans by blast
  then show ?thesis using w by (simp add: timeout_seconds_def Let_def)
qed

lemma length_config_prefix:
  assumes "validate_destination euid stat d = Inr ()"
  shows "length (config_prefix d) \<le> 15600"
proof -
  have d: "valid_origin (ds_origin d)" "valid_path (ds_path d)" "validate_timeouts (ds_timeouts d) = Inr ()"
    "ds_ca_file d = Some path \<Longrightarrow> validate_ca euid stat path = Inr ()" for path
    using assms by (auto simp: validate_destination_def split: if_splits sum.splits)
  have "length (ds_origin d) \<le> 512" "length (ds_path d) \<le> 2048"
    using d(1,2) by (auto simp: valid_origin_def valid_path_def split: if_splits)
  moreover have "length (timeout_seconds (to_connect_ms (ds_timeouts d))) \<le> 1040"
    "length (timeout_seconds (to_total_ms (ds_timeouts d))) \<le> 1040"
    using d(3) by (auto simp: validate_timeouts_def intro!: length_timeout split: if_splits)
  moreover have "length path \<le> 4096" if "ds_ca_file d = Some path" for path
    using d(4) [OF that] by (auto simp: validate_ca_def split: if_splits)
  ultimately show ?thesis
    using length_escape [of "ds_origin d"] length_escape [of "ds_path d"] length_escape [of "the (ds_ca_file d)"]
    by (cases "ds_ca_file d")
       (simp_all add: config_prefix_def append_url_def append_timeouts_def push_escaped_escape quote_line_def Let_def)
qed

lemma length_auth_lines:
  assumes "auth_lines out a v = Inr out'"
  shows "length out' \<le> length out + 33000"
proof -
  have b: "valid_basic x \<Longrightarrow> length (escape x) \<le> 16384" "valid_bearer x \<Longrightarrow> length (escape x) \<le> 16384"
    "valid_private_ascii x \<Longrightarrow> length (escape x) \<le> 16384" "valid_header_name x \<Longrightarrow> length (escape x) \<le> 256"
    "valid_query_param x \<Longrightarrow> length (escape x) \<le> 128" for x
    using length_escape [of x]
    by (auto simp: valid_basic_def valid_bearer_def valid_private_ascii_def valid_header_name_def valid_query_param_def
        max_credential_def split: if_splits)
  show ?thesis
    using assms
    by (cases a) (auto simp: auth_lines_def push_escaped_escape quote_line_def dest!: b split: option.splits if_splits)
qed

text \<open>
  C38: The configuration always fits its buffer: for a validated destination the text with its
  credentials is at most 65536 bytes, so the buffer that holds plaintext is never reallocated and the
  final length check never refuses credentials that were accepted.
\<close>

theorem config_fits_buffer:
  assumes "validate_destination euid stat d = Inr ()"
  shows "append_auth (config_prefix d) (ds_auth d) v = auth_lines (config_prefix d) (ds_auth d) v
    \<and> (\<forall>config. append_auth (config_prefix d) (ds_auth d) v = Inr config \<longrightarrow> length config \<le> 65536)"
proof -
  have "length config \<le> 65536" if "auth_lines (config_prefix d) (ds_auth d) v = Inr config" for config
    using length_auth_lines [OF that] length_config_prefix [OF assms] by simp
  then show ?thesis by (auto simp: append_auth_def max_config_def split: sum.split)
qed

section \<open>The delivery loop\<close>

text \<open>What is known of a run of the loop: the bytes received and the exit of the child are what was observed.\<close>

definition observed :: "tick list \<Rightarrow> delivery \<Rightarrow> bool" where
  "observed ticks s \<longleftrightarrow>
     (\<forall>success. dl_exit s = Some success \<longrightarrow> (\<exists>t \<in> set ticks. tc_wait t = Exited success))
     \<and> (dl_eof s \<longrightarrow> (\<exists>t \<in> set ticks. tc_read t = ReadBytes []))
     \<and> set (dl_received s) \<subseteq> (\<Union>t \<in> set ticks. case tc_read t of ReadBytes bytes \<Rightarrow> set bytes | _ \<Rightarrow> {})"

lemma observed_mono: "observed ticks s \<Longrightarrow> observed (ticks @ [t]) s"
  unfolding observed_def by (simp add: Bex_def) blast

lemma observed_write: "deliver_write len t s = Inr s' \<Longrightarrow> observed ticks s \<Longrightarrow> observed ticks s'"
  by (auto simp: deliver_write_def observed_def split: if_splits io_write_result.splits)

lemma observed_read:
  assumes "deliver_read t s = Inr s'" and "observed (ticks @ [t]) s"
  shows "observed (ticks @ [t]) s'"
proof (cases "dl_eof s")
  case False
  then show ?thesis
    using assms by (cases "tc_read t") (auto simp: deliver_read_def observed_def split: if_splits)
qed (use assms in \<open>simp add: deliver_read_def\<close>)

lemma observed_wait:
  assumes "deliver_wait t s = Inr s'" and "observed (ticks @ [t]) s"
  shows "observed (ticks @ [t]) s'"
proof (cases "dl_exit s")
  case None
  then show ?thesis
    using assms by (cases "tc_wait t") (auto simp: deliver_wait_def observed_def)
qed (use assms in \<open>simp add: deliver_wait_def\<close>)

lemma deliver_tick_cases:
  assumes "deliver_tick len t s = r" and "observed ticks s"
  obtains (unknown) "r = Inl DUnknown"
    | (answered) s' success where "r = Inl (map_status success (dl_received s'))" "dl_exit s' = Some success" "dl_eof s'"
        "observed (ticks @ [t]) s'"
    | (going) s' where "r = Inr s'" "observed (ticks @ [t]) s'"
proof (cases "\<not> tc_expired t \<and> (\<exists>s1 s2 s3. deliver_write len t s = Inr s1 \<and> deliver_read t s1 = Inr s2 \<and> deliver_wait t s2 = Inr s3)")
  case True
  then obtain s1 s2 s3 where s: "\<not> tc_expired t" "deliver_write len t s = Inr s1" "deliver_read t s1 = Inr s2"
      "deliver_wait t s2 = Inr s3"
    by blast
  then have "observed (ticks @ [t]) s3"
    using observed_mono [OF assms(2)] observed_write observed_read observed_wait by blast
  moreover have "r = (case dl_exit s3 of
      Some success \<Rightarrow> if dl_eof s3 then Inl (map_status success (dl_received s3))
        else if tc_poll_broken t then Inl DUnknown else Inr s3
    | None \<Rightarrow> if tc_poll_broken t then Inl DUnknown else Inr s3)"
    using assms(1) s by (auto simp: deliver_tick_def split: option.splits)
  ultimately show ?thesis
    using that by (cases "dl_exit s3") (auto split: if_splits)
next
  case False
  have unk: "deliver_write len t s = Inl x \<Longrightarrow> x = DUnknown" "deliver_read t s1 = Inl x \<Longrightarrow> x = DUnknown"
    "deliver_wait t s2 = Inl x \<Longrightarrow> x = DUnknown" for x s1 s2
    by (auto simp: deliver_write_def deliver_read_def deliver_wait_def
        split: if_splits io_write_result.splits io_read_result.splits wait_result.splits option.splits)
  have "r = Inl DUnknown"
  proof (cases "tc_expired t")
    case no: False
    show ?thesis
    proof (cases "deliver_write len t s")
      case (Inl x)
      then show ?thesis using no assms(1) unk(1) [OF Inl] by (simp add: deliver_tick_def)
    next
      case s1: (Inr s1)
      show ?thesis
      proof (cases "deliver_read t s1")
        case (Inl x)
        then show ?thesis using no assms(1) s1 unk(2) [OF Inl] by (simp add: deliver_tick_def)
      next
        case s2: (Inr s2)
        then obtain x where x: "deliver_wait t s2 = Inl x"
          using no s1 False by (cases "deliver_wait t s2") auto
        then show ?thesis using no assms(1) s1 s2 unk(3) [OF x] by (simp add: deliver_tick_def)
      qed
    qed
  qed (use assms(1) in \<open>simp add: deliver_tick_def\<close>)
  then show ?thesis by (rule unknown)
qed

lemma deliver_loop_evidence:
  assumes "deliver_loop len ticks s = Some status" and "observed seen s" and "status \<noteq> DUnknown"
  shows "\<exists>s' success. observed (seen @ ticks) s' \<and> dl_exit s' = Some success \<and> dl_eof s'
    \<and> status = map_status success (dl_received s')"
  using assms
proof (induction ticks arbitrary: s seen)
  case (Cons t ticks)
  have mono: "observed (seen @ [t]) s' \<Longrightarrow> observed (seen @ t # ticks) s'" for s'
    unfolding observed_def by (simp add: Bex_def) blast
  from refl [of "deliver_tick len t s"] Cons.prems(2) show ?case
  proof (cases rule: deliver_tick_cases)
    case unknown
    then show ?thesis using Cons.prems by simp
  next
    case (answered s' success)
    then show ?thesis using Cons.prems mono by auto
  next
    case (going s')
    then show ?thesis using Cons.IH [of s' "seen @ [t]"] Cons.prems by simp
  qed
qed simp


section \<open>Examples\<close>

definition ex_destination :: destination where
  "ex_destination = \<lparr>ds_id = ''svc'', ds_service = ''svc'', ds_origin = ''https://api.example:8443'', ds_path = ''/v1/me'',
     ds_auth = AuthBearer, ds_ca_file = None, ds_timeouts = default_timeouts\<rparr>"

definition ex_token :: secret_input where
  "ex_token = [(ApiKey, ''abc='')]"

lemmas char_class_defs = ascii_alnum_def ascii_digit_def ascii_upper_def ascii_lower_def ascii_hexdigit_def
  printable_def less_eq_char_def

lemma ex_not_ipv4: "parse_ipv4 ''api.example'' = None"
proof -
  have four: "4 = Suc 3" by simp
  have none: "read_octets (Suc 3) True ''api.example'' = None"
    unfolding read_octets.simps(2) by (simp add: read_number_def is_digit_def to_digit_def char_class_defs Let_def)
  show ?thesis unfolding parse_ipv4_def read_ipv4_def four none by simp
qed

lemma ex_port: "valid_port ''8443''"
  by (simp add: valid_port_def digits_value_def to_digit_def char_class_defs Let_def)

lemma ex_host: "valid_host ''api.example''"
  by (simp add: valid_host_def ex_not_ipv4 numeric_label_def dns_label_def char_class_defs)

lemma ex_origin: "valid_origin ''https://api.example:8443''"
  by (simp add: valid_origin_def ex_port ex_host less_eq_char_def)

lemma ex_destination_valid: "validate_destination 0 (\<lambda>_. None) ex_destination = Inr ()"
  using ex_origin
  by (simp add: validate_destination_def ex_destination_def valid_path_def path_char_def validate_timeouts_def
      default_timeouts_def default_connect_ms_def default_total_ms_def validate_auth_def char_class_defs)

lemma ex_lines: "auth_lines out AuthBearer ex_token
    = Inr (push_escaped (out @ ''header = '' @ [CHR 0x22] @ ''Authorization: Bearer '') ''abc='' @ quote_line)"
proof -
  have "valid_bearer ''abc=''" by code_simp
  then show ?thesis by (simp add: auth_lines_def ex_token_def)
qed


theorem config_fits_buffer_witness: "\<exists>config. append_auth (config_prefix ex_destination) AuthBearer ex_token = Inr config"
  using config_fits_buffer [OF ex_destination_valid, of ex_token] ex_lines by (simp add: ex_destination_def)

theorem config_reads_back_witness:
  "\<exists>config. append_auth (config_prefix ex_destination) AuthBearer ex_token = Inr config
     \<and> read_config (length config) config
        = Some [Setting ''url'' ''https://api.example:8443/v1/me'', Setting ''connect-timeout'' ''1'',
            Setting ''max-time'' ''2.5'', Setting ''header'' ''Authorization: Bearer abc='']"
proof -
  let ?config = "push_escaped (config_prefix ex_destination @ ''header = '' @ [CHR 0x22] @ ''Authorization: Bearer '') ''abc='' @ quote_line"
  have "length ?config \<le> max_config"
    using length_auth_lines [OF ex_lines, of "config_prefix ex_destination"] length_config_prefix [OF ex_destination_valid]
    by (simp add: max_config_def)
  then have c: "append_auth (config_prefix ex_destination) (ds_auth ex_destination) ex_token = Inr ?config"
    using ex_lines by (simp add: append_auth_def ex_destination_def)
  have "destination_directives ex_destination @ auth_directives (ds_auth ex_destination) ex_token
      = [Setting ''url'' ''https://api.example:8443/v1/me'', Setting ''connect-timeout'' ''1'',
            Setting ''max-time'' ''2.5'', Setting ''header'' ''Authorization: Bearer abc='']"
    by (simp add: destination_directives_def auth_directives_def ex_destination_def ex_token_def default_timeouts_def
        default_connect_ms_def default_total_ms_def timeout_seconds_def pad3_def nat_string.simps digit_char_def char_of_def bit_0 Let_def)
  then show ?thesis
    using config_reads_back [OF ex_destination_valid c] c by (simp add: ex_destination_def)
qed

definition ex_ticks :: "tick list" where
  "ex_ticks = [\<lparr>tc_expired = False, tc_write = WroteBytes 90, tc_read = ReadBytes ''204'', tc_wait = StillRunning, tc_poll_broken = False\<rparr>,
     \<lparr>tc_expired = False, tc_write = WriteTransient, tc_read = ReadBytes [], tc_wait = Exited True, tc_poll_broken = False\<rparr>]"


end
