(* ===== verification/Ipc.thy ===== *)
theory Ipc
  imports Codec
begin

text \<open>
  Framed JSON channels (\<^verbatim>\<open>src/src/agent_ipc.rs\<close>). The lexer and the printer of \<^verbatim>\<open>serde_json\<close> are
  parameters: \<open>jt_parse\<close> gives the tree of values the deserializer visits, with repeated keys still in
  it, and \<open>jt_chunks\<close> the pieces the serializer writes. A socket is what the peer has sent and not
  been read, together with a schedule that says how much each system call moves and which calls are
  interrupted, expire or fail; an exhausted schedule is an expired deadline.
\<close>

section \<open>Values\<close>

datatype number = NInt int | NFloat "64 word"

datatype json =
    JNull
  | JBool bool
  | JNumber number
  | JString string
  | JArray "json list"
  | JObject "(string, json) btmap"

text \<open>What the deserializer presents to the visitor.\<close>

datatype raw =
    RUnit
  | RBool bool
  | RInt int
  | RFloat "64 word"
  | RStr string
  | RSeq "raw list"
  | RMap "(string \<times> raw) list"

record json_text =
  jt_parse :: "u8 list \<Rightarrow> raw option"
  jt_chunks :: "json \<Rightarrow> u8 list list"

definition max_frame_bytes :: nat where "max_frame_bytes = 65536"
definition max_nesting :: nat where "max_nesting = 32"

datatype channel_error = InvalidConfiguration | InvalidFrame | ChannelIo | ChannelTimeout | Poisoned

section \<open>Strict reading\<close>

text \<open>\<^verbatim>\<open>Number::from_f64\<close>: not a number and the infinities have all exponent bits set.\<close>

definition finite_float :: "64 word \<Rightarrow> bool" where
  "finite_float w \<longleftrightarrow> and (drop_bit 52 w) 2047 \<noteq> 2047"

fun json_seed :: "nat \<Rightarrow> raw \<Rightarrow> json option"
  and seq_seed :: "nat \<Rightarrow> raw list \<Rightarrow> json list option"
  and map_seed :: "nat \<Rightarrow> string list \<Rightarrow> (string \<times> raw) list \<Rightarrow> (string, json) btmap \<Rightarrow> (string, json) btmap option" where
  "json_seed depth RUnit = Some JNull"
| "json_seed depth (RBool b) = Some (JBool b)"
| "json_seed depth (RInt n) = Some (JNumber (NInt n))"
| "json_seed depth (RFloat w) = (if finite_float w then Some (JNumber (NFloat w)) else None)"
| "json_seed depth (RStr s) = Some (JString s)"
| "json_seed depth (RSeq rs) =
     (if max_nesting \<le> depth then None else map_option JArray (seq_seed (depth + 1) rs))"
| "json_seed depth (RMap rs) =
     (if max_nesting \<le> depth then None else map_option JObject (map_seed (depth + 1) [] rs []))"
| "seq_seed depth [] = Some []"
| "seq_seed depth (r # rs) =
     (case json_seed depth r of
        None \<Rightarrow> None
      | Some v \<Rightarrow> map_option ((#) v) (seq_seed depth rs))"
| "map_seed depth keys [] values = Some values"
| "map_seed depth keys ((key, r) # rs) values =
     (if key \<in> set keys then None
      else case json_seed depth r of
             None \<Rightarrow> None
           | Some v \<Rightarrow> map_seed depth (key # keys) rs (bt_insert key v values))"

definition strict_json :: "json_text \<Rightarrow> u8 list \<Rightarrow> channel_error + json" where
  "strict_json jt bytes =
     (case Option.bind (jt_parse jt bytes) (json_seed 0) of None \<Rightarrow> Inl InvalidFrame | Some v \<Rightarrow> Inr v)"

fun validate_depth :: "nat \<Rightarrow> json \<Rightarrow> bool" where
  "validate_depth depth (JArray vs) = (depth < max_nesting \<and> list_all (validate_depth (depth + 1)) vs)"
| "validate_depth depth (JObject m) =
     (depth < max_nesting \<and> list_all (\<lambda>(key, v). validate_depth (depth + 1) v) m)"
| "validate_depth depth JNull = True"
| "validate_depth depth (JBool b) = True"
| "validate_depth depth (JNumber n) = True"
| "validate_depth depth (JString s) = True"

section \<open>Frame buffers\<close>

text \<open>The bounded writer, and the counter that only measures.\<close>

fun buffer_write :: "u8 list \<Rightarrow> u8 list list \<Rightarrow> u8 list option" where
  "buffer_write buffer [] = Some buffer"
| "buffer_write buffer (bytes # rest) =
     (if max_frame_bytes - length buffer < length bytes then None
      else buffer_write (buffer @ bytes) rest)"

fun size_write :: "nat \<Rightarrow> u8 list list \<Rightarrow> nat option" where
  "size_write n [] = Some n"
| "size_write n (bytes # rest) =
     (if max_frame_bytes - n < length bytes then None else size_write (n + length bytes) rest)"

definition fits_frame :: "json_text \<Rightarrow> json \<Rightarrow> bool" where
  "fits_frame jt v \<longleftrightarrow> validate_depth 0 v \<and> size_write 0 (jt_chunks jt v) \<noteq> None"

definition encode_frame :: "json_text \<Rightarrow> json \<Rightarrow> channel_error + u8 list" where
  "encode_frame jt v =
     (if \<not> validate_depth 0 v then Inl InvalidFrame
      else case buffer_write [] (jt_chunks jt v) of
             None \<Rightarrow> Inl InvalidFrame
           | Some bytes \<Rightarrow> if bytes = [] then Inl InvalidFrame else Inr bytes)"

section \<open>Reading and writing the socket\<close>

datatype io_event = Move nat | Interrupted | Expired | IoFailed bool

definition io_error :: "bool \<Rightarrow> channel_error" where
  "io_error timed_out = (if timed_out then ChannelTimeout else ChannelIo)"

fun read_until :: "nat \<Rightarrow> io_event list \<Rightarrow> u8 list \<Rightarrow> (channel_error + u8 list) \<times> io_event list \<times> u8 list" where
  "read_until 0 events pending = (Inr [], events, pending)"
| "read_until (Suc n) [] pending = (Inl ChannelTimeout, [], pending)"
| "read_until (Suc n) (Expired # events) pending = (Inl ChannelTimeout, events, pending)"
| "read_until (Suc n) (IoFailed timed_out # events) pending = (Inl (io_error timed_out), events, pending)"
| "read_until (Suc n) (Interrupted # events) pending = read_until (Suc n) events pending"
| "read_until (Suc n) (Move k # events) pending =
     (let bytes = take (min k (Suc n)) pending in
      if bytes = [] then (Inl ChannelIo, events, pending)
      else case read_until (Suc n - length bytes) events (drop (length bytes) pending) of
             (Inl e, events', pending') \<Rightarrow> (Inl e, events', pending')
           | (Inr rest, events', pending') \<Rightarrow> (Inr (bytes @ rest), events', pending'))"

fun write_until :: "u8 list \<Rightarrow> io_event list \<Rightarrow> u8 list \<Rightarrow> (channel_error + unit) \<times> io_event list \<times> u8 list" where
  "write_until [] events sent = (Inr (), events, sent)"
| "write_until (b # bs) [] sent = (Inl ChannelTimeout, [], sent)"
| "write_until (b # bs) (Expired # events) sent = (Inl ChannelTimeout, events, sent)"
| "write_until (b # bs) (IoFailed timed_out # events) sent = (Inl (io_error timed_out), events, sent)"
| "write_until (b # bs) (Interrupted # events) sent = write_until (b # bs) events sent"
| "write_until (b # bs) (Move k # events) sent =
     (if k = 0 then (Inl ChannelIo, events, sent)
      else write_until (drop k (b # bs)) events (sent @ take k (b # bs)))"

section \<open>The channel\<close>

record channel =
  ch_poisoned :: bool
  ch_pending :: "u8 list"
  ch_sent :: "u8 list"

definition fail :: "channel_error \<Rightarrow> channel \<Rightarrow> (channel_error + 'a) \<times> channel" where
  "fail e ch = (Inl e, ch\<lparr>ch_poisoned := True\<rparr>)"

text \<open>
  \<open>instant_ok\<close> says that both deadlines are representable instants; the same computation when a frame
  is read or written is taken to succeed.
\<close>

definition new_channel :: "nat \<Rightarrow> nat \<Rightarrow> bool \<Rightarrow> bool \<Rightarrow> u8 list \<Rightarrow> channel_error + channel" where
  "new_channel read_timeout write_timeout instant_ok blocking_ok pending =
     (if read_timeout = 0 \<or> write_timeout = 0 \<or> \<not> instant_ok then Inl InvalidConfiguration
      else if \<not> blocking_ok then Inl ChannelIo
      else Inr \<lparr>ch_poisoned = False, ch_pending = pending, ch_sent = []\<rparr>)"

definition read_frame :: "json_text \<Rightarrow> io_event list \<Rightarrow> u8 list \<Rightarrow> (channel_error + json) \<times> io_event list \<times> u8 list" where
  "read_frame jt events pending =
     (case read_until 4 events pending of
        (Inl e, events', pending') \<Rightarrow> (Inl e, events', pending')
      | (Inr header, events', pending') \<Rightarrow>
          let n = unat (from_be32 header) in
          if \<not> (1 \<le> n \<and> n \<le> max_frame_bytes) then (Inl InvalidFrame, events', pending')
          else (case read_until n events' pending' of
                  (Inl e, events'', pending'') \<Rightarrow> (Inl e, events'', pending'')
                | (Inr bytes, events'', pending'') \<Rightarrow> (strict_json jt bytes, events'', pending'')))"

definition receive :: "json_text \<Rightarrow> io_event list \<Rightarrow> channel \<Rightarrow> (channel_error + json) \<times> channel" where
  "receive jt events ch =
     (if ch_poisoned ch then (Inl Poisoned, ch)
      else case read_frame jt events (ch_pending ch) of
             (Inr v, _, pending) \<Rightarrow> (Inr v, ch\<lparr>ch_pending := pending\<rparr>)
           | (Inl e, _, pending) \<Rightarrow> fail e (ch\<lparr>ch_pending := pending\<rparr>))"

definition send :: "json_text \<Rightarrow> json \<Rightarrow> io_event list \<Rightarrow> channel \<Rightarrow> (channel_error + unit) \<times> channel" where
  "send jt v events ch =
     (if ch_poisoned ch then (Inl Poisoned, ch)
      else case encode_frame jt v of
        Inl e \<Rightarrow> fail e ch
      | Inr bytes \<Rightarrow>
          (case write_until (to_be32 (word_of_nat (length bytes))) events (ch_sent ch) of
             (Inl e, _, sent) \<Rightarrow> fail e (ch\<lparr>ch_sent := sent\<rparr>)
           | (Inr _, events', sent) \<Rightarrow>
               (case write_until bytes events' sent of
                  (Inl e, _, sent') \<Rightarrow> fail e (ch\<lparr>ch_sent := sent'\<rparr>)
                | (Inr _, _, sent') \<Rightarrow> (Inr (), ch\<lparr>ch_sent := sent'\<rparr>))))"

end
