(* ===== verification/Admin_View.thy ===== *)
theory Admin_View
  imports Ipc Store
begin

text \<open>
  The read-only administration views (\<^verbatim>\<open>src/src/agent/admin_view.rs\<close>): the status counts, the pages of
  tasks, records and grants cut to one frame, and the check of the tasks a session is issued for.
  Responses are JSON values as the \<^verbatim>\<open>json!\<close> macro and the derived \<^verbatim>\<open>Serialize\<close> build them; how a UUID
  is written comes from its crate and is an argument.
\<close>

section \<open>Building values\<close>

text \<open>Permissions are ordered as they are declared, which is the order of a serialised set.\<close>

fun permission_rank :: "permission \<Rightarrow> nat" where
  "permission_rank MetadataRead = 0"
| "permission_rank SecretUse = 1"
| "permission_rank SecretRead = 2"
| "permission_rank SecretWrite = 3"
| "permission_rank AccessGrant = 4"
| "permission_rank EntryDelete = 5"

lemma permission_rank_inject: "permission_rank p = permission_rank q \<Longrightarrow> p = q"
  by (cases p; cases q) simp_all

instantiation permission :: linorder
begin

definition less_eq_permission :: "permission \<Rightarrow> permission \<Rightarrow> bool" where
  "less_eq_permission p q \<longleftrightarrow> permission_rank p \<le> permission_rank q"

definition less_permission :: "permission \<Rightarrow> permission \<Rightarrow> bool" where
  "less_permission p q \<longleftrightarrow> permission_rank p < permission_rank q"

instance
  by standard (auto simp: less_eq_permission_def less_permission_def dest: permission_rank_inject)

end

type_synonym uuid_text = "uuid \<Rightarrow> string"

definition json_object :: "(string \<times> json) list \<Rightarrow> json" where
  "json_object members = JObject (fold (\<lambda>(key, v). bt_insert key v) members [])"

definition json_nat :: "nat \<Rightarrow> json" where "json_nat n = JNumber (NInt (int n))"
definition json_int :: "int \<Rightarrow> json" where "json_int n = JNumber (NInt n)"
definition json_u64 :: "u64 \<Rightarrow> json" where "json_u64 n = JNumber (NInt (uint n))"
definition json_uuid :: "uuid_text \<Rightarrow> uuid \<Rightarrow> json" where "json_uuid ut u = JString (ut u)"

definition json_option :: "('a \<Rightarrow> json) \<Rightarrow> 'a option \<Rightarrow> json" where
  "json_option f x = (case x of None \<Rightarrow> JNull | Some a \<Rightarrow> f a)"

fun field_name :: "field \<Rightarrow> string" where
  "field_name Label = ''Label''"
| "field_name Username = ''Username''"
| "field_name Password = ''Password''"
| "field_name ApiKey = ''ApiKey''"
| "field_name Notes = ''Notes''"

fun permission_name :: "permission \<Rightarrow> string" where
  "permission_name MetadataRead = ''MetadataRead''"
| "permission_name SecretUse = ''SecretUse''"
| "permission_name SecretRead = ''SecretRead''"
| "permission_name SecretWrite = ''SecretWrite''"
| "permission_name AccessGrant = ''AccessGrant''"
| "permission_name EntryDelete = ''EntryDelete''"

fun kind_name :: "credential_kind \<Rightarrow> string" where
  "kind_name KLogin = ''Login''"
| "kind_name KApiKey = ''ApiKey''"

fun signup_name :: "signup_state \<Rightarrow> string" where
  "signup_name SPending = ''Pending''"
| "signup_name SSubmitted = ''Submitted''"
| "signup_name SReportedSuccess = ''ReportedSuccess''"
| "signup_name SVerifiedLogin = ''VerifiedLogin''"
| "signup_name SRejected = ''Rejected''"
| "signup_name SHumanRequired = ''HumanRequired''"
| "signup_name SUnknown = ''Unknown''"

definition json_fields :: "fields \<Rightarrow> json" where
  "json_fields fs = JArray (map (JString \<circ> field_name) (sorted_list_of_set fs))"

definition json_permissions :: "permissions \<Rightarrow> json" where
  "json_permissions ps = JArray (map (JString \<circ> permission_name) (sorted_list_of_set ps))"

definition json_strings :: "string fset \<Rightarrow> json" where
  "json_strings ss = JArray (map JString (sorted_list_of_fset ss))"

definition json_share_bounds :: "share_bounds \<Rightarrow> json" where
  "json_share_bounds b = json_object
     ([(''recipients'', json_strings (sb_recipients b)), (''fields'', json_fields (sb_fields b)),
       (''permissions'', json_permissions (sb_permissions b)), (''destinations'', json_strings (sb_destinations b)),
       (''expires_at'', json_int (sb_expires_at b))]
      @ (if sb_allow_follow_active b then [(''allow_follow_active'', JBool True)] else []))"

section \<open>Views\<close>

definition task_view :: "uuid_text \<Rightarrow> task_approval \<Rightarrow> bool \<Rightarrow> json" where
  "task_view ut t revoked = json_object
     [(''id'', json_uuid ut (tk_id t)), (''owner'', JString (tk_owner t)), (''principal'', JString (tk_principal t)),
      (''workspace'', JString (tk_workspace t)), (''service'', JString (tk_service t)),
      (''origin'', JString (tk_origin t)), (''fields'', json_fields (tk_fields t)),
      (''permissions'', json_permissions (tk_permissions t)), (''destinations'', json_strings (tk_destinations t)),
      (''expires_at'', json_int (tk_expires_at t)), (''share'', json_option json_share_bounds (tk_share t)),
      (''revoked'', JBool revoked)]"

definition record_view :: "uuid_text \<Rightarrow> vault_record \<Rightarrow> json" where
  "record_view ut r = json_object
     [(''id'', json_uuid ut (vr_id r)), (''service'', JString (vr_service r)), (''origin'', JString (vr_origin r)),
      (''kind'', JString (kind_name (vr_kind r))), (''revision'', json_u64 (vr_revision r)),
      (''secret_version'', json_u64 (vr_secret_version r)), (''deleted'', JBool (vr_deleted r)),
      (''signup'', JString (signup_name (vr_signup r))), (''created_by'', JString (vr_created_by r)),
      (''task'', json_uuid ut (vr_task r))]"

definition grant_view :: "uuid_text \<Rightarrow> uuid \<Rightarrow> grant \<Rightarrow> json" where
  "grant_view ut gid g = json_object
     [(''id'', json_uuid ut gid), (''record'', json_uuid ut (gr_record g)),
      (''recipient'', JString (gs_recipient (gr_spec g))), (''fields'', json_fields (gs_fields (gr_spec g))),
      (''permissions'', json_permissions (gs_permissions (gr_spec g))),
      (''destinations'', json_strings (gs_destinations (gr_spec g))),
      (''expires_at'', json_int (gs_expires_at (gr_spec g))), (''revoked'', JBool (gr_revoked g)),
      (''version'', json_u64 (gr_version g)), (''issuer_task'', json_uuid ut (gr_issuer_task g))]"

section \<open>Pages\<close>

definition page_limit :: nat where "page_limit = 100"

definition page_value :: "string \<Rightarrow> json list \<Rightarrow> nat \<Rightarrow> bool \<Rightarrow> json" where
  "page_value key items count has_more = json_object
     [(''ok'', JBool True), (key, JArray items), (''total'', json_nat count), (''has_more'', JBool has_more)]"

definition usize_add :: "nat \<Rightarrow> nat \<Rightarrow> nat" where
  "usize_add a b = min (a + b) (2 ^ 64 - 1)"

text \<open>The loop of \<^verbatim>\<open>bounded_page\<close>: shorten the page until it fits.\<close>

fun page_loop :: "json_text \<Rightarrow> string \<Rightarrow> json list \<Rightarrow> nat \<Rightarrow> nat \<Rightarrow> nat \<Rightarrow> error + json" where
  "page_loop jt key rest offset total_count 0 = Inl Capacity"
| "page_loop jt key rest offset total_count (Suc n) =
     (let response = page_value key (take (Suc n) rest) total_count (usize_add offset (Suc n) < total_count)
      in if fits_frame jt response then Inr response else page_loop jt key rest offset total_count n)"

definition bounded_page :: "json_text \<Rightarrow> string \<Rightarrow> json list \<Rightarrow> nat \<Rightarrow> error + json" where
  "bounded_page jt key items offset =
     (let rest = take page_limit (drop offset items) in
      if rest = [] then Inr (page_value key [] (length items) False)
      else page_loop jt key rest offset (length items) (length rest))"

section \<open>Projections of the vault\<close>

definition view_capacity :: nat where "view_capacity = 10000"

definition readable :: "auth_context \<Rightarrow> bool \<Rightarrow> error + unit" where
  "readable ctx frozen =
     (if \<not> ctx_admin ctx then Inl Denied else if frozen then Inl RecoveryRequired else Inr ())"

definition count_of :: "nat \<Rightarrow> json" where
  "count_of n = json_object [(''count'', json_nat n), (''capacity'', json_nat view_capacity)]"

definition task_in_scope :: "application \<Rightarrow> uuid \<Rightarrow> string \<Rightarrow> string \<Rightarrow> bool" where
  "task_in_scope app tid owner workspace =
     (case map_of (app_tasks app) tid of
        None \<Rightarrow> False
      | Some t \<Rightarrow> tk_owner t = owner \<and> tk_workspace t = workspace)"

definition record_counts :: "application \<Rightarrow> string \<Rightarrow> string \<Rightarrow> nat \<times> nat" where
  "record_counts app owner workspace =
     fold (\<lambda>r (live, deleted). if vr_deleted r then (live, deleted + 1) else (live + 1, deleted))
       (filter (\<lambda>r. vr_owner r = owner \<and> vr_workspace r = workspace) (bt_values (app_records app))) (0, 0)"

definition scoped_grants :: "application \<Rightarrow> string \<Rightarrow> string \<Rightarrow> (uuid \<times> grant) list" where
  "scoped_grants app owner workspace =
     filter (\<lambda>(gid, g).
       case map_of (app_records app) (gr_record g) of
         None \<Rightarrow> False
       | Some r \<Rightarrow> vr_owner r = owner \<and> vr_workspace r = workspace) (app_grants app)"

definition status_value :: "application \<Rightarrow> auth_context \<Rightarrow> bool \<Rightarrow> error + json" where
  "status_value app ctx frozen =
     (if \<not> ctx_admin ctx then Inl Denied
      else
        let owner = ctx_owner ctx; workspace = ctx_workspace ctx;
            (live, deleted) = record_counts app owner workspace
        in Inr (json_object
          [(''tasks'', count_of (length (filter (\<lambda>t. tk_owner t = owner \<and> tk_workspace t = workspace)
              (bt_values (app_tasks app))))),
           (''records'', json_object [(''live'', json_nat live), (''deleted'', json_nat deleted),
              (''capacity'', json_nat view_capacity)]),
           (''grants'', count_of (length (scoped_grants app owner workspace))),
           (''requests'', count_of (length (filter (\<lambda>key. rk_owner key = owner
              \<and> task_in_scope app (rk_task key) owner workspace) (bt_keys (app_requests app))))),
           (''deliveries'', count_of (length (filter (\<lambda>d. rk_owner (da_key d) = owner
              \<and> task_in_scope app (da_task d) owner workspace) (bt_values (app_deliveries app))))),
           (''audit'', count_of (length (filter (\<lambda>event. task_in_scope app (ae_task event) owner workspace)
              (app_audit app)))),
           (''frozen'', JBool frozen),
           (''clock_frozen'', JBool (app_clock_frozen app))]))"

definition validate_session_tasks ::
    "application \<Rightarrow> auth_context \<Rightarrow> string \<Rightarrow> uuid list \<Rightarrow> time \<Rightarrow> bool \<Rightarrow> error + unit" where
  "validate_session_tasks app ctx princ tasks now frozen =
     (if \<not> ctx_admin ctx then Inl Denied
      else if frozen then Inl RecoveryRequired
      else if app_clock_frozen app then Inl ClockRecoveryRequired
      else if tasks = [] \<or> list_ex (\<lambda>tid.
             case map_of (app_tasks app) tid of
               None \<Rightarrow> True
             | Some t \<Rightarrow> tk_owner t \<noteq> ctx_owner ctx \<or> tk_workspace t \<noteq> ctx_workspace ctx
                 \<or> tk_principal t \<noteq> princ \<or> tk_expires_at t \<le> now \<or> tid |\<in>| app_revoked_tasks app) tasks
      then Inl Invalid
      else Inr ())"

definition tasks_page :: "json_text \<Rightarrow> uuid_text \<Rightarrow> application \<Rightarrow> auth_context \<Rightarrow> nat \<Rightarrow> bool \<Rightarrow> error + json" where
  "tasks_page jt ut app ctx offset frozen =
     (case readable ctx frozen of
        Inl e \<Rightarrow> Inl e
      | Inr _ \<Rightarrow> bounded_page jt ''tasks''
          (map (\<lambda>t. task_view ut t (tk_id t |\<in>| app_revoked_tasks app))
             (filter (\<lambda>t. tk_owner t = ctx_owner ctx \<and> tk_workspace t = ctx_workspace ctx) (bt_values (app_tasks app))))
          offset)"

definition records_page :: "json_text \<Rightarrow> uuid_text \<Rightarrow> application \<Rightarrow> auth_context \<Rightarrow> nat \<Rightarrow> bool \<Rightarrow> error + json" where
  "records_page jt ut app ctx offset frozen =
     (case readable ctx frozen of
        Inl e \<Rightarrow> Inl e
      | Inr _ \<Rightarrow> bounded_page jt ''records''
          (map (record_view ut)
             (filter (\<lambda>r. vr_owner r = ctx_owner ctx \<and> vr_workspace r = ctx_workspace ctx) (bt_values (app_records app))))
          offset)"

definition grants_page ::
    "json_text \<Rightarrow> uuid_text \<Rightarrow> application \<Rightarrow> auth_context \<Rightarrow> nat \<Rightarrow> uuid option \<Rightarrow> bool \<Rightarrow> error + json" where
  "grants_page jt ut app ctx offset rid frozen =
     (case readable ctx frozen of
        Inl e \<Rightarrow> Inl e
      | Inr _ \<Rightarrow> bounded_page jt ''grants''
          (map (\<lambda>(gid, g). grant_view ut gid g)
             (filter (\<lambda>(gid, g). case rid of None \<Rightarrow> True | Some r \<Rightarrow> gr_record g = r)
                (scoped_grants app (ctx_owner ctx) (ctx_workspace ctx))))
          offset)"

section \<open>The same on the owner\<close>

definition admin_frozen :: "vault \<Rightarrow> bool" where
  "admin_frozen v \<longleftrightarrow> dv_frozen v \<or> st_blocked (dv_store v)"

definition operational_status :: "vault \<Rightarrow> auth_context \<Rightarrow> error + json" where
  "operational_status v ctx = status_value (dv_app v) ctx (admin_frozen v)"

definition list_tasks where
  "list_tasks jt ut v ctx offset = tasks_page jt ut (dv_app v) ctx offset (admin_frozen v)"

definition list_records where
  "list_records jt ut v ctx offset = records_page jt ut (dv_app v) ctx offset (admin_frozen v)"

definition list_grants where
  "list_grants jt ut v ctx offset rid = grants_page jt ut (dv_app v) ctx offset rid (admin_frozen v)"

definition vault_validate_session_tasks where
  "vault_validate_session_tasks v ctx princ tasks now =
     validate_session_tasks (dv_app v) ctx princ tasks now (admin_frozen v)"

end
