(* ===== verification/Ipc_Properties.thy ===== *)
theory Ipc_Properties
  imports Ipc
begin

text \<open>
  Properties of the framed channels: what one end sends the other receives, however the stream cuts
  the bytes; the size check predicts the writer; values are bounded and unambiguous; and a channel
  that failed stays closed.
\<close>

section \<open>The bounded writer\<close>

lemma buffer_write_iff:
  "length buffer \<le> max_frame_bytes \<Longrightarrow> buffer_write buffer chunks = Some bytes \<longleftrightarrow>
     bytes = buffer @ concat chunks \<and> length bytes \<le> max_frame_bytes"
  by (induction buffer chunks rule: buffer_write.induct) (auto simp: not_less le_diff_conv2)

lemma size_write_iff:
  "n \<le> max_frame_bytes \<Longrightarrow> size_write n chunks = Some k \<longleftrightarrow>
     k = n + length (concat chunks) \<and> k \<le> max_frame_bytes"
  by (induction n chunks rule: size_write.induct) (auto simp: not_less le_diff_conv2)

lemma encode_frame_Inr:
  "encode_frame jt v = Inr bytes \<longleftrightarrow>
     validate_depth 0 v \<and> bytes = concat (jt_chunks jt v) \<and> bytes \<noteq> [] \<and> length bytes \<le> max_frame_bytes"
proof (cases "buffer_write [] (jt_chunks jt v)")
  case None
  then have "\<not> length (concat (jt_chunks jt v)) \<le> max_frame_bytes"
    using buffer_write_iff [of "[]" "jt_chunks jt v" "concat (jt_chunks jt v)"] by simp
  with None show ?thesis by (auto simp: encode_frame_def)
next
  case (Some b)
  then have "b = concat (jt_chunks jt v)" "length b \<le> max_frame_bytes"
    using buffer_write_iff [of "[]" "jt_chunks jt v" b] by auto
  with Some show ?thesis by (auto simp: encode_frame_def)
qed

section \<open>Reading back\<close>

text \<open>
  The tree a value prints to. The behaviour of \<^verbatim>\<open>serde_json\<close> that the channels rely on is that reading
  the printed value presents this tree.
\<close>

fun raw_of :: "json \<Rightarrow> raw" where
  "raw_of JNull = RUnit"
| "raw_of (JBool b) = RBool b"
| "raw_of (JNumber (NInt n)) = RInt n"
| "raw_of (JNumber (NFloat w)) = RFloat w"
| "raw_of (JString s) = RStr s"
| "raw_of (JArray vs) = RSeq (map raw_of vs)"
| "raw_of (JObject m) = RMap (map (\<lambda>(key, v). (key, raw_of v)) m)"

definition reads_back :: "json_text \<Rightarrow> json \<Rightarrow> bool" where
  "reads_back jt v \<longleftrightarrow> jt_parse jt (concat (jt_chunks jt v)) = Some (raw_of v)"

text \<open>Objects are maps in key order and numbers are finite, as the types of the program guarantee.\<close>

fun wf_json :: "json \<Rightarrow> bool" where
  "wf_json (JNumber (NFloat w)) = finite_float w"
| "wf_json (JArray vs) = list_all wf_json vs"
| "wf_json (JObject m) = (bt_wf m \<and> list_all (\<lambda>(key, v). wf_json v) m)"
| "wf_json _ = True"

lemma seq_seed_all: "(\<And>v. v \<in> set vs \<Longrightarrow> json_seed d (raw_of v) = Some v) \<Longrightarrow> seq_seed d (map raw_of vs) = Some vs"
  by (induction vs) auto

lemma map_seed_all:
  assumes "\<And>key v. (key, v) \<in> set m \<Longrightarrow> json_seed d (raw_of v) = Some v" and "bt_wf (acc @ m)"
    and "set keys = fst ` set acc"
  shows "map_seed d keys (map (\<lambda>(key, v). (key, raw_of v)) m) acc = Some (acc @ m)"
  using assms
proof (induction m arbitrary: acc keys)
  case (Cons p m)
  obtain key v where p: "p = (key, v)" by (cases p)
  have less: "\<forall>q \<in> set acc. fst q < key" using Cons.prems(2) p by (auto simp: bt_wf_def sorted_wrt_append)
  then have "key \<notin> set keys" using Cons.prems(3) by auto
  moreover have "bt_insert key v acc = acc @ [(key, v)]" by (rule bt_insert_last [OF less])
  moreover have "map_seed d (key # keys) (map (\<lambda>(key, v). (key, raw_of v)) m) (acc @ [(key, v)])
      = Some ((acc @ [(key, v)]) @ m)"
    using Cons.prems p by (intro Cons.IH) auto
  moreover have "json_seed d (raw_of v) = Some v" using Cons.prems(1) [of key v] p by simp
  ultimately show ?case using p by simp
qed simp

lemma json_seed_raw: "validate_depth d v \<Longrightarrow> wf_json v \<Longrightarrow> json_seed d (raw_of v) = Some v"
proof (induction d v rule: validate_depth.induct)
  case (1 d vs)
  then have "seq_seed (d + 1) (map raw_of vs) = Some vs" by (intro seq_seed_all) (auto simp: list_all_iff)
  then show ?case using 1 by simp
next
  case (2 d m)
  then have "map_seed (d + 1) [] (map (\<lambda>(key, v). (key, raw_of v)) m) [] = Some ([] @ m)"
    by (intro map_seed_all) (fastforce simp: list_all_iff)+
  then show ?case using 2 by simp
next
  case (5 d n)
  then show ?case by (cases n) auto
qed auto

section \<open>Moving bytes\<close>

text \<open>A schedule that keeps moving: no failure and enough calls that move something.\<close>

fun moves :: "io_event list \<Rightarrow> nat" where
  "moves [] = 0"
| "moves (Move k # es) = Suc (moves es)"
| "moves (e # es) = moves es"

definition steady :: "io_event list \<Rightarrow> bool" where
  "steady es \<longleftrightarrow> (\<forall>e \<in> set es. e = Interrupted \<or> (\<exists>k > 0. e = Move k))"

lemma read_until_Move:
  assumes "0 < n" and "m = min k n" and "0 < m" and "m \<le> length p"
  shows "read_until n (Move k # es) p =
    (case read_until (n - m) es (drop m p) of
       (Inl e, events', pending') \<Rightarrow> (Inl e, events', pending')
     | (Inr r, events', pending') \<Rightarrow> (Inr (take m p @ r), events', pending'))"
proof -
  obtain j where j: "n = Suc j" using assms(1) by (cases n) auto
  have "length (take m p) = m" "take m p \<noteq> []" using assms(3,4) by auto
  then show ?thesis
    unfolding j read_until.simps Let_def assms(2) [unfolded j, symmetric] by simp
qed

lemma read_until_steady:
  assumes "steady es" and "length bs \<le> moves es"
  shows "\<exists>es'. read_until (length bs) es (bs @ rest) = (Inr bs, es', rest) \<and> steady es'
    \<and> moves es \<le> moves es' + length bs"
  using assms
proof (induction es arbitrary: bs)
  case Nil
  then show ?case by (simp add: steady_def)
next
  case (Cons e es)
  show ?case
  proof (cases bs)
    case Nil
    then show ?thesis using Cons.prems by auto
  next
    case bs: (Cons b bs')
    have st: "steady es" using Cons.prems(1) by (simp add: steady_def)
    consider "e = Interrupted" | k where "e = Move k" "k > 0" using Cons.prems(1) by (auto simp: steady_def)
    then show ?thesis
    proof cases
      case 1
      then show ?thesis using Cons.IH [OF st, of bs] Cons.prems(2) bs by auto
    next
      case (2 k)
      let ?n = "min k (length bs)"
      have n: "0 < length bs" "0 < ?n" "?n \<le> length (bs @ rest)" using 2 bs by auto
      have len: "length (drop ?n bs) = length bs - ?n" by simp
      have split: "take ?n (bs @ rest) = take ?n bs" "drop ?n (bs @ rest) = drop ?n bs @ rest" by simp_all
      obtain es' where es': "read_until (length (drop ?n bs)) es (drop ?n bs @ rest) = (Inr (drop ?n bs), es', rest)"
          "steady es'" "moves es \<le> moves es' + length (drop ?n bs)"
      proof -
        have "length (drop ?n bs) \<le> moves es" using Cons.prems(2) 2 n len by simp
        from Cons.IH [OF st this] that show ?thesis by blast
      qed
      have "read_until (length bs) (e # es) (bs @ rest) = (Inr (take ?n bs @ drop ?n bs), es', rest)"
        using es'(1) unfolding 2(1) read_until_Move [OF n(1) refl n(2,3)] split len by simp
      moreover have "moves (e # es) \<le> moves es' + length bs"
      proof -
        have "moves es + ?n \<le> moves es' + length bs" using es'(3) len by simp
        moreover have "0 < ?n" by (rule n(2))
        ultimately show ?thesis unfolding 2(1) moves.simps by linarith
      qed
      ultimately show ?thesis using es'(2) by (intro exI [of _ es']) simp
    qed
  qed
qed

lemma write_until_Inr: "write_until bs es sent = (Inr (), es', sent') \<Longrightarrow> sent' = sent @ bs"
  by (induction bs es sent rule: write_until.induct) (auto split: if_splits)

lemma send_Inr:
  assumes "send jt v es ch = (Inr (), ch')"
  obtains bytes where "encode_frame jt v = Inr bytes" "\<not> ch_poisoned ch'"
    "ch_sent ch' = ch_sent ch @ to_be32 (word_of_nat (length bytes)) @ bytes"
  using assms
  by (auto simp: send_def fail_def dest!: write_until_Inr split: if_splits sum.splits prod.splits)

text \<open>The bytes of one frame on the wire, and the values that a channel carries.\<close>

definition frame :: "json_text \<Rightarrow> json \<Rightarrow> u8 list" where
  "frame jt v = to_be32 (word_of_nat (length (concat (jt_chunks jt v)))) @ concat (jt_chunks jt v)"

lemma encode_frame_bytes: "encode_frame jt v = Inr bytes \<Longrightarrow> frame jt v = to_be32 (word_of_nat (length bytes)) @ bytes"
  using encode_frame_Inr [of jt v bytes] by (simp add: frame_def)

lemma write_until_steady:
  assumes "steady es" and "length bs \<le> moves es"
  shows "\<exists>es'. write_until bs es sent = (Inr (), es', sent @ bs) \<and> steady es' \<and> moves es \<le> moves es' + length bs"
  using assms
proof (induction bs es sent rule: write_until.induct)
  case (5 b bs events sent)
  then show ?case by (simp add: steady_def)
next
  case (6 b bs k events sent)
  have k: "k \<noteq> 0" and st: "steady events" using 6(2) by (auto simp: steady_def)
  have "length (drop k (b # bs)) \<le> moves events" using 6(3) k by simp
  from 6(1) [OF k st this] obtain es' where es': "write_until (drop k (b # bs)) events (sent @ take k (b # bs))
      = (Inr (), es', (sent @ take k (b # bs)) @ drop k (b # bs))" "steady es'"
      "moves events \<le> moves es' + length (drop k (b # bs))"
    by blast
  have "moves (Move k # events) \<le> moves es' + length (b # bs)" using es'(3) k by simp
  then show ?case
    unfolding write_until.simps using es'(1,2) k by (intro exI [of _ es']) (simp del: drop.simps take.simps)
qed (auto simp: steady_def)

lemma receive_frame:
  assumes "reads_back jt v" and "wf_json v" and e: "encode_frame jt v = Inr bytes"
    and "\<not> ch_poisoned b" "ch_pending b = frame jt v @ rest" and "steady es" and "length (frame jt v) \<le> moves es"
  shows "receive jt es b = (Inr v, b\<lparr>ch_pending := rest\<rparr>)"
proof -
  note e' = e [unfolded encode_frame_Inr] and f = encode_frame_bytes [OF e]
  let ?h = "to_be32 (word_of_nat (length bytes))"
  have n: "bytes \<noteq> []" "length bytes \<le> max_frame_bytes" using e' by blast+
  then have "length bytes < 2 ^ 32" by (simp add: max_frame_bytes_def)
  then have h: "length ?h = 4" "unat (from_be32 ?h) = length bytes"
    by (simp_all add: be32.length_enc be32.dec_enc unat_of_nat)
  have pend: "ch_pending b = ?h @ bytes @ rest" using assms(5) f by simp
  obtain es1 where r1: "read_until (length ?h) es (?h @ bytes @ rest) = (Inr ?h, es1, bytes @ rest)" "steady es1"
      "moves es \<le> moves es1 + length ?h"
    using read_until_steady [OF assms(6), of ?h "bytes @ rest"] assms(7) f by auto
  obtain es2 where r2: "read_until (length bytes) es1 (bytes @ rest) = (Inr bytes, es2, rest)"
    using read_until_steady [OF r1(2), of bytes rest] r1(3) assms(7) f by auto
  have "strict_json jt bytes = Inr v"
    using assms(1,2) e' json_seed_raw [of 0 v] by (simp add: strict_json_def reads_back_def)
  then have "read_frame jt es (ch_pending b) = (Inr v, es2, rest)"
    using r1(1) r2 h n unfolding read_frame_def pend h(1) [symmetric] by (simp add: Let_def Suc_le_eq)
  then show ?thesis using assms(4) by (simp add: receive_def)
qed

lemma send_frame:
  assumes e: "encode_frame jt v = Inr bytes" and "\<not> ch_poisoned ch" and "steady es" and "length (frame jt v) \<le> moves es"
  shows "send jt v es ch = (Inr (), ch\<lparr>ch_sent := ch_sent ch @ frame jt v\<rparr>)"
proof -
  let ?h = "to_be32 (word_of_nat (length bytes))"
  note f = encode_frame_bytes [OF e]
  obtain es1 where w1: "write_until ?h es (ch_sent ch) = (Inr (), es1, ch_sent ch @ ?h)" "steady es1"
      "moves es \<le> moves es1 + length ?h"
    using write_until_steady [OF assms(3), of ?h "ch_sent ch"] assms(4) f by auto
  obtain es2 where w2: "write_until bytes es1 (ch_sent ch @ ?h) = (Inr (), es2, (ch_sent ch @ ?h) @ bytes)"
    using write_until_steady [OF w1(2), of bytes "ch_sent ch @ ?h"] w1(3) assms(4) f by auto
  show ?thesis using assms(2) e w1(1) w2 f by (simp add: send_def)
qed

text \<open>
  C25: A value arrives as it was sent. Whatever a channel sends, the other end receives as the same
  value and leaves the bytes that follow it unread, however writes and reads cut the stream, as long
  as the reads keep moving until the frame is complete.
\<close>

theorem frame_round_trip:
  assumes "reads_back jt v" and "wf_json v"
    and snd: "send jt v es a = (Inr (), a')" and "ch_sent a = []"
    and recv: "\<not> ch_poisoned b" "ch_pending b = ch_sent a' @ rest"
    and "steady es'" and "length (ch_sent a') \<le> moves es'"
  shows "receive jt es' b = (Inr v, b\<lparr>ch_pending := rest\<rparr>)"
proof -
  obtain bytes where f: "encode_frame jt v = Inr bytes" "ch_sent a' = to_be32 (word_of_nat (length bytes)) @ bytes"
    using send_Inr [OF snd] assms(4) by auto
  then have "ch_sent a' = frame jt v" by (simp add: encode_frame_bytes)
  then show ?thesis using receive_frame [OF assms(1,2) f(1) recv(1) _ assms(7)] recv(2) assms(8) by simp
qed

section \<open>Strictness\<close>

fun raw_keys_distinct :: "raw \<Rightarrow> bool" where
  "raw_keys_distinct (RSeq rs) = list_all raw_keys_distinct rs"
| "raw_keys_distinct (RMap rs) = (distinct (map fst rs) \<and> list_all (\<lambda>(key, r). raw_keys_distinct r) rs)"
| "raw_keys_distinct _ = True"

lemma bt_insert_values: "snd ` set (bt_insert key v m) \<subseteq> insert v (snd ` set m)"
  by (induction key v m rule: bt_insert.induct) auto

lemma map_seed_keys:
  assumes "map_seed d keys rs acc = Some m" and "bt_wf acc"
  shows "distinct (map fst rs) \<and> set (map fst rs) \<inter> set keys = {} \<and> bt_wf m
    \<and> (\<forall>(key, r) \<in> set rs. \<exists>v. json_seed d r = Some v)
    \<and> (\<forall>v \<in> snd ` set m. v \<in> snd ` set acc \<or> (\<exists>(key, r) \<in> set rs. json_seed d r = Some v))"
  using assms
proof (induction rs arbitrary: keys acc)
  case (Cons p rs)
  obtain key r where p: "p = (key, r)" by (cases p)
  obtain v where v: "json_seed d r = Some v" "key \<notin> set keys" "map_seed d (key # keys) rs (bt_insert key v acc) = Some m"
    using Cons.prems p by (auto split: if_splits option.splits)
  have wf: "bt_wf (bt_insert key v acc)" using Cons.prems(2) by simp
  note ih = Cons.IH [OF v(3) wf]
  have "\<forall>w \<in> snd ` set m. w \<in> snd ` set acc \<or> w = v \<or> (\<exists>(key, r) \<in> set rs. json_seed d r = Some w)"
    using ih bt_insert_values [of key v acc] by blast
  moreover have "distinct (map fst rs) \<and> set (map fst rs) \<inter> set keys = {} \<and> key \<notin> set (map fst rs) \<and> bt_wf m
      \<and> (\<forall>(key, r) \<in> set rs. \<exists>v. json_seed d r = Some v)"
    using ih by auto
  ultimately show ?case using v(1,2) p by auto
qed auto

lemma seq_seed_all_ok:
  assumes "seq_seed d rs = Some vs" and "\<forall>r \<in> set rs. \<forall>v. json_seed d r = Some v \<longrightarrow> P v \<and> Q r"
  shows "list_all P vs \<and> list_all Q rs"
  using assms by (induction rs arbitrary: vs) (auto split: option.splits)

lemma json_seed_ok:
  "json_seed d r = Some v \<Longrightarrow> (validate_depth d v \<and> wf_json v) \<and> raw_keys_distinct r"
proof (induction r arbitrary: d v)
  case (RFloat w)
  then show ?case by (auto split: if_splits)
next
  case (RSeq rs)
  then obtain vs where vs: "d < max_nesting" "v = JArray vs" "seq_seed (d + 1) rs = Some vs"
    by (auto split: if_splits)
  have "list_all (\<lambda>v. validate_depth (d + 1) v \<and> wf_json v) vs \<and> list_all raw_keys_distinct rs"
    by (rule seq_seed_all_ok [OF vs(3)]) (blast dest: RSeq.IH)
  then show ?case using vs by (simp add: list_all_iff)
next
  case (RMap rs)
  then obtain m where m: "d < max_nesting" "v = JObject m" "map_seed (d + 1) [] rs [] = Some m"
    by (auto split: if_splits)
  have ih: "(validate_depth (d + 1) w \<and> wf_json w) \<and> raw_keys_distinct r"
    if "(key, r) \<in> set rs" "json_seed (d + 1) r = Some w" for key r w
    using RMap.IH [of "(key, r)" r "d + 1" w] that by simp
  note keys = map_seed_keys [OF m(3) bt_wf_Nil]
  have "\<forall>w \<in> snd ` set m. validate_depth (d + 1) w \<and> wf_json w" using keys ih by fastforce
  moreover have "\<forall>(key, r) \<in> set rs. raw_keys_distinct r" using keys ih by fastforce
  ultimately show ?case using m(1,2) keys by (fastforce simp: list_all_iff)
qed auto

text \<open>
  A received value is bounded and unambiguous. Strict reading succeeds only if no object of the
  text repeats a key, at any depth, and the value it returns nests at most 32 levels and has finite
  numbers and key-ordered objects, so it can be sent on.
\<close>

theorem strict_json_is_strict:
  assumes "strict_json jt bytes = Inr v"
  shows "validate_depth 0 v \<and> wf_json v \<and> (\<exists>r. jt_parse jt bytes = Some r \<and> raw_keys_distinct r)"
proof -
  obtain r where "jt_parse jt bytes = Some r" "json_seed 0 r = Some v"
    using assms by (auto simp: strict_json_def split: option.splits Option.bind_splits)
  then show ?thesis using json_seed_ok by blast
qed

section \<open>Preflight and failure\<close>

lemma fits_frame_iff:
  "fits_frame jt v \<longleftrightarrow> validate_depth 0 v \<and> length (concat (jt_chunks jt v)) \<le> max_frame_bytes"
proof -
  have "size_write 0 (jt_chunks jt v) \<noteq> None \<longleftrightarrow> length (concat (jt_chunks jt v)) \<le> max_frame_bytes"
  proof (cases "size_write 0 (jt_chunks jt v)")
    case None
    then show ?thesis
      using size_write_iff [of 0 "jt_chunks jt v" "length (concat (jt_chunks jt v))"] by (simp del: length_concat)
  next
    case (Some k)
    then show ?thesis using size_write_iff [of 0 "jt_chunks jt v" k] by (simp del: length_concat)
  qed
  then show ?thesis by (simp only: fits_frame_def)
qed

lemma send_Inl_poisoned: "send jt v es ch = (Inl e, ch') \<Longrightarrow> ch_poisoned ch'"
  unfolding send_def fail_def by (auto split: if_splits sum.splits prod.splits)

lemma receive_Inl_poisoned: "receive jt es ch = (Inl e, ch') \<Longrightarrow> ch_poisoned ch'"
  unfolding receive_def fail_def by (auto split: if_splits sum.splits prod.splits)

text \<open>
  The preflight size check is exact, and a failed channel stays closed. A value passes the check
  exactly when the writer accepts it (empty output apart); after a failed send or receive the channel
  is poisoned, and a poisoned channel answers every call with that error and moves no byte.
\<close>

theorem channel_preflight_and_failure:
  "(fits_frame jt v \<and> concat (jt_chunks jt v) \<noteq> [] \<longleftrightarrow> (\<exists>bytes. encode_frame jt v = Inr bytes))
   \<and> (send jt v es ch = (Inl e, ch') \<or> receive jt es ch = (Inl e, ch') \<longrightarrow> ch_poisoned ch')
   \<and> (ch_poisoned ch \<longrightarrow> send jt v es ch = (Inl Poisoned, ch) \<and> receive jt es ch = (Inl Poisoned, ch))"
proof (intro conjI impI)
  show "fits_frame jt v \<and> concat (jt_chunks jt v) \<noteq> [] \<longleftrightarrow> (\<exists>bytes. encode_frame jt v = Inr bytes)"
    unfolding fits_frame_iff encode_frame_Inr by blast
  show "ch_poisoned ch'" if "send jt v es ch = (Inl e, ch') \<or> receive jt es ch = (Inl e, ch')"
    using that send_Inl_poisoned receive_Inl_poisoned by blast
qed (simp_all add: send_def receive_def)

section \<open>Witnesses\<close>

text \<open>A text of one word each way, a channel and its peer, and schedules that cut the frame.\<close>

definition demo_text :: json_text where
  "demo_text = \<lparr>jt_parse = (\<lambda>bytes. if bytes = [116, 114, 117, 101] then Some (RBool True) else None),
     jt_chunks = (\<lambda>v. if v = JBool True then [[116, 114], [117, 101]] else [])\<rparr>"

definition demo_channel :: channel where
  "demo_channel = \<lparr>ch_poisoned = False, ch_pending = [], ch_sent = []\<rparr>"

theorem frame_round_trip_witness:
  "receive demo_text (replicate 8 (Move 1)) (demo_channel\<lparr>ch_pending := [0, 0, 0, 4, 116, 114, 117, 101, 9]\<rparr>)
     = (Inr (JBool True), demo_channel\<lparr>ch_pending := [9]\<rparr>)"
proof -
  let ?a = "demo_channel\<lparr>ch_sent := [0, 0, 0, 4, 116, 114, 117, 101]\<rparr>"
  have e: "encode_frame demo_text (JBool True) = Inr [116, 114, 117, 101]"
    by (simp add: encode_frame_def demo_text_def max_frame_bytes_def)
  have h: "to_be32 (word_of_nat (length [116, 114, 117, 101 :: u8])) = [0, 0, 0, 4]"
  proof -
    have four: "be_digits 4 k = be_digits (Suc (Suc (Suc (Suc 0)))) k" for k by (simp add: numeral_eq_Suc)
    have "unat (word_of_nat (length [116, 114, 117, 101 :: u8]) :: 32 word) = 4" by simp
    then show ?thesis unfolding to_be32_def four by (simp add: be_digits_Suc be_digits_def [of 0])
  qed
  have "send demo_text (JBool True) [Move 4, Interrupted, Move 3, Move 7] demo_channel = (Inr (), ?a)"
    unfolding send_def e sum.case h by (simp add: demo_channel_def)
  then have "receive demo_text (replicate 8 (Move 1)) (demo_channel\<lparr>ch_pending := [0, 0, 0, 4, 116, 114, 117, 101, 9]\<rparr>)
     = (Inr (JBool True), demo_channel\<lparr>ch_pending := [0, 0, 0, 4, 116, 114, 117, 101, 9]\<rparr>\<lparr>ch_pending := [9]\<rparr>)"
    by (rule frame_round_trip [rotated 2]) (simp_all add: reads_back_def demo_text_def demo_channel_def steady_def eval_nat_numeral)
  then show ?thesis by simp
qed

theorem strict_json_is_strict_witness:
  "\<exists>v. strict_json demo_text [116, 114, 117, 101] = Inr v \<and> validate_depth 0 v \<and> wf_json v
     \<and> (\<exists>r. jt_parse demo_text [116, 114, 117, 101] = Some r \<and> raw_keys_distinct r)"
  using strict_json_is_strict [of demo_text "[116, 114, 117, 101]" "JBool True"]
  by (simp add: strict_json_def demo_text_def)

theorem channel_preflight_and_failure_witness:
  "\<exists>e ch'. receive demo_text [] demo_channel = (Inl e, ch') \<and> ch_poisoned ch'
     \<and> send demo_text JNull [] ch' = (Inl Poisoned, ch')"
proof -
  let ?c = "demo_channel\<lparr>ch_poisoned := True\<rparr>"
  have "receive demo_text [] demo_channel = (Inl ChannelTimeout, ?c)"
    by (simp add: receive_def read_frame_def demo_channel_def fail_def eval_nat_numeral)
  moreover from this have "ch_poisoned ?c"
    using channel_preflight_and_failure [of demo_text JNull "[]" demo_channel ChannelTimeout ?c] by blast
  ultimately show ?thesis
    using channel_preflight_and_failure [of demo_text JNull "[]" ?c ChannelTimeout ?c] by blast
qed

end
