(* ===== verification/Admin_View_Properties.thy ===== *)
theory Admin_View_Properties
  imports Admin_View Ipc_Properties
begin

text \<open>
  Properties of the administration views: a page is the longest that fits one frame, and no view
  depends on a stored value.
\<close>

section \<open>Pages\<close>

definition page_of :: "string \<Rightarrow> json list \<Rightarrow> nat \<Rightarrow> nat \<Rightarrow> json" where
  "page_of key items offset n =
     page_value key (take n (take page_limit (drop offset items))) (length items) (offset + n < length items)"

lemma usize_add_less: "m < 2 ^ 64 \<Longrightarrow> usize_add a b < m \<longleftrightarrow> a + b < m"
  unfolding usize_add_def by (simp add: min_less_iff_disj)

lemma page_loop_spec:
  fixes offset :: nat
  assumes "length items < 2 ^ 64"
  defines "rest \<equiv> take page_limit (drop offset items)"
  shows "page_loop jt key rest offset (length items) n =
    (if \<exists>m. 1 \<le> m \<and> m \<le> n \<and> fits_frame jt (page_of key items offset m)
     then Inr (page_of key items offset (GREATEST m. 1 \<le> m \<and> m \<le> n \<and> fits_frame jt (page_of key items offset m)))
     else Inl Capacity)"
proof (induction n)
  case (Suc n)
  have page: "page_value key (take (Suc n) rest) (length items) (usize_add offset (Suc n) < length items)
      = page_of key items offset (Suc n)"
    unfolding page_of_def rest_def usize_add_less [OF assms(1)] by (rule refl)
  let ?P = "\<lambda>n m. 1 \<le> m \<and> m \<le> n \<and> fits_frame jt (page_of key items offset m)"
  show ?case
  proof (cases "fits_frame jt (page_of key items offset (Suc n))")
    case True
    have "(GREATEST m. ?P (Suc n) m) = Suc n"
      by (rule Greatest_equality) (use True in auto)
    moreover have "\<exists>m. ?P (Suc n) m" using True by auto
    ultimately show ?thesis using True by (simp only: page_loop.simps Let_def page if_True)
  next
    case False
    then have "?P (Suc n) = ?P n" by (auto simp: fun_eq_iff le_Suc_eq)
    then show ?thesis using False Suc by (simp only: page_loop.simps Let_def page if_False)
  qed
qed simp

lemma Greatest_unique:
  fixes Q :: "nat \<Rightarrow> bool"
  assumes "Q m" and "\<And>m. Q m \<Longrightarrow> m \<le> k"
  shows "(Q n \<and> (\<forall>m > n. \<not> Q m)) \<longleftrightarrow> n = (GREATEST m. Q m)"
proof -
  have "Q (GREATEST m. Q m)" using GreatestI_nat [of Q m k] assms by blast
  moreover have "m \<le> (GREATEST m. Q m)" if "Q m" for m using Greatest_le_nat [of Q m k] that assms by blast
  ultimately show ?thesis by (metis leD linorder_neqE_nat)
qed

lemma longest_page_iff:
  fixes k :: nat and jt :: json_text
  defines "Q \<equiv> \<lambda>page m. 1 \<le> m \<and> m \<le> k \<and> fits_frame jt (page m)"
  assumes "Q page m"
  shows "(\<exists>n \<le> k. response = page n \<and> (k = 0 \<or> 1 \<le> n \<and> fits_frame jt response)
      \<and> (\<forall>m. n < m \<and> m \<le> k \<longrightarrow> \<not> fits_frame jt (page m))) \<longleftrightarrow> response = page (GREATEST m. Q page m)"
    (is "?long \<longleftrightarrow> _")
proof -
  have bound: "\<And>m. Q page m \<Longrightarrow> m \<le> k" by (simp add: Q_def)
  note greatest = Greatest_unique [of "Q page" m k, OF assms(2) bound]
  have k: "k \<noteq> 0" using assms(2) by (simp add: Q_def)
  show ?thesis
  proof
    assume ?long
    then obtain n where n: "n \<le> k" "response = page n" "1 \<le> n" "fits_frame jt (page n)"
        "\<forall>m. n < m \<and> m \<le> k \<longrightarrow> \<not> fits_frame jt (page m)"
      using k by auto
    then have "Q page n \<and> (\<forall>m > n. \<not> Q page m)" by (simp add: Q_def)
    then show "response = page (GREATEST m. Q page m)" using greatest n(2) by simp
  next
    assume r: "response = page (GREATEST m. Q page m)"
    have "Q page (GREATEST m. Q page m) \<and> (\<forall>m > GREATEST m. Q page m. \<not> Q page m)" using greatest by blast
    then have "(GREATEST m. Q page m) \<le> k \<and> 1 \<le> (GREATEST m. Q page m) \<and> fits_frame jt response
        \<and> (\<forall>m. (GREATEST m. Q page m) < m \<and> m \<le> k \<longrightarrow> \<not> fits_frame jt (page m))"
      unfolding r Q_def by (metis le_trans less_imp_le)
    then show ?long using r by blast
  qed
qed

text \<open>
  A listing page is exactly the longest one that fits. With \<open>k\<close> the number of items after the
  offset, at most 100, a page holds the first \<open>n \<le> k\<close> of them in order, where \<open>n\<close> is the largest
  number for which the response fits one frame, together with the total and whether items follow. An
  empty rest gives an empty page; the call fails exactly if not even one item fits, with the capacity
  error.
\<close>

theorem bounded_page_longest:
  fixes offset :: nat
  assumes "length items < 2 ^ 64"
  defines "k \<equiv> min 100 (length items - offset)"
  shows "(bounded_page jt key items offset = Inr response \<longleftrightarrow>
      (\<exists>n \<le> k. response = page_value key (take n (drop offset items)) (length items) (offset + n < length items)
         \<and> (k = 0 \<or> 1 \<le> n \<and> fits_frame jt response)
         \<and> (\<forall>m. n < m \<and> m \<le> k \<longrightarrow> \<not> fits_frame jt
               (page_value key (take m (drop offset items)) (length items) (offset + m < length items)))))
    \<and> (bounded_page jt key items offset = Inl e \<longleftrightarrow> e = Capacity \<and> 1 \<le> k \<and>
      (\<forall>m. 1 \<le> m \<and> m \<le> k \<longrightarrow> \<not> fits_frame jt
         (page_value key (take m (drop offset items)) (length items) (offset + m < length items))))"
proof -
  let ?rest = "take page_limit (drop offset items)"
  let ?page = "\<lambda>m. page_value key (take m (drop offset items)) (length items) (offset + m < length items)"
  have k: "length ?rest = k" by (simp add: page_limit_def k_def min.commute)
  have page: "page_of key items offset m = ?page m" if "m \<le> k" for m
    using that by (simp add: page_of_def page_limit_def k_def min_absorb1)
  show ?thesis
  proof (cases "k = 0")
    case True
    then have "?rest = []" "\<not> offset < length items" using k by (auto simp: k_def min_def split: if_splits)
    then show ?thesis using True by (auto simp: bounded_page_def)
  next
    case False
    then have "?rest \<noteq> []" using k by auto
    then have run: "bounded_page jt key items offset = page_loop jt key ?rest offset (length items) k"
      using k by (simp add: bounded_page_def Let_def)
    let ?P = "\<lambda>m. 1 \<le> m \<and> m \<le> k \<and> fits_frame jt (page_of key items offset m)"
    have "?P = (\<lambda>m. 1 \<le> m \<and> m \<le> k \<and> fits_frame jt (?page m))" using page by (auto simp: fun_eq_iff)
    note spec = run [unfolded page_loop_spec [OF assms(1), of jt key offset k] this]
    show ?thesis
    proof (cases "\<exists>m. 1 \<le> m \<and> m \<le> k \<and> fits_frame jt (?page m)")
      case True
      then obtain m where m: "1 \<le> m \<and> m \<le> k \<and> fits_frame jt (?page m)" by blast
      let ?n = "GREATEST m. 1 \<le> m \<and> m \<le> k \<and> fits_frame jt (?page m)"
      have "?n \<le> k" using GreatestI_nat [of "\<lambda>m. 1 \<le> m \<and> m \<le> k \<and> fits_frame jt (?page m)" m k] m by blast
      then have "bounded_page jt key items offset = Inr (?page ?n)" using spec True page by simp
      then show ?thesis unfolding longest_page_iff [where k = k and jt = jt and page = ?page and m = m, OF m] using m by auto
    next
      case no: False
      then have "bounded_page jt key items offset = Inl Capacity" using spec by simp
      then show ?thesis using no False by auto
    qed
  qed
qed

theorem bounded_page_longest_witness:
  "bounded_page demo_text ''tasks'' [JNull, JNull, JNull] 1 = Inr (page_value ''tasks'' [JNull, JNull] 3 False)"
proof -
  have "fits_frame demo_text (page_value ''tasks'' [JNull, JNull] 3 False)"
    by (simp add: fits_frame_def page_value_def json_object_def json_nat_def max_nesting_def demo_text_def)
  then have "\<exists>n \<le> min 100 (length [JNull, JNull, JNull] - 1).
      page_value ''tasks'' [JNull, JNull] 3 False = page_value ''tasks'' (take n (drop 1 [JNull, JNull, JNull]))
        (length [JNull, JNull, JNull]) (1 + n < length [JNull, JNull, JNull])
      \<and> (min 100 (length [JNull, JNull, JNull] - 1) = 0 \<or> 1 \<le> n \<and> fits_frame demo_text (page_value ''tasks'' [JNull, JNull] 3 False))
      \<and> (\<forall>m. n < m \<and> m \<le> min 100 (length [JNull, JNull, JNull] - 1) \<longrightarrow> \<not> fits_frame demo_text
           (page_value ''tasks'' (take m (drop 1 [JNull, JNull, JNull])) (length [JNull, JNull, JNull])
             (1 + m < length [JNull, JNull, JNull])))"
    by (intro exI [of _ 2]) (auto simp: numeral_3_eq_3)
  then show ?thesis
    using bounded_page_longest [of "[JNull, JNull, JNull]" demo_text "''tasks''" 1 "page_value ''tasks'' [JNull, JNull] 3 False"]
    by simp
qed

section \<open>Views do not depend on values\<close>

definition replace_values :: "(uuid \<Rightarrow> secret_input) \<Rightarrow> application \<Rightarrow> application" where
  "replace_values f app = app\<lparr>app_records := bt_map (\<lambda>rid r. r\<lparr>vr_values := f rid\<rparr>) (app_records app)\<rparr>"

lemma record_view_values [simp]: "record_view ut (r\<lparr>vr_values := vs\<rparr>) = record_view ut r"
  by (simp add: record_view_def)

lemma replace_values_fields [simp]:
  "app_tasks (replace_values f app) = app_tasks app"
  "app_grants (replace_values f app) = app_grants app"
  "app_requests (replace_values f app) = app_requests app"
  "app_audit (replace_values f app) = app_audit app"
  "app_deliveries (replace_values f app) = app_deliveries app"
  "app_revoked_tasks (replace_values f app) = app_revoked_tasks app"
  "app_clock_frozen (replace_values f app) = app_clock_frozen app"
  by (simp_all add: replace_values_def)

lemma bt_values_map: "bt_values (bt_map f m) = map (\<lambda>(key, v). f key v) m"
  by (simp add: bt_values_def bt_map_def case_prod_unfold)

lemma replace_values_records:
  "map (record_view ut) (filter P (bt_values (app_records (replace_values f app)))) =
   map (record_view ut) (filter P (bt_values (app_records app)))"
  if "\<And>r vs. P (r\<lparr>vr_values := vs\<rparr>) = P r" for P
proof -
  have "map (record_view ut) (filter P (map (\<lambda>(rid, r). r\<lparr>vr_values := f rid\<rparr>) m)) =
      map (record_view ut) (filter P (map snd m))" for m :: "(uuid, vault_record) btmap"
    by (induction m) (auto simp: that)
  then show ?thesis by (simp add: replace_values_def bt_values_map) (simp add: bt_values_def)
qed

lemma fold_map_cong:
  "(\<And>p acc. p \<in> set xs \<Longrightarrow> h (g p) acc = h (g' p) acc) \<Longrightarrow> fold h (map g xs) acc = fold h (map g' xs) acc"
  by (induction xs arbitrary: acc) auto

lemma replace_values_counts:
  "record_counts (replace_values f app) owner workspace = record_counts app owner workspace"
proof -
  let ?h = "\<lambda>r (live, deleted). if vr_deleted r then (live, deleted + 1) else (live + 1, deleted :: nat)"
  let ?P = "\<lambda>r. vr_owner r = owner \<and> vr_workspace r = workspace"
  have "fold ?h (filter ?P (map (\<lambda>(rid, r). r\<lparr>vr_values := f rid\<rparr>) m)) acc = fold ?h (filter ?P (map snd m)) acc"
    for m :: "(uuid, vault_record) btmap" and acc :: "nat \<times> nat"
    by (induction m arbitrary: acc) auto
  then show ?thesis by (simp add: record_counts_def replace_values_def bt_values_map) (simp add: bt_values_def)
qed

lemma replace_values_grants: "scoped_grants (replace_values f app) owner workspace = scoped_grants app owner workspace"
proof -
  have "map_of (app_records (replace_values f app)) rid = map_option (\<lambda>r. r\<lparr>vr_values := f rid\<rparr>) (map_of (app_records app) rid)"
    for rid by (simp add: replace_values_def)
  then have "(case map_of (app_records (replace_values f app)) rid of
        None \<Rightarrow> False | Some r \<Rightarrow> vr_owner r = owner \<and> vr_workspace r = workspace) =
      (case map_of (app_records app) rid of
        None \<Rightarrow> False | Some r \<Rightarrow> vr_owner r = owner \<and> vr_workspace r = workspace)" for rid
    by (auto split: option.splits)
  then show ?thesis by (simp add: scoped_grants_def)
qed

text \<open>
  Administration views disclose no credential value. Whatever values the records hold, the status
  and every page of tasks, records and grants are the same: the answers are a function of the state
  without its values.
\<close>

theorem listings_disclose_no_values:
  "status_value (replace_values f app) ctx frozen = status_value app ctx frozen
   \<and> tasks_page jt ut (replace_values f app) ctx offset frozen = tasks_page jt ut app ctx offset frozen
   \<and> records_page jt ut (replace_values f app) ctx offset frozen = records_page jt ut app ctx offset frozen
   \<and> grants_page jt ut (replace_values f app) ctx offset rid frozen = grants_page jt ut app ctx offset rid frozen"
proof (intro conjI)
  have "task_in_scope (replace_values f app) = task_in_scope app" by (simp add: task_in_scope_def fun_eq_iff)
  then show "status_value (replace_values f app) ctx frozen = status_value app ctx frozen"
    by (simp add: status_value_def replace_values_counts replace_values_grants)
  show "tasks_page jt ut (replace_values f app) ctx offset frozen = tasks_page jt ut app ctx offset frozen"
    by (simp add: tasks_page_def split: sum.split)
  show "records_page jt ut (replace_values f app) ctx offset frozen = records_page jt ut app ctx offset frozen"
    by (simp add: records_page_def replace_values_records split: sum.split)
  show "grants_page jt ut (replace_values f app) ctx offset rid frozen = grants_page jt ut app ctx offset rid frozen"
    by (simp add: grants_page_def replace_values_grants split: sum.split)
qed

end
