(* ===== verification/Descriptors.thy ===== *)
theory Descriptors
  imports Https Ipc
begin

text \<open>
  The descriptors a process has inherited and what it does to them before it serves: \<^verbatim>\<open>harden\<close>,
  \<^verbatim>\<open>open_fd\<close>, \<^verbatim>\<open>read_fd\<close>, \<^verbatim>\<open>close_unlisted\<close>, \<^verbatim>\<open>socket\<close> and \<^verbatim>\<open>distinct_sockets\<close> of
  \<^verbatim>\<open>src/src/agent_broker.rs\<close>. The table of descriptors is a state; what the kernel answers about an open
  one is part of its entry, and calls that may fail on an open one have their outcome in \<open>fd_calls\<close>.
\<close>

section \<open>The process\<close>

record descriptor =
  fd_open :: bool
  fd_cloexec :: bool
  fd_identity :: "nat \<times> nat"
  fd_metadata :: file_metadata
  fd_nlink :: nat
  fd_writable :: bool
  fd_fifo :: bool
  fd_offset :: nat
  fd_bytes :: "u8 list option"
  fd_utf8 :: bool
  fd_socket :: "(int \<times> int) option"
  fd_connected :: bool
  fd_blocking_ok :: bool

type_synonym descriptors = "int \<Rightarrow> descriptor"

record process =
  pr_fds :: descriptors
  pr_no_new_privs :: bool
  pr_dumpable :: bool

text \<open>
  Whether the two \<^verbatim>\<open>prctl\<close> calls, setting a descriptor flag and closing succeed, and the entries of
  \<^verbatim>\<open>/proc/self/fd\<close>: an entry that cannot be read or is not text is \<open>None\<close>.
\<close>

record fd_calls =
  fc_privs_ok :: bool
  fc_dump_ok :: bool
  fc_cloexec_ok :: "int \<Rightarrow> bool"
  fc_listing :: "string option list option"
  fc_close_ok :: "int \<Rightarrow> bool"

definition harden :: "fd_calls \<Rightarrow> process \<Rightarrow> (error + unit) \<times> process" where
  "harden k p =
     (if \<not> fc_privs_ok k then (Inl Invalid, p)
      else
        let p = p\<lparr>pr_no_new_privs := True\<rparr> in
        if \<not> fc_dump_ok k then (Inl Invalid, p) else (Inr (), p\<lparr>pr_dumpable := False\<rparr>))"

section \<open>Taking over descriptors\<close>

definition close_fd :: "int \<Rightarrow> descriptors \<Rightarrow> descriptors" where
  "close_fd fd fds = fds(fd := (fds fd)\<lparr>fd_open := False\<rparr>)"

definition mark_fd :: "int \<Rightarrow> descriptors \<Rightarrow> descriptors" where
  "mark_fd fd fds = fds(fd := (fds fd)\<lparr>fd_cloexec := True\<rparr>)"

definition open_fd :: "fd_calls \<Rightarrow> int \<Rightarrow> descriptors \<Rightarrow> (error + unit) \<times> descriptors" where
  "open_fd k fd fds =
     (if fd < 3 \<or> \<not> fd_open (fds fd) then (Inl Invalid, fds)
      else if \<not> fc_cloexec_ok k fd then (Inl Invalid, fds)
      else (Inr (), mark_fd fd fds))"

text \<open>The descriptor is consumed: the file it becomes is closed at the end.\<close>

definition read_fd :: "fd_calls \<Rightarrow> int \<Rightarrow> nat \<Rightarrow> descriptors \<Rightarrow> (error + u8 list) \<times> descriptors" where
  "read_fd k fd max_bytes fds =
     (case open_fd k fd fds of
        (Inl e, fds) \<Rightarrow> (Inl e, fds)
      | (Inr _, fds) \<Rightarrow>
          (case fd_bytes (fds fd) of
             None \<Rightarrow> (Inl Invalid, close_fd fd fds)
           | Some bytes \<Rightarrow>
               (if max_bytes < length bytes then Inl Invalid else Inr bytes, close_fd fd fds)))"

text \<open>A secret given as text.\<close>

definition read_text :: "fd_calls \<Rightarrow> int \<Rightarrow> descriptors \<Rightarrow> (error + string) \<times> descriptors" where
  "read_text k fd fds =
     (case read_fd k fd 4096 fds of
        (Inl e, fds) \<Rightarrow> (Inl e, fds)
      | (Inr bytes, fds) \<Rightarrow>
          (if fd_utf8 (fds fd) then Inr (map (\<lambda>b. char_of (unat b)) bytes) else Inl Invalid, fds))"

text \<open>The loops over the descriptors named on the command line: each is open and named once.\<close>

fun open_distinct ::
    "fd_calls \<Rightarrow> int list \<Rightarrow> int list \<Rightarrow> descriptors \<Rightarrow> (error + int list) \<times> descriptors" where
  "open_distinct k keep [] fds = (Inr keep, fds)"
| "open_distinct k keep (fd # rest) fds =
     (case open_fd k fd fds of
        (Inl e, fds) \<Rightarrow> (Inl e, fds)
      | (Inr _, fds) \<Rightarrow>
          if fd \<in> set keep then (Inl Invalid, fds) else open_distinct k (fd # keep) rest fds)"

section \<open>Closing the rest\<close>

text \<open>\<^verbatim>\<open>i32::from_str\<close>: an optional sign, then digits within the range.\<close>

definition parse_fd :: "string \<Rightarrow> int option" where
  "parse_fd name =
     (case (case name of [] \<Rightarrow> (False, []) | c # s \<Rightarrow> if c = CHR ''-'' then (True, s)
              else if c = CHR ''+'' then (False, s) else (False, c # s)) of
        (negative, digits) \<Rightarrow>
          if digits = [] \<or> \<not> list_all ascii_digit digits then None
          else
            let n = (if negative then - int (digits_value 10 digits) else int (digits_value 10 digits)) in
            if n < - (2 ^ 31) \<or> 2 ^ 31 \<le> n then None else Some n)"

fun unlisted :: "int list \<Rightarrow> string option list \<Rightarrow> int list option" where
  "unlisted keep [] = Some []"
| "unlisted keep (entry # entries) =
     (case Option.bind entry parse_fd of
        None \<Rightarrow> None
      | Some fd \<Rightarrow>
          map_option (\<lambda>fds. if 2 < fd \<and> fd \<notin> set keep then fd # fds else fds) (unlisted keep entries))"

text \<open>A descriptor that is not open any more, as that of the directory listing, answers \<^verbatim>\<open>EBADF\<close>.\<close>

fun close_all :: "fd_calls \<Rightarrow> int list \<Rightarrow> descriptors \<Rightarrow> (error + unit) \<times> descriptors" where
  "close_all k [] fds = (Inr (), fds)"
| "close_all k (fd # rest) fds =
     (if \<not> fd_open (fds fd) then close_all k rest fds
      else if fc_close_ok k fd then close_all k rest (close_fd fd fds)
      else (Inl Invalid, fds))"

definition close_unlisted :: "fd_calls \<Rightarrow> int list \<Rightarrow> descriptors \<Rightarrow> (error + unit) \<times> descriptors" where
  "close_unlisted k keep fds =
     (case Option.bind (fc_listing k) (unlisted keep) of
        None \<Rightarrow> (Inl Invalid, fds)
      | Some rest \<Rightarrow> close_all k rest fds)"

section \<open>Sockets\<close>

definition af_unix :: int where "af_unix = 1"
definition sock_stream :: int where "sock_stream = 1"

definition file_type :: "32 word \<Rightarrow> 32 word" where "file_type mode = and mode 0xF000"
definition s_ifsock :: "32 word" where "s_ifsock = 0xC000"

definition unix_socket :: "fd_calls \<Rightarrow> int \<Rightarrow> descriptors \<Rightarrow> (error + unit) \<times> descriptors" where
  "unix_socket k fd fds =
     (case open_fd k fd fds of
        (Inl e, fds) \<Rightarrow> (Inl e, fds)
      | (Inr _, fds) \<Rightarrow>
          if fd_socket (fds fd) \<noteq> Some (af_unix, sock_stream) then (Inl Invalid, fds)
          else if \<not> fd_connected (fds fd) then (Inl Invalid, close_fd fd fds)
          else (Inr (), fds))"

fun distinct_sockets :: "descriptors \<Rightarrow> (nat \<times> nat) list \<Rightarrow> int list \<Rightarrow> error + unit" where
  "distinct_sockets fds identities [] = Inr ()"
| "distinct_sockets fds identities (fd # rest) =
     (if \<not> fd_open (fds fd) \<or> file_type (fm_mode (fd_metadata (fds fd))) \<noteq> s_ifsock
         \<or> fd_identity (fds fd) \<in> set identities
      then Inl Invalid
      else distinct_sockets fds (fd_identity (fds fd) # identities) rest)"

text \<open>The channel of a preconnected peer; a channel that cannot be made closes its socket.\<close>

definition peer_channel :: "fd_calls \<Rightarrow> int \<Rightarrow> descriptors \<Rightarrow> (error + channel) \<times> descriptors" where
  "peer_channel k fd fds =
     (case unix_socket k fd fds of
        (Inl e, fds) \<Rightarrow> (Inl e, fds)
      | (Inr _, fds) \<Rightarrow>
          (case new_channel 5000 5000 True (fd_blocking_ok (fds fd)) [] of
             Inl _ \<Rightarrow> (Inl Invalid, close_fd fd fds)
           | Inr ch \<Rightarrow> (Inr ch, fds)))"

text \<open>What a descriptor gives as text.\<close>

definition fd_text :: "descriptor \<Rightarrow> string" where
  "fd_text d = (case fd_bytes d of None \<Rightarrow> [] | Some bytes \<Rightarrow> map (\<lambda>b. char_of (unat b)) bytes)"

section \<open>What is left open\<close>

text \<open>
  Being closed is final here, a mark is never removed, and nothing else of an entry changes.
\<close>

definition entry_step :: "descriptor \<Rightarrow> descriptor \<Rightarrow> bool" where
  "entry_step d d' \<longleftrightarrow> d' = d\<lparr>fd_open := fd_open d', fd_cloexec := fd_cloexec d'\<rparr>
     \<and> (fd_open d' \<longrightarrow> fd_open d) \<and> (fd_cloexec d \<longrightarrow> fd_cloexec d')"

definition shrinks :: "descriptors \<Rightarrow> descriptors \<Rightarrow> bool" where
  "shrinks fds fds' \<longleftrightarrow> (\<forall>fd. entry_step (fds fd) (fds' fd))"

lemma entry_step_trans: "entry_step d d' \<Longrightarrow> entry_step d' d'' \<Longrightarrow> entry_step d d''"
  by (cases d; cases d'; cases d'') (simp add: entry_step_def)

lemma shrinks_refl [simp]: "shrinks fds fds"
  by (simp add: shrinks_def entry_step_def)

lemma shrinks_trans: "shrinks fds fds' \<Longrightarrow> shrinks fds' fds'' \<Longrightarrow> shrinks fds fds''"
  unfolding shrinks_def using entry_step_trans by blast

lemma shrinks_close [simp]: "shrinks fds (close_fd fd fds)"
  by (simp add: shrinks_def entry_step_def close_fd_def)

lemma shrinks_mark [simp]: "shrinks fds (mark_fd fd fds)"
  by (simp add: shrinks_def entry_step_def mark_fd_def)

lemma shrinksD:
  assumes "shrinks fds fds'"
  shows "fd_open (fds' fd) \<Longrightarrow> fd_open (fds fd)" "fd_cloexec (fds fd) \<Longrightarrow> fd_cloexec (fds' fd)"
    "fd_identity (fds' fd) = fd_identity (fds fd)" "fd_metadata (fds' fd) = fd_metadata (fds fd)"
    "fd_bytes (fds' fd) = fd_bytes (fds fd)" "fd_utf8 (fds' fd) = fd_utf8 (fds fd)"
    "fd_socket (fds' fd) = fd_socket (fds fd)"
proof -
  have step: "entry_step (fds fd) (fds' fd)" using assms by (simp add: shrinks_def)
  show "fd_open (fds' fd) \<Longrightarrow> fd_open (fds fd)" "fd_cloexec (fds fd) \<Longrightarrow> fd_cloexec (fds' fd)"
    "fd_identity (fds' fd) = fd_identity (fds fd)" "fd_metadata (fds' fd) = fd_metadata (fds fd)"
    "fd_bytes (fds' fd) = fd_bytes (fds fd)" "fd_utf8 (fds' fd) = fd_utf8 (fds fd)"
    "fd_socket (fds' fd) = fd_socket (fds fd)"
    using step by (cases "fds fd"; cases "fds' fd"; simp add: entry_step_def)+
qed

lemma shrinks_output:
  assumes "shrinks fds fds'"
  shows "fd_writable (fds' fd) = fd_writable (fds fd)" "fd_offset (fds' fd) = fd_offset (fds fd)"
    "fd_fifo (fds' fd) = fd_fifo (fds fd)"
proof -
  have step: "entry_step (fds fd) (fds' fd)" using assms by (simp add: shrinks_def)
  show "fd_writable (fds' fd) = fd_writable (fds fd)" "fd_offset (fds' fd) = fd_offset (fds fd)"
    "fd_fifo (fds' fd) = fd_fifo (fds fd)"
    using step by (cases "fds fd"; cases "fds' fd"; simp add: entry_step_def)+
qed

lemma marked [simp]:
  "fd_open (mark_fd fd fds x) = fd_open (fds x)" "fd_cloexec (mark_fd fd fds x) \<longleftrightarrow> x = fd \<or> fd_cloexec (fds x)"
  by (simp_all add: mark_fd_def)

lemma closed [simp]:
  "fd_open (close_fd fd fds x) \<longleftrightarrow> x \<noteq> fd \<and> fd_open (fds x)" "fd_cloexec (close_fd fd fds x) = fd_cloexec (fds x)"
  by (simp_all add: close_fd_def)

lemma open_fd_Inr:
  assumes "open_fd k fd fds = (Inr u, fds')"
  shows "3 \<le> fd" "fd_open (fds fd)" "fds' = mark_fd fd fds"
  using assms by (auto simp: open_fd_def split: if_splits)

lemma open_fd_shrinks: "shrinks fds (snd (open_fd k fd fds))"
  by (simp add: open_fd_def)

lemma open_distinct_Inr:
  assumes "open_distinct k keep rest fds = (Inr kept, fds')"
  shows "kept = rev rest @ keep \<and> distinct rest \<and> set rest \<inter> set keep = {}
     \<and> list_all (\<lambda>fd. 3 \<le> fd \<and> fd_open (fds fd)) rest \<and> fds' = fold mark_fd rest fds"
  using assms
proof (induction k keep rest fds rule: open_distinct.induct)
  case (2 k keep fd rest fds)
  obtain u where o: "open_fd k fd fds = (Inr u, mark_fd fd fds)" and new: "fd \<notin> set keep"
    and rest: "open_distinct k (fd # keep) rest (mark_fd fd fds) = (Inr kept, fds')"
    using 2(2) by (auto split: prod.splits sum.splits if_splits dest: open_fd_Inr(3))
  show ?case
    using 2(1) [OF o [symmetric] refl new] rest open_fd_Inr(1,2) [OF o] new
    by (auto simp: list_all_iff)
qed simp

lemma fold_marked [simp]:
  "fd_open (fold mark_fd rest fds x) = fd_open (fds x)"
  "fd_cloexec (fold mark_fd rest fds x) \<longleftrightarrow> x \<in> set rest \<or> fd_cloexec (fds x)"
  by (induction rest arbitrary: fds) auto

lemma shrinks_fold_mark: "shrinks fds fds' \<Longrightarrow> shrinks fds (fold mark_fd rest fds')"
  by (induction rest arbitrary: fds') (auto intro: shrinks_trans [OF _ shrinks_mark])

text \<open>A listing names every open descriptor.\<close>

definition listing_complete :: "fd_calls \<Rightarrow> descriptors \<Rightarrow> bool" where
  "listing_complete k fds \<longleftrightarrow> (\<forall>entries fd. fc_listing k = Some entries \<longrightarrow> fd_open (fds fd) \<longrightarrow>
     (\<exists>name. Some name \<in> set entries \<and> parse_fd name = Some fd))"

lemma unlisted_Some:
  assumes "unlisted keep entries = Some rest" and "Some name \<in> set entries" and "parse_fd name = Some fd"
  shows "2 < fd \<and> fd \<notin> set keep \<longleftrightarrow> fd \<in> set rest"
proof -
  have sub: "unlisted keep entries = Some rest \<Longrightarrow> \<forall>fd \<in> set rest. 2 < fd \<and> fd \<notin> set keep" for rest
    by (induction entries arbitrary: rest) (auto split: option.splits if_splits)
  moreover have "unlisted keep entries = Some rest \<Longrightarrow> Some name \<in> set entries \<Longrightarrow> 2 < fd \<Longrightarrow> fd \<notin> set keep \<Longrightarrow> fd \<in> set rest" for rest
    using assms(3) by (induction entries arbitrary: rest) (auto split: option.splits if_splits)
  ultimately show ?thesis using assms(1,2) by blast
qed

lemma close_all_Inr:
  assumes "close_all k rest fds = (Inr u, fds')"
  shows "shrinks fds fds' \<and> (\<forall>fd. fd_open (fds' fd) \<longleftrightarrow> fd_open (fds fd) \<and> fd \<notin> set rest)"
  using assms
proof (induction k rest fds rule: close_all.induct)
  case (2 k fd rest fds)
  show ?case
  proof (cases "fd_open (fds fd)")
    case True
    then have c: "fc_close_ok k fd" "close_all k rest (close_fd fd fds) = (Inr u, fds')"
      using 2(3) by (auto split: if_splits)
    show ?thesis using 2(2) [OF _ c] True shrinks_trans [OF shrinks_close] by auto
  next
    case False
    then show ?thesis using 2(1,3) by auto
  qed
qed simp

lemma close_unlisted_shrinks:
  assumes "close_unlisted k keep fds = (Inr u, fds')"
  shows "shrinks fds fds'"
  using assms close_all_Inr by (auto simp: close_unlisted_def split: bind_splits option.splits)

lemma close_unlisted_Inr:
  assumes "close_unlisted k keep fds = (Inr u, fds')" and "listing_complete k fds"
  shows "shrinks fds fds' \<and> (\<forall>fd. fd_open (fds' fd) \<longleftrightarrow> fd_open (fds fd) \<and> (fd \<le> 2 \<or> fd \<in> set keep))"
proof -
  obtain entries rest where r: "fc_listing k = Some entries" "unlisted keep entries = Some rest"
      "close_all k rest fds = (Inr u, fds')"
    using assms(1) by (auto simp: close_unlisted_def split: bind_splits option.splits)
  have "fd_open (fds fd) \<Longrightarrow> 2 < fd \<and> fd \<notin> set keep \<longleftrightarrow> fd \<in> set rest" for fd
    using assms(2) r(1) unlisted_Some [OF r(2)] unfolding listing_complete_def by blast
  moreover have "\<not> 2 < fd \<longleftrightarrow> fd \<le> 2" for fd :: int by arith
  ultimately show ?thesis using close_all_Inr [OF r(3)] by metis
qed

end
