(* ===== verification/Sockets.thy ===== *)
theory Sockets
  imports Descriptors
begin

text \<open>
  The Unix sockets of session admission (\<^verbatim>\<open>src/src/agent_bridge.rs\<close>): the walk to the private directory
  of a path, the listener that the owner binds there and removes again, the credentials of a peer, and
  a connection attempt that ends within a second. The entries of the directory are a state.
\<close>

section \<open>The private directory\<close>

text \<open>
  \<^verbatim>\<open>parent\<close>: the directory of an absolute path, opened component by component without following
  links, which has to be private. \<open>opened\<close> gives the metadata of a directory that could be opened so.
\<close>

definition parent ::
    "nat \<Rightarrow> (string list \<Rightarrow> file_metadata option) \<Rightarrow> string \<Rightarrow> error + string list \<times> string" where
  "parent euid opened path =
     (if path = [] \<or> hd path \<noteq> CHR ''/'' then Inl Invalid
      else
        let parts = path_components path in
        if parts = [] \<or> last parts = ''..'' \<or> CHR 0x00 \<in> set (last parts) then Inl Invalid
        else if list_ex (\<lambda>part. part = ''..'' \<or> CHR 0x00 \<in> set part) (butlast parts)
           \<or> list_ex (\<lambda>n. opened (take n parts) = None) [0..<length parts] then Inl Invalid
        else case opened (butlast parts) of
          None \<Rightarrow> Inl Invalid
        | Some m \<Rightarrow>
            if fm_uid m \<noteq> euid \<or> and (fm_mode m) 4095 \<noteq> 448 then Inl Invalid
            else Inr (butlast parts, last parts))"

definition anchored :: "nat \<Rightarrow> string \<Rightarrow> string" where
  "anchored dir_fd name = ''/proc/self/fd/'' @ nat_string 10 dir_fd @ ''/'' @ name"

record node =
  nd_identity :: "nat \<times> nat"
  nd_mode :: "32 word"
  nd_uid :: nat

type_synonym nodes = "(string, node) btmap"

definition stat_at :: "bool \<Rightarrow> nodes \<Rightarrow> string \<Rightarrow> error + node" where
  "stat_at failed nodes name =
     (if failed then Inl Invalid else case map_of nodes name of None \<Rightarrow> Inl Invalid | Some nd \<Rightarrow> Inr nd)"

section \<open>Credentials\<close>

text \<open>What the socket reports: nothing, or whether the record has its full size, and the user.\<close>

definition check_uid :: "nat \<Rightarrow> (bool \<times> nat) option \<Rightarrow> error + unit" where
  "check_uid euid cred =
     (case cred of
        None \<Rightarrow> Inl Denied
      | Some (full, uid) \<Rightarrow> if \<not> full \<or> uid \<noteq> euid then Inl Denied else Inr ())"

section \<open>The listener\<close>

record listener =
  li_name :: string
  li_identity :: "nat \<times> nat"
  li_fd :: int

text \<open>
  What binding observes: whether the exclusive creation succeeds where the name is free, the inode and
  descriptor it gives, and the outcome of the other calls. The file mode mask is set around the
  creation and put back.
\<close>

record bind_io =
  bi_dir :: "string list \<Rightarrow> file_metadata option"
  bi_bound :: bool
  bi_identity :: "nat \<times> nat"
  bi_fd :: int
  bi_stat_failed :: bool
  bi_listen_ok :: bool
  bi_nonblocking_ok :: bool

definition bind_mask :: "32 word" where "bind_mask = 0x7F"

definition new_socket :: "nat \<Rightarrow> bind_io \<Rightarrow> node" where
  "new_socket euid io =
     \<lparr>nd_identity = bi_identity io, nd_mode = or s_ifsock (and 0x1FF (not bind_mask)), nd_uid = euid\<rparr>"

definition open_listener :: "int \<Rightarrow> descriptors \<Rightarrow> descriptors" where
  "open_listener fd fds = fds(fd := (fds fd)\<lparr>fd_open := True, fd_cloexec := True\<rparr>)"

text \<open>Dropping the listener removes the entry only if it is still the socket that was bound.\<close>

definition unlink_listener :: "bool \<Rightarrow> listener \<Rightarrow> nodes \<Rightarrow> nodes" where
  "unlink_listener stat_failed l nodes =
     (case stat_at stat_failed nodes (li_name l) of
        Inl _ \<Rightarrow> nodes
      | Inr nd \<Rightarrow>
          if nd_identity nd = li_identity l \<and> file_type (nd_mode nd) = s_ifsock
          then bt_remove (li_name l) nodes else nodes)"

definition drop_listener :: "bool \<Rightarrow> listener \<Rightarrow> nodes \<times> descriptors \<Rightarrow> nodes \<times> descriptors" where
  "drop_listener stat_failed l state =
     (case state of (nodes, fds) \<Rightarrow> (unlink_listener stat_failed l nodes, close_fd (li_fd l) fds))"

definition bind ::
    "fd_calls \<Rightarrow> nat \<Rightarrow> bind_io \<Rightarrow> string \<Rightarrow> nodes \<times> descriptors \<Rightarrow> (error + listener) \<times> nodes \<times> descriptors" where
  "bind k euid io path state =
     (case state of (nodes, fds) \<Rightarrow>
        case parent euid (bi_dir io) path of
          Inl e \<Rightarrow> (Inl e, state)
        | Inr (_, name) \<Rightarrow>
            if \<not> bi_bound io \<or> bt_contains nodes name then (Inl Invalid, state)
            else
              let nodes = bt_insert name (new_socket euid io) nodes; fds = open_listener (bi_fd io) fds in
              case stat_at (bi_stat_failed io) nodes name of
                Inl e \<Rightarrow> (Inl e, nodes, close_fd (bi_fd io) fds)
              | Inr nd \<Rightarrow>
                  let l = \<lparr>li_name = name, li_identity = nd_identity nd, li_fd = bi_fd io\<rparr> in
                  if and (nd_mode nd) 4095 \<noteq> 384 \<or> \<not> bi_listen_ok io \<or> \<not> bi_nonblocking_ok io
                  then (Inl Invalid, drop_listener (bi_stat_failed io) l (nodes, fds))
                  else case open_fd k (bi_fd io) fds of
                    (Inl e, fds) \<Rightarrow> (Inl e, drop_listener (bi_stat_failed io) l (nodes, fds))
                  | (Inr _, fds) \<Rightarrow> (Inr l, nodes, fds))"

section \<open>Connecting\<close>

datatype connect_result = Connected | InProgress | ConnectFailed

record dial =
  di_socket_ok :: bool
  di_connect :: connect_result
  di_poll :: int
  di_pending_error :: bool

definition sun_path_len :: nat where "sun_path_len = 108"

definition connect_bounded :: "string \<Rightarrow> dial \<Rightarrow> error + unit" where
  "connect_bounded path d =
     (if sun_path_len \<le> length path then Inl Invalid
      else if \<not> di_socket_ok d then Inl Denied
      else case di_connect d of
        Connected \<Rightarrow> Inr ()
      | ConnectFailed \<Rightarrow> Inl Denied
      | InProgress \<Rightarrow> if di_poll d \<le> 0 \<or> di_pending_error d then Inl Denied else Inr ())"

section \<open>What binding and dropping change\<close>

lemma new_socket_mode: "nd_mode (new_socket euid io) = 0xC180"
  by (simp add: new_socket_def bind_mask_def s_ifsock_def)

lemma file_type_socket [simp]: "file_type (nd_mode (new_socket euid io)) = s_ifsock"
  by (simp add: new_socket_mode file_type_def s_ifsock_def)

lemma bt_remove_insert:
  assumes "bt_wf m" and "\<not> bt_contains m k"
  shows "bt_remove k (bt_insert k v m) = m"
proof (rule bt_wf_ext)
  have "map_of m k = None" using assms(2) by (simp add: bt_contains_iff map_of_eq_None_iff)
  then show "map_of (bt_remove k (bt_insert k v m)) = map_of m" by auto
qed (use assms(1) in simp_all)

text \<open>
  A listener that is bound owns a new entry of its directory: no entry was there before, and nothing
  else changed. A failed binding leaves the directory as it was, unless the new entry could not be
  looked at.
\<close>

lemma bind_Inr:
  assumes "bind k euid io path (nodes, fds) = (Inr l, nodes', fds')"
  shows "\<not> bt_contains nodes (li_name l) \<and> li_identity l = bi_identity io \<and> li_fd l = bi_fd io \<and> 3 \<le> bi_fd io
    \<and> nodes' = bt_insert (li_name l) (new_socket euid io) nodes
    \<and> fds' = mark_fd (bi_fd io) (open_listener (bi_fd io) fds)"
  using assms
  by (auto simp: bind_def Let_def stat_at_def new_socket_def split: sum.splits prod.splits if_splits
      dest: open_fd_Inr)

lemma unlink_own:
  assumes "bt_wf nodes" and "\<not> bt_contains nodes name"
  shows "unlink_listener False \<lparr>li_name = name, li_identity = bi_identity io, li_fd = fd\<rparr>
    (bt_insert name (new_socket euid io) nodes) = nodes"
  using bt_remove_insert [OF assms, of "new_socket euid io"]
  by (simp add: unlink_listener_def stat_at_def) (simp add: new_socket_def)

lemma bind_Inl:
  assumes "bind k euid io path (nodes, fds) = (Inl e, nodes', fds')" and "bt_wf nodes" and "\<not> bi_stat_failed io"
  shows "nodes' = nodes \<and> (fds' = fds \<or> (\<exists>fds1. fds' = close_fd (bi_fd io) fds1))"
  using assms unlink_own [OF assms(2)]
  by (auto simp: bind_def drop_listener_def Let_def stat_at_def new_socket_def split: sum.splits prod.splits if_splits)

end
