(* ===== verification/Sessions.thy ===== *)
theory Sessions
  imports Admin_View Sockets
begin

text \<open>
  Session admission (\<^verbatim>\<open>src/src/agent_bridge.rs\<close>): the table of issued sessions, their tokens, attachment
  over a framed channel, and the front end's connection to the owner. Random bytes, identifiers, clock
  readings and what the file system and the sockets answer are arguments; SHA-256 is the one of
  \<open>externals\<close>.
\<close>

section \<open>The session table\<close>

record session =
  se_digest :: "digest option"
  se_principal :: string
  se_tasks :: "uuid fset"
  se_expires_at :: time

record sessions =
  ss_entries :: "(uuid, session) btmap"
  ss_owner :: string
  ss_workspace :: string
  ss_admin :: string
  ss_socket :: "string option"
  ss_deadline :: time

definition session_capacity :: nat where "session_capacity = 32"
definition max_tasks :: nat where "max_tasks = 64"

definition new_sessions :: "string \<Rightarrow> string \<Rightarrow> string \<Rightarrow> string option \<Rightarrow> time \<Rightarrow> sessions" where
  "new_sessions owner workspace admin socket deadline =
     \<lparr>ss_entries = [], ss_owner = owner, ss_workspace = workspace, ss_admin = admin, ss_socket = socket,
      ss_deadline = deadline\<rparr>"

definition hex_byte :: "u8 \<Rightarrow> string" where
  "hex_byte b = [''0123456789abcdef'' ! (unat b div 16), ''0123456789abcdef'' ! (unat b mod 16)]"

definition session_token :: "u8 list \<Rightarrow> string" where
  "session_token random = concat (map hex_byte random)"

definition token_digest :: "externals \<Rightarrow> string \<Rightarrow> digest" where
  "token_digest ex token = ex_sha256 ex (bytes_of token)"

definition issue_refused :: "sessions \<Rightarrow> string \<Rightarrow> uuid list \<Rightarrow> time \<Rightarrow> time \<Rightarrow> bool" where
  "issue_refused s princ tasks expires_at now \<longleftrightarrow>
     blank princ \<or> 2048 < length princ \<or> princ = ss_admin s
     \<or> tasks = [] \<or> max_tasks < length tasks \<or> fcard (fset_of_list tasks) \<noteq> length tasks
     \<or> nil_uuid |\<in>| fset_of_list tasks \<or> expires_at \<le> now \<or> ss_deadline s < expires_at"

definition issue ::
    "externals \<Rightarrow> uuid_text \<Rightarrow> sessions \<Rightarrow> string \<Rightarrow> uuid list \<Rightarrow> time \<Rightarrow> time \<Rightarrow> (uuid list \<Rightarrow> string \<Rightarrow> error + unit)
       \<Rightarrow> u8 list option \<Rightarrow> uuid \<Rightarrow> (error + json) \<times> sessions" where
  "issue ex ut s0 princ tasks expires_at now tasks_valid random sid =
     (let s = s0\<lparr>ss_entries := bt_retain (\<lambda>_ e. now < se_expires_at e) (ss_entries s0)\<rparr> in
      if issue_refused s princ tasks expires_at now then (Inl Invalid, s)
      else case tasks_valid tasks princ of
        Inl e \<Rightarrow> (Inl e, s)
      | Inr _ \<Rightarrow>
        (case ss_socket s of
           None \<Rightarrow> (Inl InteractionRequired, s)
         | Some socket \<Rightarrow>
             if session_capacity \<le> length (ss_entries s) then (Inl Capacity, s)
             else case random of
               None \<Rightarrow> (Inl InteractionRequired, s)
             | Some bytes \<Rightarrow>
                 let token = session_token bytes in
                 (Inr (json_object [(''ok'', JBool True), (''session'', json_object
                    [(''id'', json_uuid ut sid), (''socket'', JString socket), (''token'', JString token),
                     (''expires_at'', json_int expires_at)])]),
                  s\<lparr>ss_entries := bt_insert sid
                     \<lparr>se_digest = Some (token_digest ex token), se_principal = princ,
                      se_tasks = fset_of_list tasks, se_expires_at = expires_at\<rparr> (ss_entries s)\<rparr>)))"

definition revoke_session :: "uuid \<Rightarrow> sessions \<Rightarrow> sessions" where
  "revoke_session sid s = s\<lparr>ss_entries := bt_remove sid (ss_entries s)\<rparr>"

definition census :: "sessions \<Rightarrow> time \<Rightarrow> nat \<times> nat" where
  "census s now =
     fold (\<lambda>e (live, pending).
       if se_expires_at e \<le> now then (live, pending)
       else if se_digest e = None then (live + 1, pending) else (live, pending + 1))
       (bt_values (ss_entries s)) (0, 0)"

definition session_view :: "uuid_text \<Rightarrow> uuid \<times> session \<Rightarrow> json" where
  "session_view ut entry =
     (case entry of (sid, e) \<Rightarrow> json_object
        [(''id'', json_uuid ut sid), (''principal'', JString (se_principal e)),
         (''tasks'', JArray (map (json_uuid ut) (sorted_list_of_fset (se_tasks e)))),
         (''expires_at'', json_int (se_expires_at e)), (''attached'', JBool (se_digest e = None))])"

definition list_sessions :: "json_text \<Rightarrow> uuid_text \<Rightarrow> sessions \<Rightarrow> string \<Rightarrow> string \<Rightarrow> nat \<Rightarrow> error + json" where
  "list_sessions jt ut s owner workspace offset =
     (if owner \<noteq> ss_owner s \<or> workspace \<noteq> ss_workspace s then Inl Denied
      else bounded_page jt ''sessions'' (map (session_view ut) (ss_entries s)) offset)"

definition live :: "sessions \<Rightarrow> uuid \<Rightarrow> time \<Rightarrow> bool" where
  "live s sid now =
     (case map_of (ss_entries s) sid of None \<Rightarrow> False | Some e \<Rightarrow> now < se_expires_at e \<and> se_digest e = None)"

definition permits :: "sessions \<Rightarrow> uuid \<Rightarrow> uuid \<Rightarrow> time \<Rightarrow> bool" where
  "permits s sid tid now \<longleftrightarrow> live s sid now
     \<and> (case map_of (ss_entries s) sid of None \<Rightarrow> False | Some e \<Rightarrow> tid |\<in>| se_tasks e)"

section \<open>Attachment\<close>

text \<open>The comparison that does not stop at the first difference.\<close>

definition same_digest :: "digest \<Rightarrow> digest \<Rightarrow> bool" where
  "same_digest expected actual \<longleftrightarrow> fold (\<lambda>(a, b) difference. or difference (xor a b)) (zip expected actual) 0 = 0"

definition token_form :: "string \<Rightarrow> bool" where
  "token_form token \<longleftrightarrow> length token = 64 \<and> list_all (\<lambda>c. ascii_hexdigit c \<and> \<not> ascii_upper c) token"

definition awaits :: "digest \<Rightarrow> time \<Rightarrow> session \<Rightarrow> bool" where
  "awaits digest now e \<longleftrightarrow> now < se_expires_at e
     \<and> (case se_digest e of None \<Rightarrow> False | Some expected \<Rightarrow> same_digest expected digest)"

definition attach ::
    "externals \<Rightarrow> sessions \<Rightarrow> string \<Rightarrow> time \<Rightarrow> (error + uuid \<times> auth_context) \<times> sessions" where
  "attach ex s token now =
     (if \<not> token_form token then (Inl Denied, s)
      else case List.find (\<lambda>(sid, e). awaits (token_digest ex token) now e) (ss_entries s) of
        None \<Rightarrow> (Inl Denied, s)
      | Some (sid, e) \<Rightarrow>
          (Inr (sid, from_authenticated_session (ss_owner s) (se_principal e) (ss_workspace s) (se_expires_at e)),
           s\<lparr>ss_entries := bt_modify sid (\<lambda>e. e\<lparr>se_digest := None\<rparr>) (ss_entries s)\<rparr>))"

text \<open>The derived \<^verbatim>\<open>Deserialize\<close> of the two-field request: an object with exactly these members, or a pair.\<close>

definition parse_attach :: "json \<Rightarrow> (string \<times> string) option" where
  "parse_attach v =
     (case v of
        JObject m \<Rightarrow>
          if set (bt_keys m) \<subseteq> {''op'', ''token''}
          then (case (map_of m ''op'', map_of m ''token'') of
                  (Some (JString op), Some (JString token)) \<Rightarrow> Some (op, token)
                | _ \<Rightarrow> None)
          else None
      | JArray [JString op, JString token] \<Rightarrow> Some (op, token)
      | _ \<Rightarrow> None)"

definition attach_request :: "externals \<Rightarrow> sessions \<Rightarrow> json \<Rightarrow> time \<Rightarrow> (error + uuid \<times> auth_context) \<times> sessions" where
  "attach_request ex s v now =
     (case parse_attach v of
        None \<Rightarrow> (Inl Denied, s)
      | Some (op, token) \<Rightarrow> if op \<noteq> ''attach'' then (Inl Denied, s) else attach ex s token now)"

definition attach_accepted :: json where "attach_accepted = json_object [(''ok'', JBool True)]"
definition attach_refused :: json where
  "attach_refused = json_object [(''ok'', JBool False), (''error'', JString ''access denied'')]"

record admission_io =
  ad_euid :: nat
  ad_cred :: "(bool \<times> nat) option"
  ad_blocking_ok :: bool
  ad_pending :: "u8 list"
  ad_reads :: "io_event list"
  ad_writes :: "io_event list"
  ad_wall :: time

definition admit ::
    "externals \<Rightarrow> json_text \<Rightarrow> sessions \<Rightarrow> admission_io \<Rightarrow> time \<Rightarrow> (error + uuid \<times> auth_context \<times> channel) \<times> sessions" where
  "admit ex jt s io now =
     (case check_uid (ad_euid io) (ad_cred io) of
        Inl e \<Rightarrow> (Inl e, s)
      | Inr _ \<Rightarrow>
       (case new_channel 1000 1000 True (ad_blocking_ok io) (ad_pending io) of
        Inl _ \<Rightarrow> (Inl Denied, s)
      | Inr ch \<Rightarrow>
        (case receive jt (ad_reads io) ch of
           (received, ch1) \<Rightarrow>
             (case (case received of
                      Inl _ \<Rightarrow> (Inl Denied, s)
                    | Inr v \<Rightarrow> attach_request ex s v (max now (ad_wall io))) of
                (Inr (sid, ctx), s1) \<Rightarrow>
                  (case send jt attach_accepted (ad_writes io) ch1 of
                     (Inl _, _) \<Rightarrow> (Inl Denied, revoke_session sid s1)
                   | (Inr _, ch2) \<Rightarrow> (Inr (sid, ctx, ch2), s1))
              | (Inl e, s1) \<Rightarrow> (Inl e, s1)))))"

section \<open>The front end\<close>

definition max_lifetime_secs :: nat where "max_lifetime_secs = 86400"

definition frontend_deadline :: "time \<Rightarrow> time \<Rightarrow> error + nat" where
  "frontend_deadline expires_at now =
     (let remaining = expires_at - now in
      if remaining < time_min \<or> time_max < remaining then Inl Invalid
      else if remaining \<le> 0 then Inl Denied
      else if int max_lifetime_secs < remaining then Inl Invalid
      else Inr (nat remaining))"

record session_file =
  sf_id :: uuid
  sf_socket :: string
  sf_token :: string
  sf_expires_at :: time

text \<open>What opening the session file and the socket found, and how the exchange went.\<close>

record connect_io =
  co_dir :: "string list \<Rightarrow> file_metadata option"
  co_file :: "file_metadata option"
  co_nlink :: nat
  co_bytes :: "u8 list option"
  co_stat_failed :: bool
  co_nodes :: nodes
  co_dir_fd :: nat
  co_dial :: dial
  co_cred :: "(bool \<times> nat) option"
  co_blocking_ok :: bool
  co_pending :: "u8 list"
  co_writes :: "io_event list"
  co_reads :: "io_event list"

definition read_session_file ::
    "json_text \<Rightarrow> (json \<Rightarrow> session_file option) \<Rightarrow> nat \<Rightarrow> connect_io \<Rightarrow> string \<Rightarrow> error + session_file" where
  "read_session_file jt session_of euid io path =
     (case parent euid (co_dir io) path of
        Inl e \<Rightarrow> Inl e
      | Inr _ \<Rightarrow>
        (case co_file io of
           None \<Rightarrow> Inl Invalid
         | Some m \<Rightarrow>
             if \<not> fm_is_file m \<or> and (fm_mode m) 4095 \<noteq> 384 \<or> co_nlink io \<noteq> 1 \<or> fm_uid m \<noteq> euid \<or> 4096 < fm_len m
             then Inl Invalid
             else case co_bytes io of
               None \<Rightarrow> Inl Invalid
             | Some bytes \<Rightarrow>
                 if 4096 < length bytes then Inl Invalid
                 else case strict_json jt bytes of
                   Inl _ \<Rightarrow> Inl Invalid
                 | Inr v \<Rightarrow> (case session_of v of None \<Rightarrow> Inl Invalid | Some file \<Rightarrow> Inr file)))"

definition attach_message :: "string \<Rightarrow> json" where
  "attach_message token = json_object [(''op'', JString ''attach''), (''token'', JString token)]"

definition connect ::
    "json_text \<Rightarrow> (json \<Rightarrow> session_file option) \<Rightarrow> nat \<Rightarrow> connect_io \<Rightarrow> string \<Rightarrow> time \<Rightarrow> error + channel \<times> time" where
  "connect jt session_of euid io path now =
     (case read_session_file jt session_of euid io path of
        Inl e \<Rightarrow> Inl e
      | Inr file \<Rightarrow>
          if sf_id file = nil_uuid then Inl Denied
          else case frontend_deadline (sf_expires_at file) now of
            Inl e \<Rightarrow> Inl e
          | Inr _ \<Rightarrow>
            (case parent euid (co_dir io) (sf_socket file) of
               Inl e \<Rightarrow> Inl e
             | Inr (_, name) \<Rightarrow>
               (case stat_at (co_stat_failed io) (co_nodes io) name of
                  Inl e \<Rightarrow> Inl e
                | Inr nd \<Rightarrow>
                    if file_type (nd_mode nd) \<noteq> s_ifsock \<or> and (nd_mode nd) 4095 \<noteq> 384 \<or> nd_uid nd \<noteq> euid then Inl Denied
                    else case connect_bounded (anchored (co_dir_fd io) name) (co_dial io) of
                      Inl e \<Rightarrow> Inl e
                    | Inr _ \<Rightarrow>
                      (case check_uid euid (co_cred io) of
                         Inl e \<Rightarrow> Inl e
                       | Inr _ \<Rightarrow>
                         (case new_channel 5000 5000 True (co_blocking_ok io) (co_pending io) of
                            Inl _ \<Rightarrow> Inl Denied
                          | Inr ch \<Rightarrow>
                            (case send jt (attach_message (sf_token file)) (co_writes io) ch of
                               (Inl _, _) \<Rightarrow> Inl Denied
                             | (Inr _, ch1) \<Rightarrow>
                               (case receive jt (co_reads io) ch1 of
                                  (Inl _, _) \<Rightarrow> Inl Denied
                                | (Inr v, ch2) \<Rightarrow>
                                    if v \<noteq> attach_accepted then Inl Denied else Inr (ch2, sf_expires_at file))))))))"

end
