(* ===== verification/Broker.thy ===== *)
theory Broker
  imports Sessions Workflow
begin

text \<open>
  The owner process (\<^verbatim>\<open>src/src/agent_broker.rs\<close>): the configuration it starts from, the requests of
  workloads and of the administrator, and the loop that serves the peers. The derived JSON decoders,
  clock readings, random values and what system calls return are arguments; instants and durations
  are counted in seconds.
\<close>

section \<open>Configuration\<close>

definition min_lifetime_secs :: nat where "min_lifetime_secs = 60"
definition default_lifetime_secs :: nat where "default_lifetime_secs = 300"

record peer_config =
  pc_fd :: int
  pc_principal :: string

record supervisor_config =
  sc_owner :: string
  sc_workspace :: string
  sc_admin_principal :: string
  sc_peers :: "peer_config list"
  sc_destinations :: "destination list"
  sc_max_lifetime_secs :: nat
  sc_idle_timeout_secs :: "nat option"

definition bounded_lifetime :: "nat \<Rightarrow> error + nat" where
  "bounded_lifetime secs = (if min_lifetime_secs \<le> secs \<and> secs \<le> max_lifetime_secs then Inr secs else Inl Invalid)"

definition lifetimes :: "supervisor_config \<Rightarrow> error + nat \<times> nat option" where
  "lifetimes c =
     (case bounded_lifetime (sc_max_lifetime_secs c) of
        Inl e \<Rightarrow> Inl e
      | Inr lifetime \<Rightarrow>
        (case sc_idle_timeout_secs c of
           None \<Rightarrow> Inr (lifetime, None)
         | Some secs \<Rightarrow>
           (case bounded_lifetime secs of
              Inl e \<Rightarrow> Inl e
            | Inr idle \<Rightarrow> if lifetime < idle then Inl Invalid else Inr (lifetime, Some idle))))"

section \<open>Requests\<close>

datatype work_request =
    WGenerate uuid uuid credential_kind "string option" "generation_policy option"
  | WMutate uuid uuid mutation
  | WMetadata uuid uuid fields
  | WUse uuid private_use

fun work_task :: "work_request \<Rightarrow> uuid" where
  "work_task (WGenerate tid _ _ _ _) = tid"
| "work_task (WMutate tid _ _) = tid"
| "work_task (WMetadata tid _ _) = tid"
| "work_task (WUse tid _) = tid"

fun validate_agent :: "work_request \<Rightarrow> error + unit" where
  "validate_agent (WMutate _ _ op) =
     (case op of
        Create _ _ \<Rightarrow> Inl Denied
      | Generate _ _ _ \<Rightarrow> Inl Denied
      | Patch _ _ v \<Rightarrow> if \<not> metadata_only v then Inl Denied else Inr ()
      | Share _ _ g \<Rightarrow> if SecretRead \<in> gs_permissions g then Inl Denied else Inr ()
      | _ \<Rightarrow> Inr ())"
| "validate_agent (WMetadata _ _ fs) = (if \<exists>f \<in> fs. f = Password \<or> f = ApiKey then Inl Denied else Inr ())"
| "validate_agent (WGenerate _ _ kind username policy) =
     (if (case policy of None \<Rightarrow> False | Some p \<Rightarrow> \<not> policy_valid p) then Inl Invalid
      else case (kind, username) of
        (KLogin, Some name) \<Rightarrow> if name \<noteq> [] \<and> length name \<le> 2048 then Inr () else Inl Invalid
      | (KApiKey, None) \<Rightarrow> Inr ()
      | _ \<Rightarrow> Inl Invalid)"
| "validate_agent (WUse _ usage) = (if pu_action usage \<noteq> ActUse then Inl InteractionRequired else Inr ())"

datatype admin_control =
    ImportSecret uuid uuid credential_kind secret_input
  | ReadSecret uuid uuid fields
  | Status
  | Approve task_approval
  | RevokeTask uuid
  | IssueSession string "uuid list" time
  | RevokeSession uuid
  | Audit nat
  | ListTasks nat
  | ListRecords nat
  | ListGrants nat "uuid option"
  | ListSessions nat
  | Shutdown

datatype admin_request = Control admin_control | Work work_request

text \<open>The derived decoders of the request types.\<close>

record decoders =
  de_work :: "json \<Rightarrow> work_request option"
  de_control :: "json \<Rightarrow> admin_control option"

definition parse_admin :: "decoders \<Rightarrow> json \<Rightarrow> error + admin_request" where
  "parse_admin de v =
     (case (case v of JObject m \<Rightarrow> map_of m ''op'' | _ \<Rightarrow> None) of
        Some (JString op) \<Rightarrow>
          if op \<in> {''generate'', ''mutate'', ''metadata'', ''use''}
          then (case de_work de v of None \<Rightarrow> Inl Invalid | Some r \<Rightarrow> Inr (Work r))
          else (case de_control de v of None \<Rightarrow> Inl Invalid | Some c \<Rightarrow> Inr (Control c))
      | _ \<Rightarrow> (case de_control de v of None \<Rightarrow> Inl Invalid | Some c \<Rightarrow> Inr (Control c)))"

section \<open>Responses\<close>

fun error_text :: "error \<Rightarrow> string" where
  "error_text Denied = ''access denied''"
| "error_text Invalid = ''invalid request''"
| "error_text Conflict = ''revision conflict''"
| "error_text ReplayConflict = ''request identifier reused with different input''"
| "error_text ClockRecoveryRequired = ''trusted clock recovery required''"
| "error_text Capacity = ''capacity reached''"
| "error_text InteractionRequired = ''private delivery unavailable''"
| "error_text GenerationUnavailable = ''private credential generation unavailable''"
| "error_text NotPublished = ''storage publication did not occur''"
| "error_text RecoveryRequired = ''validated storage recovery required''"
| "error_text InvalidStorage = ''invalid encrypted agent vault''"
| "error_text InUse = ''agent vault is in use''"

definition failure :: "error \<Rightarrow> json" where
  "failure e = json_object [(''ok'', JBool False), (''error'', JString (error_text e))]"

definition ok_response :: "(string \<times> json) list \<Rightarrow> json" where
  "ok_response members = json_object ((''ok'', JBool True) # members)"

definition json_receipt :: "uuid_text \<Rightarrow> receipt \<Rightarrow> json" where
  "json_receipt ut r = json_object
     [(''record'', json_uuid ut (rc_record r)), (''revision'', json_u64 (rc_revision r)),
      (''grant'', json_option (json_uuid ut) (rc_grant r))]"

fun status_name :: "delivery_status \<Rightarrow> string" where
  "status_name DAccepted = ''Accepted''"
| "status_name DRejected = ''Rejected''"
| "status_name DHumanRequired = ''HumanRequired''"
| "status_name DUnknown = ''Unknown''"

definition json_delivery :: "uuid_text \<Rightarrow> delivery_receipt \<Rightarrow> json" where
  "json_delivery ut r = json_object
     [(''attempt'', json_uuid ut (dr_attempt r)), (''status'', JString (status_name (dr_status r)))]"

definition json_values :: "(field, string) btmap \<Rightarrow> json" where
  "json_values m = json_object (map (\<lambda>(f, s). (field_name f, JString s)) m)"

fun audit_action_name :: "audit_action \<Rightarrow> string" where
  "audit_action_name AuMutation = ''Mutation''"
| "audit_action_name AuMetadataRead = ''MetadataRead''"
| "audit_action_name AuSecretRead = ''SecretRead''"
| "audit_action_name AuSecretUse = ''SecretUse''"

definition json_event :: "uuid_text \<Rightarrow> audit_event \<Rightarrow> json" where
  "json_event ut e = json_object
     [(''task'', json_uuid ut (ae_task e)), (''record'', json_uuid ut (ae_record e)),
      (''request'', json_option (json_uuid ut) (ae_request e)), (''action'', JString (audit_action_name (ae_action e))),
      (''at'', json_int (ae_at e)), (''principal'', JString (ae_principal e))]"

definition receipt_response :: "uuid_text \<Rightarrow> receipt \<Rightarrow> json" where
  "receipt_response ut r = ok_response [(''receipt'', json_receipt ut r)]"

definition metadata_response :: "metadata_view \<Rightarrow> json" where
  "metadata_response mv = ok_response
     [(''revision'', json_u64 (mv_revision mv)), (''signup'', JString (signup_name (mv_signup mv))),
      (''fields'', json_values (mv_fields mv))]"

definition delivery_response :: "uuid_text \<Rightarrow> delivery_receipt \<Rightarrow> json" where
  "delivery_response ut r = ok_response [(''receipt'', json_delivery ut r)]"

text \<open>A handler gives its response on success.\<close>

definition respond :: "('r \<Rightarrow> json) \<Rightarrow> (error + 'r) \<times> 's \<Rightarrow> (error + json) \<times> 's" where
  "respond f outcome = (case outcome of (Inl e, s) \<Rightarrow> (Inl e, s) | (Inr r, s) \<Rightarrow> (Inr (f r), s))"

section \<open>Work\<close>

text \<open>
  What one request observes: the clock, and for a use the clock at the intent and at the handoff, the
  identifier and entropy drawn, how the publications went, and the child process of a delivery. A
  delivery whose listed passes are over has reached its deadline.
\<close>

record request_io =
  rq_now :: time
  rq_prepared :: time
  rq_handoff :: time
  rq_fresh :: uuid
  rq_entropy :: entropy
  rq_publish :: publish_io
  rq_finish :: publish_io
  rq_euid :: nat
  rq_stat :: "string list \<Rightarrow> file_metadata option"
  rq_child_ok :: bool
  rq_ticks :: "tick list"
  rq_random :: "u8 list option"
  rq_deadline_secs :: nat

record services =
  sv_env :: environment
  sv_text :: json_text
  sv_uuid :: uuid_text
  sv_decode :: decoders
  sv_destinations :: "destination list"

definition deliver_prepared :: "prepared_https \<Rightarrow> tick list \<Rightarrow> secret_input \<Rightarrow> error + delivery_status" where
  "deliver_prepared p ticks values = (case deliver p ticks values of None \<Rightarrow> Inr DUnknown | Some r \<Rightarrow> r)"

definition find_destination :: "destination list \<Rightarrow> string \<Rightarrow> destination option" where
  "find_destination ds name = List.find (\<lambda>d. ds_id d = name) ds"

definition work_use ::
    "services \<Rightarrow> vault \<Rightarrow> auth_context \<Rightarrow> uuid \<Rightarrow> private_use \<Rightarrow> request_io \<Rightarrow> (error + json) \<times> vault" where
  "work_use sv v ctx tid usage io =
     (case find_destination (sv_destinations sv) (pu_destination usage) of
        None \<Rightarrow> (Inl Denied, v)
      | Some d \<Rightarrow>
          if pu_fields usage \<noteq> destination_fields d then (Inl Denied, v)
          else case validate_consumer v ctx tid (ds_service d) (ds_origin d) (rq_now io) of
            Inl e \<Rightarrow> (Inl e, v)
          | Inr _ \<Rightarrow>
            (case prepare (rq_euid io) (rq_stat io) (rq_child_ok io) d of
               Inl e \<Rightarrow> (Inl e, v)
             | Inr prepared \<Rightarrow>
               (case use_secret (sv_env sv) v ctx tid usage (rq_prepared io) (rq_handoff io)
                       (deliver_prepared prepared (rq_ticks io)) (rq_fresh io) (rq_publish io) (rq_finish io) of
                  (result, v', _) \<Rightarrow> respond (delivery_response (sv_uuid sv)) (result, v'))))"

definition work ::
    "services \<Rightarrow> vault \<Rightarrow> auth_context \<Rightarrow> work_request \<Rightarrow> request_io \<Rightarrow> (error + json) \<times> vault" where
  "work sv v ctx request io =
     (case validate_agent request of
        Inl e \<Rightarrow> (Inl e, v)
      | Inr _ \<Rightarrow>
        (case request of
           WGenerate tid rid kind username policy \<Rightarrow>
             respond (receipt_response (sv_uuid sv))
               (vault_mutate (sv_env sv) v ctx tid rid (Generate kind username policy) (rq_now io) (rq_fresh io)
                  (rq_entropy io) (rq_publish io))
         | WMutate tid rid op \<Rightarrow>
             respond (receipt_response (sv_uuid sv))
               (vault_mutate (sv_env sv) v ctx tid rid op (rq_now io) (rq_fresh io) (rq_entropy io) (rq_publish io))
         | WMetadata tid rid fs \<Rightarrow>
             respond metadata_response (vault_metadata (sv_env sv) v ctx tid rid fs (rq_now io) (rq_publish io))
         | WUse tid usage \<Rightarrow> work_use sv v ctx tid usage io))"

section \<open>Administration\<close>

definition attach_runtime :: "json \<Rightarrow> sessions \<Rightarrow> time \<Rightarrow> nat \<Rightarrow> json" where
  "attach_runtime status s now deadline_secs =
     (case status of
        JObject m \<Rightarrow>
          (case census s now of (live_count, pending) \<Rightarrow>
             JObject (bt_insert ''deadline_secs'' (json_nat deadline_secs)
               (bt_insert ''sessions'' (json_object [(''live'', json_nat live_count), (''pending'', json_nat pending),
                   (''capacity'', json_nat session_capacity)])
                 (bt_insert ''ok'' (JBool True) m))))
      | _ \<Rightarrow> status)"

definition audit_page :: "uuid_text \<Rightarrow> audit_event list \<Rightarrow> nat \<Rightarrow> json" where
  "audit_page ut events offset =
     (let page = take 100 (drop offset events) in
      ok_response [(''events'', JArray (map (json_event ut) page)), (''total'', json_nat (length events)),
        (''has_more'', JBool (usize_add offset (length page) < length events))])"

text \<open>The answer, whether to stop, and the state after the request.\<close>

type_synonym admin_outcome = "(error + json \<times> bool) \<times> vault \<times> sessions"

definition on_vault :: "sessions \<Rightarrow> (error + json) \<times> vault \<Rightarrow> admin_outcome" where
  "on_vault s outcome =
     (case outcome of (Inl e, v) \<Rightarrow> (Inl e, v, s) | (Inr response, v) \<Rightarrow> (Inr (response, False), v, s))"

definition read_only :: "vault \<Rightarrow> sessions \<Rightarrow> error + json \<Rightarrow> admin_outcome" where
  "read_only v s result = (case result of Inl e \<Rightarrow> (Inl e, v, s) | Inr response \<Rightarrow> (Inr (response, False), v, s))"

definition secret_response :: "secret_input \<Rightarrow> json" where
  "secret_response values = ok_response [(''permission'', JString ''secret.read''), (''fields'', json_values values)]"

fun run_control :: "services \<Rightarrow> vault \<Rightarrow> auth_context \<Rightarrow> sessions \<Rightarrow> request_io \<Rightarrow> admin_control \<Rightarrow> admin_outcome" where
  "run_control sv v ctx s io (ImportSecret tid rid kind values) =
     on_vault s (respond (receipt_response (sv_uuid sv))
       (import_for_task (sv_env sv) v ctx tid rid kind values (rq_now io) (rq_fresh io) (rq_entropy io) (rq_publish io)))"
| "run_control sv v ctx s io (ReadSecret tid rid fs) =
     on_vault s (respond secret_response (read_for_task (sv_env sv) v ctx tid rid fs (rq_now io) (rq_publish io)))"
| "run_control sv v ctx s io Status =
     read_only v s (case operational_status v ctx of
       Inl e \<Rightarrow> Inl e
     | Inr status \<Rightarrow> Inr (attach_runtime status s (rq_now io) (rq_deadline_secs io)))"
| "run_control sv v ctx s io Shutdown = (Inr (ok_response [], True), v, s)"
| "run_control sv v ctx s io (Approve approval) =
     on_vault s (respond (\<lambda>_. ok_response []) (vault_approve_task (sv_env sv) v ctx approval (rq_now io) (rq_publish io)))"
| "run_control sv v ctx s io (RevokeTask tid) =
     on_vault s (respond (\<lambda>_. ok_response []) (vault_revoke_task (sv_env sv) v ctx tid (rq_now io) (rq_publish io)))"
| "run_control sv v ctx s io (IssueSession princ tasks expires_at) =
     (case issue (en_ext (sv_env sv)) (sv_uuid sv) s princ tasks expires_at (rq_now io)
             (\<lambda>ids who. vault_validate_session_tasks v ctx who ids (rq_now io)) (rq_random io) (rq_fresh io) of
        (Inl e, s') \<Rightarrow> (Inl e, v, s')
      | (Inr issued, s') \<Rightarrow> (Inr (issued, False), v, s'))"
| "run_control sv v ctx s io (RevokeSession sid) = (Inr (ok_response [], False), v, revoke_session sid s)"
| "run_control sv v ctx s io (ListTasks offset) = read_only v s (list_tasks (sv_text sv) (sv_uuid sv) v ctx offset)"
| "run_control sv v ctx s io (ListRecords offset) = read_only v s (list_records (sv_text sv) (sv_uuid sv) v ctx offset)"
| "run_control sv v ctx s io (ListGrants offset rid) =
     read_only v s (list_grants (sv_text sv) (sv_uuid sv) v ctx offset rid)"
| "run_control sv v ctx s io (ListSessions offset) =
     read_only v s (list_sessions (sv_text sv) (sv_uuid sv) s (ctx_owner ctx) (ctx_workspace ctx) offset)"
| "run_control sv v ctx s io (Audit offset) =
     read_only v s (case vault_audit_events v ctx of Inl e \<Rightarrow> Inl e | Inr events \<Rightarrow> Inr (audit_page (sv_uuid sv) events offset))"

definition admin :: "services \<Rightarrow> vault \<Rightarrow> auth_context \<Rightarrow> admin_request \<Rightarrow> sessions \<Rightarrow> request_io \<Rightarrow> admin_outcome" where
  "admin sv v ctx request s io =
     (case request of
        Work (WMutate tid rid (Share record expected grant)) \<Rightarrow>
          on_vault s (respond (receipt_response (sv_uuid sv))
            (vault_mutate (sv_env sv) v ctx tid rid (Share record expected grant) (rq_now io) (rq_fresh io)
               (rq_entropy io) (rq_publish io)))
      | Work r \<Rightarrow> on_vault s (work sv v ctx r io)
      | Control c \<Rightarrow> run_control sv v ctx s io c)"

end
