(* ===== verification/Mcp.thy ===== *)
theory Mcp
  imports Broker
begin

text \<open>
  The model-facing front end (\<^verbatim>\<open>src/src/agent_mcp.rs\<close>): the JSON-RPC state machine, the tools it
  publishes, and the lines it reads and writes. A tool call becomes one work request on the channel
  to the owner. The derived decoder of work requests is the one of \<open>decoders\<close>; what the sockets and
  the standard streams do is an argument.
\<close>

section \<open>Messages\<close>

datatype mcp_state = Initialize | Initialized | Ready

definition rpc_error :: "json \<Rightarrow> int \<Rightarrow> string \<Rightarrow> json" where
  "rpc_error mid code message = json_object
     [(''jsonrpc'', JString ''2.0''), (''id'', mid),
      (''error'', json_object [(''code'', json_int code), (''message'', JString message)])]"

definition rpc_result :: "json \<Rightarrow> json \<Rightarrow> json" where
  "rpc_result mid v = json_object [(''jsonrpc'', JString ''2.0''), (''id'', mid), (''result'', v)]"

type_synonym members = "(string, json) btmap"

text \<open>After validation the parameters are an object or absent.\<close>

definition empty_params :: "members option \<Rightarrow> bool" where
  "empty_params params = (case params of None \<Rightarrow> True | Some m \<Rightarrow> m = [])"

definition first_page :: "members option \<Rightarrow> bool" where
  "first_page params =
     (case params of
        None \<Rightarrow> True
      | Some m \<Rightarrow> list_all (\<lambda>key. key = ''cursor'') (bt_keys m)
          \<and> (case map_of m ''cursor'' of None \<Rightarrow> True | Some v \<Rightarrow> v = JNull))"

definition valid_id :: "json \<Rightarrow> bool" where
  "valid_id v =
     (case v of
        JString s \<Rightarrow> length s \<le> 256
      | JNumber (NInt n) \<Rightarrow> - (2 ^ 63) \<le> n \<and> n < 2 ^ 64
      | _ \<Rightarrow> False)"

definition valid_method :: "json option \<Rightarrow> bool" where
  "valid_method v = (case v of Some (JString s) \<Rightarrow> s \<noteq> [] \<and> length s \<le> 128 | _ \<Rightarrow> False)"

definition valid_message :: "members \<Rightarrow> bool" where
  "valid_message m \<longleftrightarrow>
     map_of m ''jsonrpc'' = Some (JString ''2.0'')
     \<and> (case map_of m ''id'' of None \<Rightarrow> True | Some v \<Rightarrow> valid_id v)
     \<and> valid_method (map_of m ''method'')
     \<and> list_all (\<lambda>key. key \<in> {''jsonrpc'', ''id'', ''method'', ''params''}) (bt_keys m)
     \<and> (case map_of m ''params'' of None \<Rightarrow> True | Some (JObject _) \<Rightarrow> True | Some _ \<Rightarrow> False)"

definition message_params :: "members \<Rightarrow> members option" where
  "message_params m = (case map_of m ''params'' of Some (JObject p) \<Rightarrow> Some p | _ \<Rightarrow> None)"

definition valid_meta :: "json \<Rightarrow> bool" where
  "valid_meta v =
     (case v of
        JObject m \<Rightarrow>
          (case map_of m ''progressToken'' of
             None \<Rightarrow> True | Some (JString _) \<Rightarrow> True | Some (JNumber _) \<Rightarrow> True | Some _ \<Rightarrow> False)
      | _ \<Rightarrow> False)"

text \<open>The transport metadata is checked and removed.\<close>

definition strip_meta :: "members option \<Rightarrow> members option option" where
  "strip_meta params =
     (case params of
        None \<Rightarrow> Some None
      | Some p \<Rightarrow>
          (case map_of p ''_meta'' of
             None \<Rightarrow> Some (Some p)
           | Some meta \<Rightarrow> if valid_meta meta then Some (Some (bt_remove ''_meta'' p)) else None))"

section \<open>Initialisation\<close>

record initialize =
  in_protocol_version :: string
  in_capabilities :: members
  in_client_name :: string
  in_client_version :: string

text \<open>The derived \<^verbatim>\<open>Deserialize\<close> of the client and of the parameters, from an object or a sequence.\<close>

definition parse_client :: "json \<Rightarrow> (string \<times> string) option" where
  "parse_client v =
     (case v of
        JObject m \<Rightarrow>
          (case (map_of m ''name'', map_of m ''version'') of
             (Some (JString name), Some (JString version)) \<Rightarrow> Some (name, version)
           | _ \<Rightarrow> None)
      | JArray [JString name, JString version] \<Rightarrow> Some (name, version)
      | _ \<Rightarrow> None)"

definition parse_initialize :: "members \<Rightarrow> initialize option" where
  "parse_initialize m =
     (if set (bt_keys m) \<subseteq> {''protocolVersion'', ''capabilities'', ''clientInfo''}
      then (case (map_of m ''protocolVersion'', map_of m ''capabilities'', map_of m ''clientInfo'') of
              (Some (JString version), Some (JObject caps), Some client) \<Rightarrow>
                map_option (\<lambda>(name, cversion). \<lparr>in_protocol_version = version, in_capabilities = caps,
                  in_client_name = name, in_client_version = cversion\<rparr>) (parse_client client)
            | _ \<Rightarrow> None)
      else None)"

definition acceptable :: "initialize \<Rightarrow> bool" where
  "acceptable p \<longleftrightarrow> in_protocol_version p \<noteq> [] \<and> length (in_protocol_version p) \<le> 128
     \<and> in_client_name p \<noteq> [] \<and> length (in_client_name p) \<le> 2048 \<and> length (in_client_version p) \<le> 2048"

definition instructions :: string where
  "instructions = ''Trusted supervisor session identity applies to this entire process. Generate credentials privately and share scoped record references. Secrets cannot be read through MCP. Private use is limited to human-configured HTTPS GET destinations, not registration or verified login.''"

definition initialize_result :: "initialize \<Rightarrow> json" where
  "initialize_result p = json_object
     [(''protocolVersion'', JString (if in_protocol_version p = ''2024-11-05'' then ''2024-11-05'' else ''2025-11-25'')),
      (''capabilities'', json_object [(''tools'', json_object [])]),
      (''serverInfo'', json_object [(''name'', JString ''credman''), (''version'', JString ''0.1.0'')]),
      (''instructions'', JString instructions)]"

section \<open>Tools\<close>

definition tool_op :: "string \<Rightarrow> string option" where
  "tool_op name =
     (if name = ''credman_generate'' then Some ''generate''
      else if name = ''credman_mutate'' then Some ''mutate''
      else if name = ''credman_metadata'' then Some ''metadata''
      else if name = ''credman_use'' then Some ''use'' else None)"

definition parse_call :: "members \<Rightarrow> (string \<times> members) option" where
  "parse_call m =
     (if set (bt_keys m) \<subseteq> {''name'', ''arguments''}
      then (case (map_of m ''name'', map_of m ''arguments'') of
              (Some (JString name), Some (JObject args)) \<Rightarrow> Some (name, args)
            | _ \<Rightarrow> None)
      else None)"

definition work_message :: "decoders \<Rightarrow> string \<times> members \<Rightarrow> json option" where
  "work_message de call =
     (case call of (name, args) \<Rightarrow>
        (case tool_op name of
           None \<Rightarrow> None
         | Some op \<Rightarrow>
             if bt_contains args ''op'' then None
             else let v = JObject (bt_insert ''op'' (JString op) args)
                  in if de_work de v = None then None else Some v))"

definition strings :: "string list \<Rightarrow> json" where "strings ss = JArray (map JString ss)"

definition object :: "json \<Rightarrow> string list \<Rightarrow> json" where
  "object properties required = json_object
     [(''type'', JString ''object''), (''properties'', properties), (''required'', strings required),
      (''additionalProperties'', JBool False)]"

definition typed :: "string \<Rightarrow> (string \<times> json) list \<Rightarrow> json" where
  "typed name rest = json_object ((''type'', JString name) # rest)"

definition schema_uuid :: json where "schema_uuid = typed ''string'' [(''format'', JString ''uuid'')]"

definition enum :: "string list \<Rightarrow> json" where "enum names = json_object [(''enum'', strings names)]"

definition schema_fields :: json where
  "schema_fields = typed ''array'' [(''items'', enum [''Label'', ''Username'', ''Password'', ''ApiKey'', ''Notes'']),
     (''uniqueItems'', JBool True), (''minItems'', json_nat 1), (''maxItems'', json_nat 5)]"

definition schema_metadata_fields :: json where
  "schema_metadata_fields = typed ''array'' [(''items'', enum [''Label'', ''Username'', ''Notes'']),
     (''uniqueItems'', JBool True), (''minItems'', json_nat 1), (''maxItems'', json_nat 3)]"

definition schema_values :: json where
  "schema_values =
     (let text = typed ''string'' [(''maxLength'', json_nat 8192)] in
      case object (json_object [(''Label'', text), (''Username'', text), (''Notes'', text)]) [] of
        JObject m \<Rightarrow> JObject (bt_insert ''minProperties'' (json_nat 1) m)
      | v \<Rightarrow> v)"

definition schema_grant :: json where
  "schema_grant = object (json_object
     [(''recipient'', typed ''string'' []), (''fields'', schema_fields),
      (''permissions'', typed ''array'' [(''items'', enum [''MetadataRead'', ''SecretUse'', ''SecretWrite'', ''AccessGrant'', ''EntryDelete'']),
         (''uniqueItems'', JBool True)]),
      (''destinations'', typed ''array'' [(''items'', typed ''string'' []), (''uniqueItems'', JBool True)]),
      (''expires_at'', typed ''integer'' []), (''follow_active'', typed ''boolean'' [])])
     [''recipient'', ''fields'', ''permissions'', ''destinations'', ''expires_at'', ''follow_active'']"

definition schema_expected :: json where
  "schema_expected = typed ''integer'' [(''minimum'', json_nat 0), (''maximum'', json_u64 u64_max)]"

definition mutation_variants :: "(string \<times> json) list" where
  "mutation_variants =
     [(''Patch'', object (json_object [(''record'', schema_uuid), (''expected'', schema_expected), (''values'', schema_values)])
         [''record'', ''expected'', ''values'']),
      (''Delete'', object (json_object [(''record'', schema_uuid), (''expected'', schema_expected)]) [''record'', ''expected'']),
      (''Share'', object (json_object [(''record'', schema_uuid), (''expected'', schema_expected), (''grant'', schema_grant)])
         [''record'', ''expected'', ''grant'']),
      (''Revoke'', object (json_object [(''record'', schema_uuid), (''expected'', schema_expected), (''grant'', schema_uuid)])
         [''record'', ''expected'', ''grant'']),
      (''ReportOutcome'', object (json_object [(''record'', schema_uuid), (''expected'', schema_expected),
         (''state'', enum [''Pending'', ''Submitted'', ''ReportedSuccess'', ''Rejected'', ''HumanRequired'', ''Unknown''])])
         [''record'', ''expected'', ''state''])]"

definition schema_mutate :: json where
  "schema_mutate = object (json_object [(''task'', schema_uuid), (''request'', schema_uuid),
     (''mutation'', json_object [(''oneOf'', JArray (map (\<lambda>(name, schema). object (json_object [(name, schema)]) [name])
        mutation_variants))])]) [''task'', ''request'', ''mutation'']"

definition schema_metadata :: json where
  "schema_metadata = object (json_object [(''task'', schema_uuid), (''record'', schema_uuid),
     (''fields'', schema_metadata_fields)]) [''task'', ''record'', ''fields'']"

definition schema_policy :: json where
  "schema_policy = object (json_object [(''length'', typed ''integer'' [(''minimum'', json_nat 16), (''maximum'', json_nat 128)]),
     (''symbols'', typed ''boolean'' []), (''require_classes'', typed ''boolean'' [])])
     [''length'', ''symbols'', ''require_classes'']"

definition kind_const :: "string \<Rightarrow> json" where
  "kind_const name = json_object [(''kind'', json_object [(''const'', JString name)])]"

definition schema_generate :: json where
  "schema_generate =
     (case object (json_object [(''task'', schema_uuid), (''request'', schema_uuid), (''kind'', enum [''Login'', ''ApiKey'']),
             (''username'', typed ''string'' [(''minLength'', json_nat 1), (''maxLength'', json_nat 2048)]),
             (''policy'', schema_policy)]) [''task'', ''request'', ''kind''] of
        JObject m \<Rightarrow> JObject (bt_insert ''oneOf'' (JArray
          [json_object [(''properties'', kind_const ''Login''), (''required'', strings [''username''])],
           json_object [(''properties'', kind_const ''ApiKey''), (''not'', json_object [(''required'', strings [''username''])])]]) m)
      | v \<Rightarrow> v)"

definition schema_use :: json where
  "schema_use = object (json_object [(''task'', schema_uuid), (''usage'', object (json_object
       [(''request'', schema_uuid), (''record'', schema_uuid), (''fields'', schema_fields),
        (''destination'', typed ''string'' []), (''action'', enum [''Use''])])
       [''request'', ''record'', ''fields'', ''destination'', ''action''])]) [''task'', ''usage'']"

definition tool :: "string \<Rightarrow> string \<Rightarrow> json \<Rightarrow> json" where
  "tool name description schema = json_object
     [(''name'', JString name), (''description'', JString description), (''inputSchema'', schema)]"

definition tools :: json where
  "tools = JArray
     [tool ''credman_generate'' ''Privately generate a Login password with the supplied username, or an ApiKey without username. Returns only an idempotent record receipt, never the generated secret.'' schema_generate,
      tool ''credman_mutate'' ''Apply approved metadata-only patches, bounded sharing/revocation, deletion, or outcome reports. Plaintext Create, secret patches and SecretRead grants are forbidden. Does not register accounts or contact services.'' schema_mutate,
      tool ''credman_metadata'' ''Read approved nonsecret record fields.'' schema_metadata,
      tool ''credman_use'' ''Privately authenticate a fixed HTTPS GET to a human-configured destination ID. Fields must exactly match that destination. Returns a delivery receipt only. HTTP acceptance is not verified login or account registration.'' schema_use]"

section \<open>Dispatch\<close>

record exchange =
  xc_writes :: "io_event list"
  xc_arrived :: "u8 list"
  xc_reads :: "io_event list"

text \<open>One request to the owner; a lost reply leaves the outcome unknown and is never retried.\<close>

definition owner_lost :: json where
  "owner_lost = json_object [(''ok'', JBool False), (''error'', JString ''owner transport unavailable''),
     (''outcome'', JString ''unknown'')]"

definition call_owner :: "json_text \<Rightarrow> exchange \<Rightarrow> channel \<Rightarrow> json \<Rightarrow> json \<times> channel" where
  "call_owner jt xc ch request =
     (if \<not> fits_frame jt request then (failure Invalid, ch)
      else case send jt request (xc_writes xc) ch of
        (Inl _, ch1) \<Rightarrow> (owner_lost, ch1)
      | (Inr _, ch1) \<Rightarrow>
          (case receive jt (xc_reads xc) (ch1\<lparr>ch_pending := ch_pending ch1 @ xc_arrived xc\<rparr>) of
             (Inl _, ch2) \<Rightarrow> (owner_lost, ch2)
           | (Inr v, ch2) \<Rightarrow> (v, ch2)))"

definition is_ok :: "json \<Rightarrow> bool" where
  "is_ok v = (case v of JObject m \<Rightarrow> map_of m ''ok'' = Some (JBool True) | _ \<Rightarrow> False)"

definition json_string :: "json_text \<Rightarrow> json \<Rightarrow> string" where
  "json_string jt v = map (\<lambda>b. char_of (unat b)) (concat (jt_chunks jt v))"

definition tool_result :: "json_text \<Rightarrow> json \<Rightarrow> json" where
  "tool_result jt response = json_object
     [(''content'', JArray [json_object [(''type'', JString ''text''), (''text'', JString (json_string jt response))]]),
      (''isError'', JBool (\<not> is_ok response)), (''structuredContent'', response)]"

text \<open>The request methods, once the message is valid and its metadata removed.\<close>

definition invalid_params :: "json \<Rightarrow> json" where
  "invalid_params mid = rpc_error mid (- 32602) ''Invalid params''"

definition run_method ::
    "services \<Rightarrow> exchange \<Rightarrow> string \<Rightarrow> json \<Rightarrow> members option \<Rightarrow> mcp_state \<Rightarrow> channel \<Rightarrow> json \<times> mcp_state \<times> channel" where
  "run_method sv xc name mid params st ch =
     (if name = ''ping'' \<and> empty_params params then (rpc_result mid (json_object []), st, ch)
      else if name = ''initialize'' \<and> st = Initialize
      then (case Option.bind params parse_initialize of
              Some p \<Rightarrow> if acceptable p then (rpc_result mid (initialize_result p), Initialized, ch)
                        else (invalid_params mid, st, ch)
            | None \<Rightarrow> (invalid_params mid, st, ch))
      else if name = ''tools/list'' \<and> st = Ready \<and> first_page params
      then (rpc_result mid (json_object [(''tools'', tools)]), st, ch)
      else if name = ''tools/call'' \<and> st = Ready
      then (case Option.bind (Option.bind params parse_call) (work_message (sv_decode sv)) of
              Some request \<Rightarrow>
                (case call_owner (sv_text sv) xc ch request of
                   (response, ch') \<Rightarrow> (rpc_result mid (tool_result (sv_text sv) response), st, ch'))
            | None \<Rightarrow> (invalid_params mid, st, ch))
      else if name \<in> {''initialize'', ''tools/list'', ''tools/call'', ''ping''} then (invalid_params mid, st, ch)
      else (rpc_error mid (- 32601) ''Method not found'', st, ch))"

definition notified :: "string \<Rightarrow> members option \<Rightarrow> mcp_state \<Rightarrow> mcp_state" where
  "notified name params st =
     (if name = ''notifications/initialized'' \<and> st = Initialized \<and> empty_params params then Ready else st)"

definition method_name :: "members \<Rightarrow> string" where
  "method_name m = (case map_of m ''method'' of Some (JString s) \<Rightarrow> s | _ \<Rightarrow> [])"

definition dispatch ::
    "services \<Rightarrow> exchange \<Rightarrow> json \<Rightarrow> mcp_state \<Rightarrow> channel \<Rightarrow> json option \<times> mcp_state \<times> channel" where
  "dispatch sv xc v st ch =
     (case v of
        JObject m \<Rightarrow>
          (case map_of m ''id'' of
             None \<Rightarrow>
               if \<not> valid_message m then (None, st, ch)
               else (case strip_meta (message_params m) of
                       None \<Rightarrow> (None, st, ch)
                     | Some params \<Rightarrow> (None, notified (method_name m) params st, ch))
           | Some mid \<Rightarrow>
               if \<not> valid_message m then (Some (rpc_error JNull (- 32600) ''Invalid Request''), st, ch)
               else (case strip_meta (message_params m) of
                       None \<Rightarrow> (Some (invalid_params mid), st, ch)
                     | Some params \<Rightarrow>
                         (case run_method sv xc (method_name m) mid params st ch of
                            (response, st', ch') \<Rightarrow> (Some response, st', ch'))))
      | _ \<Rightarrow> (Some (rpc_error JNull (- 32600) ''Invalid Request''), st, ch))"

section \<open>Lines\<close>

text \<open>
  \<^verbatim>\<open>line\<close>: the pieces are what the buffered reader offers in turn; an empty piece is the end of the
  input, and an exhausted list an expired deadline. The rest of a piece stays in the reader.
\<close>

datatype line_result = EndOfInput | Line "u8 list" | LineError

fun read_line :: "u8 list \<Rightarrow> u8 list list \<Rightarrow> line_result \<times> u8 list list" where
  "read_line bytes [] = (LineError, [])"
| "read_line bytes (piece # pieces) =
     (if piece = [] then (if bytes = [] then EndOfInput else LineError, pieces)
      else
        let before = takeWhile (\<lambda>b. b \<noteq> 10) piece;
            complete = length before < length piece;
            count = (if complete then length before + 1 else length piece) in
        if max_frame_bytes + 1 < length bytes + count then (LineError, piece # pieces)
        else if complete
        then (Line (bytes @ before), (if drop count piece = [] then pieces else drop count piece # pieces))
        else read_line (bytes @ piece) pieces)"

definition output_value :: "json_text \<Rightarrow> json \<Rightarrow> json" where
  "output_value jt response =
     (if fits_frame jt response then response
      else rpc_error (case response of JObject m \<Rightarrow> (case map_of m ''id'' of None \<Rightarrow> JNull | Some v \<Rightarrow> v) | _ \<Rightarrow> JNull)
             (- 32603) ''Response exceeds limit'')"

definition output_bytes :: "json_text \<Rightarrow> json \<Rightarrow> u8 list" where
  "output_bytes jt response = concat (jt_chunks jt (output_value jt response)) @ [10]"

text \<open>One line of input: what is written and the state after it.\<close>

definition answer_line ::
    "services \<Rightarrow> exchange \<Rightarrow> u8 list \<Rightarrow> mcp_state \<Rightarrow> channel \<Rightarrow> json option \<times> mcp_state \<times> channel" where
  "answer_line sv xc bytes st ch =
     (case strict_json (sv_text sv) bytes of
        Inl _ \<Rightarrow> (Some (rpc_error JNull (- 32700) ''Parse error''), st, ch)
      | Inr v \<Rightarrow> dispatch sv xc v st ch)"

end
