(* ===== verification/Startup.thy ===== *)
theory Startup
  imports Broker
begin

text \<open>
  The start of the owner process (\<^verbatim>\<open>run\<close> of \<^verbatim>\<open>src/src/agent_broker.rs\<close> up to its loop): hardening,
  taking over the descriptors, reading and checking the configuration, closing what is not named,
  binding the listener, making the channels, reading the seed phrase and opening the vault, in this
  order and over the state of the process, the vault directory and the directory of the listener.
  Instants are counted in seconds.
\<close>

section \<open>State\<close>

record peer =
  pe_channel :: channel
  pe_context :: auth_context
  pe_session :: "uuid option"
  pe_admin :: bool
  pe_active :: bool

record broker =
  bk_vault :: vault
  bk_sessions :: sessions
  bk_peers :: "peer list"
  bk_last_request :: nat

record host =
  ho_process :: process
  ho_directory :: directory
  ho_nodes :: nodes

record run_options =
  ro_seed_fd :: int
  ro_config_fd :: int
  ro_admin_fd :: int
  ro_create :: bool
  ro_bridge_socket :: "string option"

text \<open>
  What start-up observes beyond the tables: the outcome of calls, the decoder of the configuration,
  the file system, random bytes and the clocks.
\<close>

record startup_io =
  su_calls :: fd_calls
  su_decode :: "json \<Rightarrow> supervisor_config option"
  su_euid :: nat
  su_stat :: "string list \<Rightarrow> file_metadata option"
  su_bind :: bind_io
  su_unlink_failed :: bool
  su_lock :: lock_result
  su_gate_failed :: bool
  su_salt :: "u8 list"
  su_publish :: publish_io
  su_instant :: nat
  su_now :: time

text \<open>The listener and the configuration stay in use while the owner serves.\<close>

record running =
  rn_broker :: broker
  rn_deadline :: nat
  rn_idle :: "nat option"
  rn_config :: supervisor_config
  rn_listener :: "listener option"

section \<open>Steps over the host\<close>

text \<open>Early return: the next step runs only after a success.\<close>

definition and_then ::
    "(error + 'a) \<times> 's \<Rightarrow> ('a \<Rightarrow> 's \<Rightarrow> (error + 'b) \<times> 's) \<Rightarrow> (error + 'b) \<times> 's" where
  "and_then m f = (case m of (Inl e, s) \<Rightarrow> (Inl e, s) | (Inr a, s) \<Rightarrow> f a s)"

definition on_process :: "(process \<Rightarrow> (error + 'a) \<times> process) \<Rightarrow> host \<Rightarrow> (error + 'a) \<times> host" where
  "on_process f h = (case f (ho_process h) of (r, p) \<Rightarrow> (r, h\<lparr>ho_process := p\<rparr>))"

definition set_fds :: "descriptors \<Rightarrow> host \<Rightarrow> host" where
  "set_fds fds h = h\<lparr>ho_process := (ho_process h)\<lparr>pr_fds := fds\<rparr>\<rparr>"

abbreviation host_fds :: "host \<Rightarrow> descriptors" where "host_fds h \<equiv> pr_fds (ho_process h)"

definition on_fds :: "(descriptors \<Rightarrow> (error + 'a) \<times> descriptors) \<Rightarrow> host \<Rightarrow> (error + 'a) \<times> host" where
  "on_fds f h = (case f (host_fds h) of (r, fds) \<Rightarrow> (r, set_fds fds h))"

section \<open>Configuration\<close>

definition is_identifier :: "string \<Rightarrow> bool" where
  "is_identifier s \<longleftrightarrow> s \<noteq> [] \<and> length s \<le> 2048"

definition parse_config :: "json_text \<Rightarrow> startup_io \<Rightarrow> u8 list \<Rightarrow> error + supervisor_config" where
  "parse_config jt io bytes =
     (case strict_json jt bytes of
        Inl _ \<Rightarrow> Inl Invalid
      | Inr v \<Rightarrow> (case su_decode io v of None \<Rightarrow> Inl Invalid | Some c \<Rightarrow> Inr c))"

fun check_destinations ::
    "nat \<Rightarrow> (string list \<Rightarrow> file_metadata option) \<Rightarrow> string list \<Rightarrow> destination list \<Rightarrow> error + unit" where
  "check_destinations euid stat names [] = Inr ()"
| "check_destinations euid stat names (d # ds) =
     (case validate_destination euid stat d of
        Inl e \<Rightarrow> Inl e
      | Inr _ \<Rightarrow> if ds_id d \<in> set names then Inl Invalid else check_destinations euid stat (ds_id d # names) ds)"

fun check_peers ::
    "fd_calls \<Rightarrow> string list \<Rightarrow> int list \<Rightarrow> peer_config list \<Rightarrow> descriptors \<Rightarrow> (error + int list) \<times> descriptors" where
  "check_peers k principals keep [] fds = (Inr keep, fds)"
| "check_peers k principals keep (p # ps) fds =
     (case open_fd k (pc_fd p) fds of
        (Inl e, fds) \<Rightarrow> (Inl e, fds)
      | (Inr _, fds) \<Rightarrow>
          if \<not> is_identifier (pc_principal p) \<or> pc_principal p \<in> set principals \<or> pc_fd p \<in> set keep
          then (Inl Invalid, fds)
          else check_peers k (pc_principal p # principals) (pc_fd p # keep) ps fds)"

definition check_config :: "run_options \<Rightarrow> startup_io \<Rightarrow> supervisor_config \<Rightarrow> error + nat \<times> nat option" where
  "check_config opts io c =
     (if \<not> is_identifier (sc_owner c) \<or> \<not> is_identifier (sc_workspace c) \<or> \<not> is_identifier (sc_admin_principal c)
         \<or> (sc_peers c = [] \<and> ro_bridge_socket opts = None) \<or> 16 < length (sc_peers c)
      then Inl Invalid
      else case lifetimes c of
        Inl e \<Rightarrow> Inl e
      | Inr l \<Rightarrow>
          if 16 < length (sc_destinations c) then Inl Invalid
          else case check_destinations (su_euid io) (su_stat io) [] (sc_destinations c) of
            Inl e \<Rightarrow> Inl e
          | Inr _ \<Rightarrow> Inr l)"

text \<open>Everything up to the point where only the named descriptors are left.\<close>

definition take_over ::
    "json_text \<Rightarrow> run_options \<Rightarrow> startup_io \<Rightarrow> host \<Rightarrow> (error + supervisor_config \<times> nat \<times> nat option) \<times> host" where
  "take_over jt opts io h =
     and_then (on_process (harden (su_calls io)) h) (\<lambda>_ h.
     and_then (on_fds (open_distinct (su_calls io) [] [ro_seed_fd opts, ro_config_fd opts, ro_admin_fd opts]) h) (\<lambda>keep h.
     and_then (on_fds (read_fd (su_calls io) (ro_config_fd opts) 65536) h) (\<lambda>bytes h.
     and_then (parse_config jt io bytes, h) (\<lambda>c h.
     and_then (check_config opts io c, h) (\<lambda>(lifetime, idle) h.
     and_then (on_fds (check_peers (su_calls io) [sc_admin_principal c] keep (sc_peers c)) h) (\<lambda>keep h.
     and_then (distinct_sockets (host_fds h) [] (ro_admin_fd opts # map pc_fd (sc_peers c)), h) (\<lambda>_ h.
     and_then (on_fds (close_unlisted (su_calls io) keep) h) (\<lambda>_ h.
       (Inr (c, lifetime, idle), h)))))))))"

section \<open>Listener, channels and vault\<close>

definition start_listener :: "run_options \<Rightarrow> startup_io \<Rightarrow> host \<Rightarrow> (error + listener option) \<times> host" where
  "start_listener opts io h =
     (case ro_bridge_socket opts of
        None \<Rightarrow> (Inr None, h)
      | Some path \<Rightarrow>
          (case bind (su_calls io) (su_euid io) (su_bind io) path (ho_nodes h, host_fds h) of
             (r, nodes, fds) \<Rightarrow>
               (case r of Inl e \<Rightarrow> Inl e | Inr l \<Rightarrow> Inr (Some l), set_fds fds (h\<lparr>ho_nodes := nodes\<rparr>))))"

definition stop_listener :: "bool \<Rightarrow> listener option \<Rightarrow> host \<Rightarrow> host" where
  "stop_listener failed listener h =
     (case listener of
        None \<Rightarrow> h
      | Some l \<Rightarrow>
          (case drop_listener failed l (ho_nodes h, host_fds h) of
             (nodes, fds) \<Rightarrow> set_fds fds (h\<lparr>ho_nodes := nodes\<rparr>)))"

definition new_peer :: "channel \<Rightarrow> auth_context \<Rightarrow> bool \<Rightarrow> peer" where
  "new_peer ch ctx is_admin = \<lparr>pe_channel = ch, pe_context = ctx, pe_session = None, pe_admin = is_admin, pe_active = True\<rparr>"

text \<open>Who speaks on which descriptor: the administrator first, then the peers in order.\<close>

definition peer_bindings :: "run_options \<Rightarrow> supervisor_config \<Rightarrow> (int \<times> auth_context \<times> bool) list" where
  "peer_bindings opts c =
     (ro_admin_fd opts, from_authenticated_admin (sc_owner c) (sc_admin_principal c) (sc_workspace c), True)
     # map (\<lambda>p. (pc_fd p, from_authenticated_peer (sc_owner c) (pc_principal p) (sc_workspace c), False)) (sc_peers c)"

fun make_peers ::
    "fd_calls \<Rightarrow> (int \<times> auth_context \<times> bool) list \<Rightarrow> descriptors \<Rightarrow> (error + peer list) \<times> descriptors" where
  "make_peers k [] fds = (Inr [], fds)"
| "make_peers k ((fd, ctx, is_admin) # rest) fds =
     (case peer_channel k fd fds of
        (Inl e, fds) \<Rightarrow> (Inl e, fds)
      | (Inr ch, fds) \<Rightarrow>
          (case make_peers k rest fds of
             (Inl e, fds) \<Rightarrow> (Inl e, close_fd fd fds)
           | (Inr ps, fds) \<Rightarrow> (Inr (new_peer ch ctx is_admin # ps), fds)))"

definition open_owner :: "environment \<Rightarrow> run_options \<Rightarrow> startup_io \<Rightarrow> string \<Rightarrow> host \<Rightarrow> (error + vault) \<times> host" where
  "open_owner env opts io seed h =
     (if ro_create opts
      then case create env (ho_directory h) (su_lock io) (su_gate_failed io) seed (su_salt io) (su_publish io) of
             (r, dir) \<Rightarrow> (r, h\<lparr>ho_directory := dir\<rparr>)
      else (open_vault env (ho_directory h) (su_lock io) (su_gate_failed io) seed, h))"

definition running_state ::
    "run_options \<Rightarrow> startup_io \<Rightarrow> supervisor_config \<Rightarrow> nat \<Rightarrow> nat option \<Rightarrow> listener option \<Rightarrow> peer list \<Rightarrow> vault
       \<Rightarrow> error + running" where
  "running_state opts io c lifetime idle listener ps v =
     (if time_max < su_now io + int lifetime then Inl Invalid
      else Inr \<lparr>rn_broker = \<lparr>bk_vault = v,
             bk_sessions = new_sessions (sc_owner c) (sc_workspace c) (sc_admin_principal c)
               (ro_bridge_socket opts) (su_now io + int lifetime),
             bk_peers = ps, bk_last_request = su_instant io\<rparr>,
           rn_deadline = su_instant io + lifetime, rn_idle = idle, rn_config = c, rn_listener = listener\<rparr>)"

definition start_serving ::
    "environment \<Rightarrow> run_options \<Rightarrow> startup_io \<Rightarrow> supervisor_config \<Rightarrow> nat \<Rightarrow> nat option \<Rightarrow> listener option \<Rightarrow> host
       \<Rightarrow> (error + running) \<times> host" where
  "start_serving env opts io c lifetime idle listener h =
     and_then (on_fds (make_peers (su_calls io) (peer_bindings opts c)) h) (\<lambda>ps h.
     and_then (on_fds (read_text (su_calls io) (ro_seed_fd opts)) h) (\<lambda>seed h.
     and_then (open_owner env opts io seed h) (\<lambda>v h.
       (running_state opts io c lifetime idle listener ps v, h))))"

text \<open>A start that fails after the listener is bound drops it.\<close>

definition startup ::
    "environment \<Rightarrow> json_text \<Rightarrow> run_options \<Rightarrow> startup_io \<Rightarrow> host \<Rightarrow> (error + running) \<times> host" where
  "startup env jt opts io h =
     and_then (take_over jt opts io h) (\<lambda>(c, lifetime, idle) h.
     and_then (start_listener opts io h) (\<lambda>listener h.
       case start_serving env opts io c lifetime idle listener h of
         (Inl e, h) \<Rightarrow> (Inl e, stop_listener (su_unlink_failed io) listener h)
       | (Inr rn, h) \<Rightarrow> (Inr rn, h)))"

end
