(* ===== verification/Serve.thy ===== *)
theory Serve
  imports Startup
begin

text \<open>
  The serving loop of the owner process (\<^verbatim>\<open>run\<close> of \<^verbatim>\<open>src/src/agent_broker.rs\<close>). A round of the loop
  observes instants, clock readings, what arrived on each socket and how each call went; these
  observations are arguments, one \<open>turn\<close> per peer and one \<open>round\<close> per pass.
\<close>

section \<open>The end of serving\<close>

definition serving :: "nat \<Rightarrow> nat \<Rightarrow> nat \<Rightarrow> nat option \<Rightarrow> bool" where
  "serving now deadline last_request idle \<longleftrightarrow>
     now < deadline \<and> (case idle of None \<Rightarrow> True | Some secs \<Rightarrow> now - last_request < secs)"

section \<open>One peer's turn\<close>

record turn =
  tu_expired_before :: bool
  tu_ready :: bool
  tu_live_now :: time
  tu_arrived :: "u8 list"
  tu_reads :: "io_event list"
  tu_received_at :: nat
  tu_expired_after :: bool
  tu_permit_now :: time
  tu_io :: request_io
  tu_writes :: "io_event list"

datatype flow = Go | Return "error + unit"

text \<open>The request of one peer: what it is allowed to ask, and the answer.\<close>

definition peer_request ::
    "services \<Rightarrow> vault \<Rightarrow> sessions \<Rightarrow> peer \<Rightarrow> json \<Rightarrow> turn \<Rightarrow> admin_outcome" where
  "peer_request sv v s p received t =
     (if pe_admin p
      then (case parse_admin (sv_decode sv) received of
              Inl e \<Rightarrow> (Inl e, v, s)
            | Inr r \<Rightarrow> admin sv v (pe_context p) r s (tu_io t))
      else case de_work (sv_decode sv) received of
             None \<Rightarrow> (Inl Invalid, v, s)
           | Some r \<Rightarrow>
               if (case pe_session p of None \<Rightarrow> False | Some sid \<Rightarrow> \<not> permits s sid (work_task r) (tu_permit_now t))
               then (Inl Denied, v, s)
               else on_vault s (work sv v (pe_context p) r (tu_io t)))"

text \<open>What is sent back: a response that does not fit one frame is replaced.\<close>

definition bounded_response :: "json_text \<Rightarrow> json \<Rightarrow> json" where
  "bounded_response jt response = (if fits_frame jt response then response else failure Capacity)"

definition serve_peer :: "services \<Rightarrow> broker \<Rightarrow> peer \<Rightarrow> turn \<Rightarrow> peer \<times> broker \<times> flow" where
  "serve_peer sv b p t =
     (if tu_expired_before t then (p, b, Return (Inr ()))
      else if \<not> pe_active p \<or> \<not> tu_ready t then (p, b, Go)
      else if (case pe_session p of None \<Rightarrow> False | Some sid \<Rightarrow> \<not> live (bk_sessions b) sid (tu_live_now t))
      then (p\<lparr>pe_active := False\<rparr>, b, Go)
      else case receive (sv_text sv) (tu_reads t)
                  ((pe_channel p)\<lparr>ch_pending := ch_pending (pe_channel p) @ tu_arrived t\<rparr>) of
        (Inl _, ch) \<Rightarrow>
          (p\<lparr>pe_channel := ch, pe_active := False\<rparr>, b, if pe_admin p then Return (Inl InteractionRequired) else Go)
      | (Inr received, ch) \<Rightarrow>
          let p = p\<lparr>pe_channel := ch\<rparr>; b = b\<lparr>bk_last_request := tu_received_at t\<rparr> in
          if tu_expired_after t then (p, b, Return (Inr ()))
          else case peer_request sv (bk_vault b) (bk_sessions b) p received t of
            (result, v', s') \<Rightarrow>
              let b = b\<lparr>bk_vault := v', bk_sessions := s'\<rparr>;
                  (response, stop) = (case result of Inl e \<Rightarrow> (failure e, False) | Inr answer \<Rightarrow> answer)
              in case send (sv_text sv) (bounded_response (sv_text sv) response) (tu_writes t) ch of
                   (Inl _, ch') \<Rightarrow>
                     (p\<lparr>pe_channel := ch', pe_active := False\<rparr>, b,
                      if pe_admin p \<and> \<not> stop then Return (Inl InteractionRequired)
                      else if stop then Return (Inr ()) else Go)
                 | (Inr _, ch') \<Rightarrow> (p\<lparr>pe_channel := ch'\<rparr>, b, if stop then Return (Inr ()) else Go))"

text \<open>The peers in turn; a return leaves the rest unserved.\<close>

fun serve_peers :: "services \<Rightarrow> broker \<Rightarrow> peer list \<Rightarrow> turn list \<Rightarrow> peer list \<times> broker \<times> flow" where
  "serve_peers sv b (p # ps) (t # ts) =
     (case serve_peer sv b p t of
        (p', b', Go) \<Rightarrow> (case serve_peers sv b' ps ts of (ps', b'', flow) \<Rightarrow> (p' # ps', b'', flow))
      | (p', b', Return r) \<Rightarrow> (p' # ps, b', Return r))"
| "serve_peers sv b ps _ = (ps, b, Go)"

section \<open>One round\<close>

datatype poll_result = PollInterrupted | PollFailed | Polled

record round =
  rd_instant :: nat
  rd_now :: "nat \<Rightarrow> time"
  rd_poll :: poll_result
  rd_turns :: "turn list"
  rd_admission_ready :: bool
  rd_expired :: bool
  rd_accepted :: "admission_io option"
  rd_accept_open :: bool
  rd_accept_now :: time
  rd_admitted_at :: nat

text \<open>
  Peers whose session ended are dropped, and a dropped peer's session is revoked; the clock is read
  once per peer.
\<close>

definition refresh :: "time \<Rightarrow> sessions \<Rightarrow> peer \<Rightarrow> peer" where
  "refresh now s p =
     (if (case pe_session p of None \<Rightarrow> False | Some sid \<Rightarrow> \<not> live s sid now) then p\<lparr>pe_active := False\<rparr> else p)"

fun drop_inactive :: "sessions \<Rightarrow> peer list \<Rightarrow> sessions \<times> peer list" where
  "drop_inactive s [] = (s, [])"
| "drop_inactive s (p # ps) =
     (if pe_active p then (case drop_inactive s ps of (s', ps') \<Rightarrow> (s', p # ps'))
      else drop_inactive (case pe_session p of None \<Rightarrow> s | Some sid \<Rightarrow> revoke_session sid s) ps)"

definition prune :: "(nat \<Rightarrow> time) \<Rightarrow> broker \<Rightarrow> broker" where
  "prune now b =
     (case drop_inactive (bk_sessions b) 
            (map (\<lambda>(i, p). refresh (now i) (bk_sessions b) p) (enumerate 0 (bk_peers b))) of
        (s, ps) \<Rightarrow> b\<lparr>bk_sessions := s, bk_peers := ps\<rparr>)"

definition session_peer :: "uuid \<Rightarrow> auth_context \<Rightarrow> channel \<Rightarrow> peer" where
  "session_peer sid ctx ch = \<lparr>pe_channel = ch, pe_context = ctx, pe_session = Some sid, pe_admin = False, pe_active = True\<rparr>"

definition admission :: "services \<Rightarrow> round \<Rightarrow> broker \<Rightarrow> broker \<times> flow" where
  "admission sv rd b =
     (if \<not> rd_admission_ready rd then (b, Go)
      else if rd_expired rd then (b, Return (Inr ()))
      else case rd_accepted rd of
        None \<Rightarrow> (b, Go)
      | Some io \<Rightarrow>
          if \<not> rd_accept_open rd then (b, Return (Inl Invalid))
          else case admit (en_ext (sv_env sv)) (sv_text sv) (bk_sessions b) io (rd_accept_now rd) of
            (Inl _, s) \<Rightarrow> (b\<lparr>bk_sessions := s\<rparr>, Go)
          | (Inr (sid, ctx, ch), s) \<Rightarrow>
              (b\<lparr>bk_sessions := s, bk_last_request := rd_admitted_at rd,
                 bk_peers := bk_peers b @ [session_peer sid ctx ch]\<rparr>, Go))"

definition serve_round :: "services \<Rightarrow> nat \<Rightarrow> nat option \<Rightarrow> broker \<Rightarrow> round \<Rightarrow> broker \<times> flow" where
  "serve_round sv deadline idle b0 rd =
     (if \<not> serving (rd_instant rd) deadline (bk_last_request b0) idle then (b0, Return (Inr ()))
      else
        let b = prune (rd_now rd) b0 in
        case rd_poll rd of
          PollInterrupted \<Rightarrow> (b, Go)
        | PollFailed \<Rightarrow> (b, Return (Inl InteractionRequired))
        | Polled \<Rightarrow>
            (case serve_peers sv b (bk_peers b) (rd_turns rd) of
               (ps, b', Return r) \<Rightarrow> (b'\<lparr>bk_peers := ps\<rparr>, Return r)
             | (ps, b', Go) \<Rightarrow> admission sv rd (b'\<lparr>bk_peers := ps\<rparr>)))"

text \<open>The loop over the rounds observed so far: no result while it is still serving.\<close>

fun serve :: "services \<Rightarrow> nat \<Rightarrow> nat option \<Rightarrow> broker \<Rightarrow> round list \<Rightarrow> broker \<times> (error + unit) option" where
  "serve sv deadline idle b [] = (b, None)"
| "serve sv deadline idle b (rd # rds) =
     (case serve_round sv deadline idle b rd of
        (b', Return r) \<Rightarrow> (b', Some r)
      | (b', Go) \<Rightarrow> serve sv deadline idle b' rds)"

section \<open>The whole run\<close>

text \<open>
  Start-up, then the rounds, with the destinations of the configuration. When the loop returns, the
  listener is dropped; the directory of the vault is the one its store has left.
\<close>

definition serve_owner ::
    "services \<Rightarrow> run_options \<Rightarrow> startup_io \<Rightarrow> round list \<Rightarrow> bool \<Rightarrow> host \<Rightarrow> (error + unit) option \<times> host" where
  "serve_owner sv opts io rds unlink_failed h0 =
     (case startup (sv_env sv) (sv_text sv) opts io h0 of
        (Inl e, h) \<Rightarrow> (Some (Inl e), h)
      | (Inr rn, h) \<Rightarrow>
          (case serve (sv\<lparr>sv_destinations := sc_destinations (rn_config rn)\<rparr>) (rn_deadline rn) (rn_idle rn)
                  (rn_broker rn) rds of
             (b, r) \<Rightarrow>
               let h = h\<lparr>ho_directory := dv_dir (bk_vault b)\<rparr> in
               (r, if r = None then h else stop_listener unlink_failed (rn_listener rn) h)))"

end
