(* ===== verification/Startup_Facts.thy ===== *)
theory Startup_Facts
  imports Startup
begin

text \<open>
  What each step of start-up establishes and changes: the facts that the properties of start-up and
  of serving rest on.
\<close>

section \<open>Steps over the host\<close>

lemma and_then_Inr: "and_then m f = (Inr b, s') \<longleftrightarrow> (\<exists>a s. m = (Inr a, s) \<and> f a s = (Inr b, s'))"
  by (auto simp: and_then_def split: prod.splits sum.splits)

lemma and_then_Inl:
  assumes "and_then m f = (Inl e, s')"
  obtains "m = (Inl e, s')" | a s where "m = (Inr a, s)" "f a s = (Inl e, s')"
  using assms by (auto simp: and_then_def split: prod.splits sum.splits)

lemma on_error_Inr:
  "(case m of (Inl e, s) \<Rightarrow> (Inl e, f s) | (Inr a, s) \<Rightarrow> (Inr a, s)) = (Inr b, s') \<longleftrightarrow> m = (Inr b, s')"
  by (auto split: prod.splits sum.splits)

lemma on_fds_Inr: "on_fds f h = (Inr a, h') \<longleftrightarrow> (\<exists>fds. f (host_fds h) = (Inr a, fds) \<and> h' = set_fds fds h)"
  by (auto simp: on_fds_def split: prod.splits)

lemma set_fds_simps [simp]:
  "host_fds (set_fds fds h) = fds" "ho_directory (set_fds fds h) = ho_directory h"
  "ho_nodes (set_fds fds h) = ho_nodes h" "pr_no_new_privs (ho_process (set_fds fds h)) = pr_no_new_privs (ho_process h)"
  "pr_dumpable (ho_process (set_fds fds h)) = pr_dumpable (ho_process h)"
  by (simp_all add: set_fds_def)

lemma frame_on_fds: "ho_nodes (snd (on_fds f h)) = ho_nodes h" "ho_directory (snd (on_fds f h)) = ho_directory h"
  by (simp_all add: on_fds_def split: prod.splits)

lemma frame_on_process:
  "ho_nodes (snd (on_process f h)) = ho_nodes h" "ho_directory (snd (on_process f h)) = ho_directory h"
  by (simp_all add: on_process_def split: prod.splits)

text \<open>A part of the host that a step leaves alone, whether it succeeds or not.\<close>

definition frames :: "(host \<Rightarrow> 'p) \<Rightarrow> 'p \<Rightarrow> 'a \<times> host \<Rightarrow> bool" where
  "frames part n m \<longleftrightarrow> part (snd m) = n"

lemma frames_and_then:
  assumes "frames part n m" and "\<And>a s. part s = n \<Longrightarrow> frames part n (f a s)"
  shows "frames part n (and_then m f)"
  using assms by (auto simp: frames_def and_then_def split: prod.split sum.split)

lemma frames_steps:
  "ho_nodes h = n \<Longrightarrow> frames ho_nodes n (on_fds f h)" "ho_directory h = d \<Longrightarrow> frames ho_directory d (on_fds f h)"
  "ho_nodes h = n \<Longrightarrow> frames ho_nodes n (on_process g h)" "ho_directory h = d \<Longrightarrow> frames ho_directory d (on_process g h)"
  "part h = x \<Longrightarrow> frames part x (r, h)"
  by (simp_all add: frames_def frame_on_fds frame_on_process)

lemma harden_Inr: "harden k p = (Inr u, p') \<Longrightarrow> p' = p\<lparr>pr_no_new_privs := True, pr_dumpable := False\<rparr>"
  by (auto simp: harden_def Let_def split: if_splits)

lemma read_fd_Inr: "read_fd k fd n fds = (Inr bytes, fds') \<Longrightarrow> 3 \<le> fd \<and> fds' = close_fd fd (mark_fd fd fds)"
  by (auto simp: read_fd_def split: prod.splits sum.splits option.splits if_splits dest: open_fd_Inr)

lemma read_fd_bytes: "read_fd k fd n fds = (Inr bytes, fds') \<Longrightarrow> fd_bytes (fds fd) = Some bytes"
  by (auto simp: read_fd_def mark_fd_def split: prod.splits sum.splits option.splits if_splits dest!: open_fd_Inr)

lemma read_text_Inr:
  assumes "read_text k fd fds = (Inr s, fds')"
  shows "3 \<le> fd \<and> fds' = close_fd fd (mark_fd fd fds) \<and> s = fd_text (fds fd)"
  using assms read_fd_bytes [of k fd 4096 fds]
  by (auto simp: read_text_def fd_text_def split: prod.splits sum.splits if_splits dest: read_fd_Inr)

lemma fold_mark_fields: "fd_identity (fold mark_fd rest fds x) = fd_identity (fds x)"
    "fd_socket (fold mark_fd rest fds x) = fd_socket (fds x)" "fd_bytes (fold mark_fd rest fds x) = fd_bytes (fds x)"
  by (induction rest arbitrary: fds) (auto simp: mark_fd_def)

section \<open>Configuration\<close>

lemma lifetimes_Inr: "lifetimes c = Inr (lifetime, idle) \<Longrightarrow> 60 \<le> lifetime \<and> lifetime \<le> 86400
    \<and> (\<forall>secs. idle = Some secs \<longrightarrow> 60 \<le> secs \<and> secs \<le> lifetime)"
  by (auto simp: lifetimes_def bounded_lifetime_def min_lifetime_secs_def max_lifetime_secs_def
      split: sum.splits option.splits if_splits)

lemma check_destinations_Inr:
  "check_destinations euid stat names ds = Inr () \<Longrightarrow> distinct (map ds_id ds) \<and> set (map ds_id ds) \<inter> set names = {}
     \<and> (\<forall>d \<in> set ds. validate_destination euid stat d = Inr ())"
proof (induction ds arbitrary: names)
  case (Cons d ds)
  then show ?case using Cons.IH [of "ds_id d # names"] by (auto split: sum.splits if_splits)
qed simp

lemma check_config_Inr:
  assumes "check_config opts io c = Inr l"
  shows "check_destinations (su_euid io) (su_stat io) [] (sc_destinations c) = Inr ()
    \<and> lifetimes c = Inr l \<and> length (sc_destinations c) \<le> 16 \<and> length (sc_peers c) \<le> 16"
  using assms by (auto simp: check_config_def split: if_splits sum.splits prod.splits)

text \<open>The peers' principals and descriptors are new, and the descriptors are taken over.\<close>

lemma check_peers_Inr:
  assumes "check_peers k principals keep ps fds = (Inr kept, fds')"
  shows "kept = rev (map pc_fd ps) @ keep \<and> distinct (map pc_fd ps) \<and> pc_fd ` set ps \<inter> set keep = {}
     \<and> distinct (map pc_principal ps) \<and> pc_principal ` set ps \<inter> set principals = {}
     \<and> list_all (\<lambda>p. 3 \<le> pc_fd p) ps \<and> fds' = fold mark_fd (map pc_fd ps) fds"
  using assms
proof (induction k principals keep ps fds rule: check_peers.induct)
  case (2 k principals keep p ps fds)
  obtain u where o: "open_fd k (pc_fd p) fds = (Inr u, mark_fd (pc_fd p) fds)"
    and new: "\<not> (\<not> is_identifier (pc_principal p) \<or> pc_principal p \<in> set principals \<or> pc_fd p \<in> set keep)"
    and rest: "check_peers k (pc_principal p # principals) (pc_fd p # keep) ps (mark_fd (pc_fd p) fds) = (Inr kept, fds')"
    using 2(2) by (auto split: prod.splits sum.splits if_splits dest: open_fd_Inr(3))
  show ?case
    using 2(1) [OF o [symmetric] refl new rest] open_fd_Inr(1) [OF o] new by auto
qed simp

lemma distinct_sockets_Inr:
  "distinct_sockets fds ids rest = Inr () \<Longrightarrow> distinct (map (\<lambda>fd. fd_identity (fds fd)) rest)
     \<and> (\<lambda>fd. fd_identity (fds fd)) ` set rest \<inter> set ids = {}"
  by (induction fds ids rest rule: distinct_sockets.induct) (auto split: if_splits)

section \<open>Taking over\<close>

definition named_fds :: "run_options \<Rightarrow> supervisor_config \<Rightarrow> int list" where
  "named_fds opts c = [ro_seed_fd opts, ro_config_fd opts, ro_admin_fd opts] @ map pc_fd (sc_peers c)"

text \<open>The descriptors of the owner's channels.\<close>

definition channel_fds :: "run_options \<Rightarrow> supervisor_config \<Rightarrow> int list" where
  "channel_fds opts c = ro_admin_fd opts # map pc_fd (sc_peers c)"

lemma take_over_Inr:
  assumes "take_over jt opts io h = (Inr (c, lifetime, idle), h')"
  obtains fds3 u where "ho_directory h' = ho_directory h" "ho_nodes h' = ho_nodes h"
    "pr_no_new_privs (ho_process h')" "\<not> pr_dumpable (ho_process h')"
    "check_config opts io c = Inr (lifetime, idle)" "distinct (named_fds opts c)"
    "distinct (sc_admin_principal c # map pc_principal (sc_peers c))"
    "shrinks (host_fds h) fds3" "\<And>fd. fd \<in> set (named_fds opts c) \<Longrightarrow> fd_cloexec (fds3 fd)"
    "\<not> fd_open (fds3 (ro_config_fd opts))"
    "distinct_sockets fds3 [] (channel_fds opts c) = Inr ()"
    "close_unlisted (su_calls io) (rev (named_fds opts c)) fds3 = (Inr u, host_fds h')"
proof -
  let ?k = "su_calls io" and ?own = "[ro_seed_fd opts, ro_config_fd opts, ro_admin_fd opts]"
  obtain h1 h2 h3 h6 u1 keep1 bytes keep2 u2 where
    s1: "on_process (harden ?k) h = (Inr u1, h1)" and
    s2: "on_fds (open_distinct ?k [] ?own) h1 = (Inr keep1, h2)" and
    s3: "on_fds (read_fd ?k (ro_config_fd opts) 65536) h2 = (Inr bytes, h3)" and
    s4: "check_config opts io c = Inr (lifetime, idle)" and
    s5: "on_fds (check_peers ?k [sc_admin_principal c] keep1 (sc_peers c)) h3 = (Inr keep2, h6)" and
    s6: "distinct_sockets (host_fds h6) [] (ro_admin_fd opts # map pc_fd (sc_peers c)) = Inr u2" and
    s7: "on_fds (close_unlisted ?k keep2) h6 = (Inr (), h')"
    using assms unfolding take_over_def and_then_Inr
    by (clarsimp simp add: and_then_Inr simp del: distinct_sockets.simps split: prod.splits)
  have h1: "ho_directory h1 = ho_directory h" "ho_nodes h1 = ho_nodes h" "host_fds h1 = host_fds h"
    "pr_no_new_privs (ho_process h1)" "\<not> pr_dumpable (ho_process h1)"
    using s1 by (auto simp: on_process_def split: prod.splits dest: harden_Inr)
  obtain fds2 where o: "open_distinct ?k [] ?own (host_fds h) = (Inr keep1, fds2)" "h2 = set_fds fds2 h1"
    using s2 h1(3) by (auto simp: on_fds_Inr)
  note o1 = open_distinct_Inr [OF o(1)]
  obtain fds where r: "read_fd ?k (ro_config_fd opts) 65536 fds2 = (Inr bytes, fds)" "h3 = set_fds fds h2"
    using s3 o(2) by (auto simp: on_fds_Inr)
  note r1 = read_fd_Inr [OF r(1)]
  obtain fds3 where p: "check_peers ?k [sc_admin_principal c] keep1 (sc_peers c) fds = (Inr keep2, fds3)" "h6 = set_fds fds3 h3"
    using s5 r(2) by (auto simp: on_fds_Inr)
  note p1 = check_peers_Inr [OF p(1)]
  have fds3: "fds3 = fold mark_fd (map pc_fd (sc_peers c)) (close_fd (ro_config_fd opts)
      (mark_fd (ro_config_fd opts) (fold mark_fd ?own (host_fds h))))"
    using o1 r1 p1 by metis
  have keep2: "keep2 = rev (named_fds opts c)" using o1 p1 by (simp add: named_fds_def)
  have "distinct (named_fds opts c)" using o1 p1 by (auto simp: named_fds_def)
  moreover have "distinct (sc_admin_principal c # map pc_principal (sc_peers c))" using p1 by auto
  moreover have "shrinks (host_fds h) fds3"
    unfolding fds3 by (intro shrinks_fold_mark shrinks_trans [OF _ shrinks_close] shrinks_trans [OF _ shrinks_mark] shrinks_refl)
  moreover have "fd_cloexec (fds3 fd)" if "fd \<in> set (named_fds opts c)" for fd
    using that unfolding fds3 named_fds_def by auto
  moreover have "\<not> fd_open (fds3 (ro_config_fd opts))" unfolding fds3 by simp
  moreover have "distinct_sockets fds3 [] (channel_fds opts c) = Inr ()" using s6 p(2) by (simp add: channel_fds_def)
  moreover have "close_unlisted ?k (rev (named_fds opts c)) fds3 = (Inr (), host_fds h')"
    "ho_directory h' = ho_directory h" "ho_nodes h' = ho_nodes h"
    "pr_no_new_privs (ho_process h')" "\<not> pr_dumpable (ho_process h')"
    using s7 p(2) r(2) o(2) h1 keep2 by (auto simp: on_fds_Inr)
  ultimately show ?thesis using that s4 by metis
qed

section \<open>Serving starts\<close>

lemma unix_socket_Inr:
  assumes "unix_socket k fd fds = (Inr u, fds')"
  shows "fds' = mark_fd fd fds \<and> fd_socket (fds fd) = Some (af_unix, sock_stream)"
  using assms
  by (auto simp: unix_socket_def mark_fd_def split: prod.splits sum.splits if_splits dest: open_fd_Inr)

lemma peer_channel_Inr:
  assumes "peer_channel k fd fds = (Inr ch, fds')"
  shows "fds' = mark_fd fd fds \<and> fd_socket (fds fd) = Some (af_unix, sock_stream)
     \<and> ch = \<lparr>ch_poisoned = False, ch_pending = [], ch_sent = []\<rparr>"
  using assms
  by (auto simp: peer_channel_def new_channel_def split: prod.splits sum.splits if_splits dest: unix_socket_Inr)

definition fresh_peer :: "auth_context \<Rightarrow> bool \<Rightarrow> peer" where
  "fresh_peer = new_peer \<lparr>ch_poisoned = False, ch_pending = [], ch_sent = []\<rparr>"

lemma make_peers_Inr:
  assumes "make_peers k bindings fds = (Inr ps, fds')"
  shows "ps = map (\<lambda>(fd, ctx, is_admin). fresh_peer ctx is_admin) bindings
     \<and> fds' = fold mark_fd (map fst bindings) fds
     \<and> list_all (\<lambda>(fd, _). fd_socket (fds fd) = Some (af_unix, sock_stream)) bindings"
  using assms
proof (induction k bindings fds arbitrary: ps rule: make_peers.induct)
  case (2 k fd ctx is_admin rest fds)
  obtain ch qs where c: "peer_channel k fd fds = (Inr ch, mark_fd fd fds)" and r: "make_peers k rest (mark_fd fd fds) = (Inr qs, fds')"
    and ps: "ps = new_peer ch ctx is_admin # qs"
    using 2(2) by (auto split: prod.splits sum.splits dest: peer_channel_Inr)
  have "fd_socket (mark_fd fd fds x) = fd_socket (fds x)" for x by (simp add: mark_fd_def)
  then show ?case
    using 2(1) [OF c [symmetric] refl r] peer_channel_Inr [OF c] ps by (simp add: fresh_peer_def)
qed simp

definition initial_peers :: "supervisor_config \<Rightarrow> peer list" where
  "initial_peers c =
     fresh_peer (from_authenticated_admin (sc_owner c) (sc_admin_principal c) (sc_workspace c)) True
     # map (\<lambda>p. fresh_peer (from_authenticated_peer (sc_owner c) (pc_principal p) (sc_workspace c)) False) (sc_peers c)"

text \<open>What a successful start has done, stage by stage.\<close>

lemma startup_Inr:
  assumes "startup env jt opts io h = (Inr rn, h')"
  obtains lifetime h1 h2 h3 seed v where
    "take_over jt opts io h = (Inr (rn_config rn, lifetime, rn_idle rn), h1)"
    "start_listener opts io h1 = (Inr (rn_listener rn), h2)"
    "host_fds h3 = close_fd (ro_seed_fd opts) (mark_fd (ro_seed_fd opts) (fold mark_fd (channel_fds opts (rn_config rn)) (host_fds h2)))"
    "list_all (\<lambda>fd. fd_socket (host_fds h2 fd) = Some (af_unix, sock_stream)) (channel_fds opts (rn_config rn))"
    "ho_nodes h3 = ho_nodes h2" "ho_directory h3 = ho_directory h2"
    "ho_process h3 = (ho_process h2)\<lparr>pr_fds := host_fds h3\<rparr>"
    "seed = fd_text (host_fds h2 (ro_seed_fd opts))" "open_owner env opts io seed h3 = (Inr v, h')"
    "running_state opts io (rn_config rn) lifetime (rn_idle rn) (rn_listener rn) (initial_peers (rn_config rn)) v = Inr rn"
proof -
  obtain c lifetime idle h1 listener h2 where
    t: "take_over jt opts io h = (Inr (c, lifetime, idle), h1)" "start_listener opts io h1 = (Inr listener, h2)"
      "start_serving env opts io c lifetime idle listener h2 = (Inr rn, h')"
    using assms by (auto simp: startup_def and_then_Inr on_error_Inr)
  obtain ps fds seed fds' h3 v where
    s: "make_peers (su_calls io) (peer_bindings opts c) (host_fds h2) = (Inr ps, fds)"
      "read_text (su_calls io) (ro_seed_fd opts) fds = (Inr seed, fds')" "h3 = set_fds fds' (set_fds fds h2)"
      "open_owner env opts io seed h3 = (Inr v, h')"
      "running_state opts io c lifetime idle listener ps v = Inr rn"
    using t(3) by (auto simp: start_serving_def and_then_Inr on_fds_Inr)
  note m = make_peers_Inr [OF s(1)]
  have fds: "map fst (peer_bindings opts c) = channel_fds opts c"
    by (simp add: peer_bindings_def channel_fds_def)
  have rn: "rn_config rn = c" "rn_idle rn = idle" "rn_listener rn = listener"
    using s(5) by (auto simp: running_state_def split: if_splits)
  have ps: "ps = initial_peers c" using m by (simp add: peer_bindings_def initial_peers_def)
  have "list_all (\<lambda>fd. fd_socket (host_fds h2 fd) = Some (af_unix, sock_stream)) (channel_fds opts c)"
    using m by (simp add: fds [symmetric] list_all_iff case_prod_unfold)
  then show ?thesis
    using that [OF _ _ _ _ _ _ _ _ s(4)] t(1,2) s(3,5) read_text_Inr [OF s(2)] m rn ps
    by (simp add: fds set_fds_def fd_text_def fold_mark_fields)
qed

lemma running_state_Inr:
  assumes "running_state opts io c lifetime idle listener ps v = Inr rn"
  shows "rn_deadline rn = su_instant io + lifetime \<and> bk_peers (rn_broker rn) = ps \<and> bk_vault (rn_broker rn) = v
    \<and> bk_sessions (rn_broker rn) = new_sessions (sc_owner c) (sc_workspace c) (sc_admin_principal c)
       (ro_bridge_socket opts) (su_now io + int lifetime)"
  using assms by (auto simp: running_state_def split: if_splits)

end
