(* ===== verification/Owner.thy ===== *)
theory Owner
  imports Workflow_Properties Policy_Invariant Recovery
begin

text \<open>
  The life of a durable owner: creation or recovery, any sequence of its operations with any outcome of their
  system calls, and restarts. This theory holds the step relation over the operations of \<open>Store\<close> and
  \<open>Workflow\<close>, and what each operation keeps of the staging state: its tables stay in the form that a
  snapshot can hold, and no operation other than a private use opens a delivery.
\<close>

section \<open>The form of the staging state\<close>

definition tables_wf :: "application \<Rightarrow> bool" where
  "tables_wf app \<longleftrightarrow>
     bt_wf (app_tasks app) \<and> bt_wf (app_records app) \<and> bt_wf (app_grants app) \<and> bt_wf (app_requests app)
     \<and> bt_wf (app_deliveries app) \<and> bt_wf (app_baselines app)"

definition dated :: "application \<Rightarrow> bool" where
  "dated app \<longleftrightarrow> (\<forall>m \<in> snd ` set (app_requests app). rm_at m \<noteq> None)
     \<and> (\<forall>d \<in> snd ` set (app_deliveries app). da_at d \<noteq> None)"

lemma storable_iff: "storable app \<longleftrightarrow> tables_wf app \<and> dated app"
  by (auto simp: storable_def tables_wf_def dated_def list_all_iff)

text \<open>Only the deliveries of one attempt may be open.\<close>

definition open_only :: "uuid option \<Rightarrow> application \<Rightarrow> bool" where
  "open_only attempt app \<longleftrightarrow> list_all (\<lambda>(k, d). Some k = attempt \<or> da_status d \<noteq> None) (app_deliveries app)"

lemma unfinished_iff: "unfinished app \<longleftrightarrow> \<not> open_only None app"
proof -
  have "list_ex P (map snd m) \<longleftrightarrow> \<not> list_all (\<lambda>(k, d). \<not> P d) m" for P :: "delivery_attempt \<Rightarrow> bool" and m :: "(uuid \<times> delivery_attempt) list"
    by (induction m) auto
  then show ?thesis by (simp add: unfinished_def open_only_def bt_values_def)
qed

definition settled :: "uuid option \<Rightarrow> application \<Rightarrow> bool" where
  "settled attempt app \<longleftrightarrow> storable app \<and> open_only attempt app"

lemma settledI: "tables_wf app \<Longrightarrow> dated app \<Longrightarrow> open_only attempt app \<Longrightarrow> settled attempt app"
  by (simp add: settled_def storable_iff)

lemma settledD:
  assumes "settled attempt app"
  shows "tables_wf app" "dated app" "open_only attempt app" "storable app"
  using assms by (simp_all add: settled_def storable_iff)

lemma settled_tables:
  assumes "settled attempt app" and "tables_wf app'"
    and "set (app_requests app') \<subseteq> set (app_requests app)" and "set (app_deliveries app') \<subseteq> set (app_deliveries app)"
  shows "settled attempt app'"
  using assms by (intro settledI) (auto simp: settled_def storable_iff dated_def open_only_def list_all_iff)

lemma settled_clock [simp]:
  "settled attempt (app\<lparr>app_last_time := t\<rparr>) = settled attempt app"
  "settled attempt (app\<lparr>app_clock_frozen := b\<rparr>) = settled attempt app"
  "settled attempt (app\<lparr>app_generation := g\<rparr>) = settled attempt app"
  "settled attempt (app\<lparr>app_predecessor := p\<rparr>) = settled attempt app"
  "settled attempt (audit_push app e) = settled attempt app"
  by (simp_all add: settled_def storable_def open_only_def audit_push_def)

lemma settled_mono: "settled None app \<Longrightarrow> settled attempt app"
  by (auto simp: settled_def open_only_def list_all_iff)

section \<open>Compaction\<close>

lemma set_bt_remove: "set (bt_remove k m) \<subseteq> set m"
  by (auto simp: bt_remove_def)

lemma set_fold_remove: "set (fold (\<lambda>(key, m). bt_remove key) xs rs) \<subseteq> set rs"
proof (induction xs arbitrary: rs)
  case (Cons x xs)
  have "set (fold (\<lambda>(key, m). bt_remove key) xs (bt_remove (fst x) rs)) \<subseteq> set rs"
    using Cons set_bt_remove by (rule subset_trans)
  then show ?case by (cases x) simp
qed simp

lemma bt_wf_fold_remove: "bt_wf m \<Longrightarrow> bt_wf (fold bt_remove ks m)"
  by (induction ks arbitrary: m) auto

lemma bt_wf_fold_remove_keys: "bt_wf rs \<Longrightarrow> bt_wf (fold (\<lambda>(key, m). bt_remove key) xs rs)"
  by (induction xs arbitrary: rs) (auto split: prod.splits)

lemma compact_receipts_settled: "settled attempt app \<Longrightarrow> settled attempt (compact_receipts x app)"
  using set_fold_remove
  by (rule_tac settled_tables)
     (auto simp: compact_receipts_def settled_def storable_iff tables_wf_def bt_wf_fold_remove_keys Let_def)

lemma compact_grant_settled: "settled attempt app \<Longrightarrow> settled attempt (compact_grant x app)"
  by (rule_tac settled_tables)
     (auto simp: compact_grant_def settled_def storable_iff tables_wf_def Let_def split: option.splits)

lemma seal_delivery_settled: "settled attempt app \<Longrightarrow> settled attempt (seal_delivery app d)"
  by (rule_tac settled_tables)
     (auto simp: seal_delivery_def settled_def storable_iff tables_wf_def Let_def)

lemma compact_delivery_settled:
  assumes "settled attempt app"
  shows "settled attempt (compact_delivery x app)"
proof (cases "compact_delivery x app = app")
  case False
  then obtain d where d: "compact_delivery x app
      = (seal_delivery app d)\<lparr>app_deliveries := bt_remove x (app_deliveries app)\<rparr>"
    by (auto simp: compact_delivery_def seal_delivery_tables Let_def split: option.splits if_splits)
  have "tables_wf (seal_delivery app d)" using settledD(1) [OF seal_delivery_settled [OF assms]] .
  moreover have "app_requests (seal_delivery app d) = app_requests app"
    by (simp add: seal_delivery_def Let_def)
  ultimately show ?thesis
    using set_bt_remove [of x "app_deliveries app"] unfolding d
    by (intro settled_tables [OF assms]) (simp_all add: tables_wf_def seal_delivery_tables)
qed (use assms in simp)

lemma compact_tail_settled:
  "settled attempt app \<Longrightarrow>
     settled attempt (compact_baselines (compact_audit (compact_tasks (compact_records app))))"
  by (rule_tac settled_tables)
     (auto simp: compact_baselines_def compact_audit_def compact_tasks_def compact_records_def settled_def
        storable_iff tables_wf_def bt_wf_fold_remove Let_def)

lemma fold_settled:
  assumes "\<And>x app. settled attempt app \<Longrightarrow> settled attempt (f x app)" and "settled attempt app"
  shows "settled attempt (fold f xs app)"
  using assms(2) by (induction xs arbitrary: app) (simp_all add: assms(1))

lemma compact_settled: "settled attempt app \<Longrightarrow> settled attempt (compact app)"
  by (simp add: compact_def Let_def compact_tail_settled fold_settled compact_receipts_settled
      compact_grant_settled compact_delivery_settled)

section \<open>The policy operations\<close>

text \<open>What an operation applied by the owner keeps, whether it succeeds or not.\<close>

locale settled_operation =
  fixes operation :: "application \<Rightarrow> (error + 'r) \<times> application"
  assumes keeps: "settled attempt app \<Longrightarrow> settled attempt (snd (operation app))"

lemma clock_settled: "settled attempt app \<Longrightarrow> settled attempt (snd (clock app now))"
  by (simp add: clock_def split: sum.split)

lemma perform_tables:
  assumes "perform app ctx t tid op fresh = (res, app')" and "tables_wf app"
  shows "tables_wf app'"
  using assms by (cases op) (auto simp: tables_wf_def Let_def split: if_splits option.splits)

lemma set_bt_insert_values: "snd ` set (bt_insert k v m) \<subseteq> insert v (snd ` set m)"
  by (induction m) auto

lemma execute_settled:
  assumes "execute app ctx t key op fp now fresh ent = (Inr receipt, app')" and "settled attempt app"
  shows "settled attempt app'"
proof -
  obtain op' mid where x: "perform app ctx t (rk_task key) op' fresh = (Inr receipt, mid)"
      "app' = audit_push
       (mid\<lparr>app_requests := bt_insert key
          \<lparr>rm_fingerprint = fp, rm_result = receipt, rm_kind = cached_kind_of op, rm_at = Some now\<rparr>
          (app_requests mid)\<rparr>)
       \<lparr>ae_task = rk_task key, ae_record = rc_record receipt, ae_request = Some (rk_id key),
        ae_action = AuMutation, ae_at = now, ae_principal = ctx_principal ctx\<rparr>"
    by (rule execute_cases [OF assms(1)])
  let ?m = "\<lparr>rm_fingerprint = fp, rm_result = receipt, rm_kind = cached_kind_of op, rm_at = Some now\<rparr>"
  have wf: "tables_wf mid" by (rule perform_tables [OF x(1) settledD(1) [OF assms(2)]])
  have same: "app_requests mid = app_requests app" "app_deliveries mid = app_deliveries app"
    using perform_frame [OF x(1)] by simp_all
  have "snd ` set (bt_insert key ?m (app_requests app)) \<subseteq> insert ?m (snd ` set (app_requests app))"
    by (rule set_bt_insert_values)
  then have "dated (mid\<lparr>app_requests := bt_insert key ?m (app_requests mid)\<rparr>)"
    using settledD(2) [OF assms(2)] by (auto simp: dated_def same dest!: subsetD)
  moreover have "open_only attempt (mid\<lparr>app_requests := bt_insert key ?m (app_requests mid)\<rparr>)"
    using settledD(3) [OF assms(2)] by (simp add: open_only_def same)
  ultimately show ?thesis
    unfolding x(2) settled_clock using wf by (intro settledI) (simp_all add: tables_wf_def)
qed

interpretation approve: settled_operation "\<lambda>app. approve_task app ctx t now" for ctx t now
  by unfold_locales
     (auto simp: approve_task_def clock_def settled_def storable_iff tables_wf_def dated_def open_only_def
        split: sum.splits if_splits option.splits)

interpretation revoke: settled_operation "\<lambda>app. revoke_task app ctx tid now" for ctx tid now
  by unfold_locales
     (auto simp: revoke_task_def clock_def settled_def storable_iff tables_wf_def dated_def open_only_def
        split: sum.splits if_splits option.splits)

interpretation meta: settled_operation "\<lambda>app. metadata app ctx tid rid fs now" for ctx tid rid fs now
  by unfold_locales (simp add: metadata_def clock_def split: sum.split)

interpretation read: settled_operation "\<lambda>app. read_secret app ctx tid rid fs now" for ctx tid rid fs now
  by unfold_locales (simp add: read_secret_def clock_def split: sum.split)

interpretation mutation: settled_operation
  "\<lambda>app. mutate ext app ctx tid request op now fresh ent" for ext ctx tid request op now fresh ent
proof
  fix attempt app
  assume s: "settled attempt app"
  obtain res app' where m: "mutate ext app ctx tid request op now fresh ent = (res, app')" by fastforce
  then have "settled attempt app'"
    using s execute_settled by (cases rule: mutate_cases [OF m]) auto
  then show "settled attempt (snd (mutate ext app ctx tid request op now fresh ent))" by (simp add: m)
qed

text \<open>The operations that first take the task context from the administrator.\<close>

lemma with_task_context_keeps:
  assumes "\<And>a ctx eff. settled attempt a \<Longrightarrow> settled attempt (snd (operation a ctx eff))"
    and "settled attempt app"
  shows "settled attempt (snd (with_task_context admin tid now operation app))"
  using clock_settled [OF assms(2), of now] assms(1)
  by (auto simp: with_task_context_def split: prod.split sum.split)

interpretation import_op: settled_operation
  "with_task_context admin tid now (\<lambda>app ctx eff. mutate ext app ctx tid request op eff fresh ent)"
  for admin tid now ext request op fresh ent
  by unfold_locales (rule with_task_context_keeps [OF mutation.keeps])

interpretation export_op: settled_operation
  "with_task_context admin tid now (\<lambda>app ctx eff. read_secret app ctx tid rid fs eff)" for admin tid now rid fs
  by unfold_locales (rule with_task_context_keeps [OF read.keeps])

section \<open>Private use\<close>

lemma open_only_insert: "open_only attempt app \<Longrightarrow>
    open_only (Some k) (app\<lparr>app_deliveries := bt_insert k d (app_deliveries app)\<rparr>)" if "attempt = None \<or> attempt = Some k"
proof -
  have "list_all (\<lambda>(j, d). j = k \<or> da_status d \<noteq> None) m \<Longrightarrow>
      list_all (\<lambda>(j, d). j = k \<or> da_status d \<noteq> None) (bt_insert k d m)" for m
    by (induction m) auto
  moreover assume "open_only attempt app"
  then have "list_all (\<lambda>(j, d). j = k \<or> da_status d \<noteq> None) (app_deliveries app)"
    using that by (auto simp: open_only_def list_all_iff)
  ultimately show ?thesis by (simp add: open_only_def)
qed

lemma dated_insert:
  assumes "dated app" and "da_at d \<noteq> None"
  shows "dated (app\<lparr>app_deliveries := bt_insert k d (app_deliveries app)\<rparr>)"
  using assms set_bt_insert_values [of k d "app_deliveries app"] by (auto simp: dated_def dest!: subsetD)

lemma set_signup_settled [simp]: "settled attempt (set_signup rid st app) = settled attempt app"
  by (simp add: set_signup_def settled_def storable_def open_only_def)

text \<open>Preparing a use opens at most the delivery of its own attempt, and none unless it says so.\<close>

lemma prepare_use_settled:
  assumes "prepare_use ctx tid request fp attempt now app = (res, app')" and "settled None app"
  shows "settled (Some attempt) app' \<and> (res \<noteq> Inr None \<longrightarrow> settled None app')"
proof -
  have c: "settled None (snd (clock app now))" by (rule clock_settled [OF assms(2)])
  have insert: "settled (Some attempt) (a\<lparr>app_deliveries := bt_insert attempt d (app_deliveries a)\<rparr>)"
    if "settled None a" "da_at d \<noteq> None" for a d
    using settledD [OF that(1)] that(2)
    by (intro settledI dated_insert open_only_insert) (simp_all add: tables_wf_def)
  show ?thesis
    using assms(1) c insert settled_mono [of _ "Some attempt"]
    by (auto simp: prepare_use_def Let_def new_attempt_def repeat_delivery_def
        split: sum.splits prod.splits if_splits option.splits)
qed

text \<open>Closing an attempt leaves no delivery open.\<close>

lemma close_settled:
  assumes s: "settled (Some attempt) app" and f: "\<And>d. da_status (f d) \<noteq> None \<and> da_at (f d) = da_at d"
  shows "settled None (app\<lparr>app_deliveries := bt_modify attempt f (app_deliveries app)\<rparr>)"
proof (intro settledI)
  show "tables_wf (app\<lparr>app_deliveries := bt_modify attempt f (app_deliveries app)\<rparr>)"
    using settledD(1) [OF s] by (simp add: tables_wf_def)
  show "dated (app\<lparr>app_deliveries := bt_modify attempt f (app_deliveries app)\<rparr>)"
    using settledD(2) [OF s] f by (auto simp: dated_def bt_modify_def)
  show "open_only None (app\<lparr>app_deliveries := bt_modify attempt f (app_deliveries app)\<rparr>)"
    using settledD(3) [OF s] f by (auto simp: open_only_def bt_modify_def list_all_iff)
qed

lemma reject_use_settled:
  assumes "reject_use request attempt app = (Inr (), app')" and "settled (Some attempt) app"
  shows "settled None app'"
  using assms(1) close_settled [OF assms(2), of "\<lambda>d. d\<lparr>da_dispatched := False, da_status := Some DRejected\<rparr>"]
  by (auto simp: reject_use_def Let_def split: option.splits if_splits)

lemma finish_use_settled:
  assumes "finish_use ctx tid request attempt status at app = (Inr (), app')" and "settled (Some attempt) app"
  shows "settled None app'"
  using assms(1) close_settled [OF assms(2), of "\<lambda>d. d\<lparr>da_status := Some status\<rparr>"]
  by (auto simp: finish_use_def Let_def split: option.splits)

section \<open>The life of an owner\<close>

text \<open>The name of a temporary file is none that carries meaning, and a nonce has its length.\<close>

definition io_ok :: "publish_io \<Rightarrow> bool" where
  "io_ok io \<longleftrightarrow> temp_ok io \<and> length (po_nonce io) = nonce_len"

text \<open>
  The state is the seed phrase that opens the vault and the owner. A step is labelled with the
  identifier that it may give to a new record or grant. A restart is an opening of the directory the
  owner left behind, after a stop at the end of any operation.
\<close>

inductive owner_step :: "environment \<Rightarrow> uuid option \<Rightarrow> string \<times> vault \<Rightarrow> string \<times> vault \<Rightarrow> bool" for env where
  approves: "owner_step env None (m, v) (m, v')"
    if "vault_approve_task env v ctx t now io = (res1, v')" and "io_ok io"
| revokes: "owner_step env None (m, v) (m, v')"
    if "vault_revoke_task env v ctx tid now io = (res1, v')" and "io_ok io"
| mutates: "owner_step env (Some fresh) (m, v) (m, v')"
    if "vault_mutate env v ctx tid request op now fresh ent io = (res2, v')" and "io_ok io"
| reads_metadata: "owner_step env None (m, v) (m, v')"
    if "vault_metadata env v ctx tid rid fs now io = (res3, v')" and "io_ok io"
| human_imports: "owner_step env (Some fresh) (m, v) (m, v')"
    if "import_for_task env v ctx tid request kind values now fresh ent io = (res2, v')" and "io_ok io"
| human_exports: "owner_step env None (m, v) (m, v')"
    if "read_for_task env v ctx tid rid fs now io = (res4, v')" and "io_ok io"
| uses: "owner_step env None (m, v) (m, v')"
    if "use_secret env v ctx tid usage now1 now2 deliver attempt io1 io2 = (res5, v', handed)"
      and "io_ok io1" and "io_ok io2"
| rekeys: "owner_step env None (m, v) (case res1 of Inl _ \<Rightarrow> m | Inr _ \<Rightarrow> new, v')"
    if "rekey env v ctx new salt io = (res1, v')" and "io_ok io" and "length salt = salt_len"
| restarts: "owner_step env None (m, v) (m, v')"
    if "open_vault env (dv_dir v) lock gate_failed m = Inr v'"

text \<open>
  The owners that can arise, and the later owners when an identifier is not given out again. A life
  begins with a creation or with a recovery of any directory, whatever was left in it. An entry of a
  recovered state has its time unless it comes from a stored state of the old format without a clock.
\<close>

inductive owner_reachable :: "environment \<Rightarrow> string \<times> vault \<Rightarrow> bool" for env where
  created: "owner_reachable env (m, v)"
    if "create_from_app env dir lock gate_failed m salt app io = (Inr v, dir')"
      and "storable app" and "\<not> unfinished app" and "io_ok io" and "length salt = salt_len"
| recovered: "owner_reachable env (m, v)"
    if "recover_at env dir lock m admin now io = (Inr v, dir')" and "dated (dv_app v)" and "length (ri_nonce io) = nonce_len"
| step: "owner_reachable env s'" if "owner_reachable env s" and "owner_step env fresh s s'"

inductive owner_run :: "environment \<Rightarrow> uuid \<Rightarrow> string \<times> vault \<Rightarrow> string \<times> vault \<Rightarrow> bool" for env rid where
  stays: "owner_run env rid s s"
| goes_on: "owner_run env rid s s2" if "owner_run env rid s s1" and "owner_step env fresh s1 s2" and "fresh \<noteq> Some rid"

lemma owner_run_reachable: "owner_run env rid s s' \<Longrightarrow> owner_reachable env s \<Longrightarrow> owner_reachable env s'"
  by (induction rule: owner_run.induct) (auto intro: step)

end
