(* ===== verification/Owner_Durable.thy ===== *)
theory Owner_Durable
  imports Owner
begin

text \<open>
  The durability invariant of an owner: without a gate file the directory opens to the state the
  owner holds, up to the clock. Every operation of the owner keeps it, also with failing system calls.
\<close>

section \<open>The durability invariant\<close>

text \<open>What the code relies on from AES-GCM and from the Argon2 crate, next to the JSON codec.\<close>

definition environment_ok :: "environment \<Rightarrow> bool" where
  "environment_ok env \<longleftrightarrow>
     aead_correct (en_crypto env) \<and> json_correct (en_json env)
     \<and> (\<forall>key nonce p aad c. cr_aead_encrypt (en_crypto env) key nonce p aad = Some c \<longrightarrow> length c = length p + 16)
     \<and> cr_params_ok (en_crypto env) kdf_current"

definition keys_ok :: "environment \<Rightarrow> string \<Rightarrow> u8 list \<Rightarrow> u8 list \<Rightarrow> kdf_params \<Rightarrow> bool" where
  "keys_ok env mnemonic key salt kdf \<longleftrightarrow>
     derive_key (en_crypto env) mnemonic salt kdf = Inr key
     \<and> validated (en_crypto env) (kd_m_kib kdf) (kd_t_cost kdf) (kd_p_cost kdf) = Inr kdf \<and> length salt = salt_len"

text \<open>The state with the clock that was last written: what the image holds.\<close>

definition persisted :: "vault \<Rightarrow> application" where
  "persisted v = (dv_app v)\<lparr>app_last_time := st_persisted_last_time (dv_store v),
     app_clock_frozen := st_persisted_frozen (dv_store v)\<rparr>"

definition on_disk :: "environment \<Rightarrow> string \<Rightarrow> vault \<Rightarrow> bool" where
  "on_disk env mnemonic v \<longleftrightarrow>
     (\<exists>img. st_current_image (dv_store v) = Some img \<and> map_of (dv_dir v) state_name = Some img
        \<and> length img \<le> max_image
        \<and> unseal env img mnemonic
            = Inr (persisted v, st_key (dv_store v), st_salt (dv_store v), st_kdf (dv_store v)))"

definition durable :: "environment \<Rightarrow> string \<Rightarrow> vault \<Rightarrow> bool" where
  "durable env mnemonic v \<longleftrightarrow>
     storable (dv_app v) \<and> keys_ok env mnemonic (st_key (dv_store v)) (st_salt (dv_store v)) (st_kdf (dv_store v))
     \<and> (ready v = Inr () \<longrightarrow> no_gate (dv_dir v)) \<and> (no_gate (dv_dir v) \<longrightarrow> on_disk env mnemonic v)"

lemma durableD:
  assumes "durable env mnemonic v"
  shows "storable (dv_app v)"
    and "keys_ok env mnemonic (st_key (dv_store v)) (st_salt (dv_store v)) (st_kdf (dv_store v))"
    and "ready v = Inr () \<Longrightarrow> no_gate (dv_dir v)" and "no_gate (dv_dir v) \<Longrightarrow> on_disk env mnemonic v"
  using assms by (simp_all add: durable_def)

text \<open>The clock of the state in memory is not part of the invariant.\<close>

lemma persisted_clock:
  "persisted (v\<lparr>dv_app := (dv_app v)\<lparr>app_last_time := t, app_clock_frozen := b\<rparr>\<rparr>) = persisted v"
  by (simp add: persisted_def)

lemma storable_clock [simp]:
  "storable (app\<lparr>app_last_time := t\<rparr>) = storable app" "storable (app\<lparr>app_clock_frozen := b\<rparr>) = storable app"
  "storable (app\<lparr>app_generation := g\<rparr>) = storable app" "storable (app\<lparr>app_predecessor := p\<rparr>) = storable app"
  by (simp_all add: storable_def)

lemma durable_clock:
  assumes "durable env mnemonic v" and "same_but_clock (dv_app v) app"
  shows "durable env mnemonic (v\<lparr>dv_app := app\<rparr>)"
proof -
  obtain t b where app: "app = (dv_app v)\<lparr>app_last_time := t, app_clock_frozen := b\<rparr>"
    using assms(2) by (auto simp: same_but_clock_def)
  then have "persisted (v\<lparr>dv_app := app\<rparr>) = persisted v" by (simp add: persisted_clock)
  then show ?thesis using assms(1) by (simp add: durable_def on_disk_def ready_def app)
qed

lemma durable_freeze: "durable env mnemonic v \<Longrightarrow> durable env mnemonic (v\<lparr>dv_frozen := True\<rparr>)"
  by (auto simp: durable_def on_disk_def ready_def persisted_def)

section \<open>Publication\<close>

lemma seal_length:
  assumes "environment_ok env" and "seal env app key salt kdf nonce = Inr img"
    and "length salt = salt_len" "length nonce = nonce_len"
  shows "length img \<le> max_image"
proof -
  obtain bytes c where s: "length bytes \<le> max_plaintext"
      "cr_aead_encrypt (en_crypto env) key nonce bytes (image_header header_v3 kdf salt) = Some c"
      "img = image_header header_v3 kdf salt @ nonce @ to_be64 (word_of_nat (length c)) @ c"
    using assms(2)
    by (auto simp: seal_def seal_plaintext_def seal_version_def encrypt_def Let_def not_less
        split: sum.splits if_splits option.splits)
  moreover have "length c = length bytes + 16" using assms(1) s(2) unfolding environment_ok_def by blast
  ultimately show ?thesis
    using assms(3,4)
    by (simp add: length_image_header be64.length_enc max_plaintext_def max_image_def nonce_len_def)
qed

lemma publish_gate:
  assumes pub: "publish_with env st dir app key salt kdf io = (result, st', dirs)" and temp: "temp_ok io"
    and "result = UnknownP" and "no_gate (final_dir dir dirs)"
  shows "no_gate dir \<and> map_of (final_dir dir dirs) state_name = map_of dir state_name"
  using assms
  by (auto simp: publish_defs final_dir_def temp_ok_def no_gate_def map_of_move_file map_of_leave
      pending_exists_def gate_exists_def bt_contains_def
      split: if_splits io_write.splits io_rename.splits sum.splits)

lemma persisted_self: "st_persisted_last_time st = app_last_time app \<Longrightarrow> st_persisted_frozen st = app_clock_frozen app
    \<Longrightarrow> app\<lparr>app_last_time := st_persisted_last_time st, app_clock_frozen := st_persisted_frozen st\<rparr> = app"
  by (cases app) simp

text \<open>The three outcomes of publishing a candidate, for an owner whose directory is right.\<close>

lemma settle_durable:
  assumes env: "environment_ok env" and io: "io_ok io" and v: "durable env mnemonic v"
    and cand: "storable candidate" and keys: "keys_ok env mnemonic' key salt kdf"
    and out: "settle v candidate (publish_with env (dv_store v) (dv_dir v) candidate key salt kdf io) = (res, v')"
  shows "case res of
      Inr _ \<Rightarrow> durable env mnemonic' v' \<and> dv_app v' = candidate
        \<and> st_persisted_last_time (dv_store v') = app_last_time candidate
        \<and> st_persisted_frozen (dv_store v') = app_clock_frozen candidate
    | Inl e \<Rightarrow> durable env mnemonic v' \<and> dv_app v' = dv_app v
        \<and> (ready v' = Inr () \<longrightarrow> ready v = Inr () \<and> dv_store v' = dv_store v)"
proof -
  obtain result st' dirs where pub:
    "publish_with env (dv_store v) (dv_dir v) candidate key salt kdf io = (result, st', dirs)"
    by (cases "publish_with env (dv_store v) (dv_dir v) candidate key salt kdf io") auto
  have temp: "temp_ok io" and nonce: "length (po_nonce io) = nonce_len" using io by (simp_all add: io_ok_def)
  note outcomes = publish_outcomes [OF pub temp]
  show ?thesis
  proof (cases result)
    case NotPublishedP
    have same: "st' = dv_store v" "map_of (final_dir (dv_dir v) dirs) state_name = map_of (dv_dir v) state_name"
      "no_gate (final_dir (dv_dir v) dirs)" using outcomes(1) [OF NotPublishedP] by simp_all
    have "no_gate (dv_dir v)"
      using pub NotPublishedP
      by (auto simp: publish_defs pending_exists_def gate_exists_def bt_contains_def no_gate_def
          split: if_splits sum.splits io_write.splits io_rename.splits)
    then have "on_disk env mnemonic v" using durableD(4) [OF v] by simp
    then show ?thesis
      using out same v NotPublishedP
      by (auto simp: settle_def pub Let_def durable_def on_disk_def persisted_def ready_def)
  next
    case UnknownP
    have st: "st' = block (dv_store v)" using outcomes(2) [OF UnknownP] .
    have "on_disk env mnemonic v" if "no_gate (final_dir (dv_dir v) dirs)"
      using durableD(4) [OF v] publish_gate [OF pub temp UnknownP that] by simp
    then show ?thesis
      using out st v UnknownP publish_gate [OF pub temp UnknownP]
      by (auto simp: settle_def pub Let_def durable_def on_disk_def persisted_def ready_def block_def)
  next
    case DurableP
    obtain img where img: "seal env candidate key salt kdf (po_nonce io) = Inr img"
        "map_of (final_dir (dv_dir v) dirs) state_name = Some img" "st_current_image st' = Some img"
        "st_key st' = key" "st_salt st' = salt" "st_kdf st' = kdf"
        "st_persisted_last_time st' = app_last_time candidate" "st_persisted_frozen st' = app_clock_frozen candidate"
        "\<not> st_blocked st' \<longrightarrow> no_gate (final_dir (dv_dir v) dirs)"
      using outcomes(3) [OF DurableP] by blast
    have v': "res = Inr ()" "v' = v\<lparr>dv_store := st', dv_dir := final_dir (dv_dir v) dirs, dv_app := candidate,
        dv_frozen := st_blocked st'\<rparr>"
      using out DurableP by (simp_all add: settle_def pub Let_def)
    have len: "length img \<le> max_image"
      using seal_length [OF env img(1) _ nonce] keys by (simp add: keys_ok_def)
    have "unseal env img mnemonic' = Inr (candidate, key, salt, kdf)"
      using env keys nonce cand img(1) len
      by (intro sealed_opens) (simp_all add: environment_ok_def keys_ok_def)
    then show ?thesis
      using keys cand img len persisted_self [of st' candidate]
      by (auto simp: v' durable_def on_disk_def persisted_def ready_def)
  qed
qed

section \<open>Commits\<close>

text \<open>A commit in step with the clock: the flags agree and the stored time is recent.\<close>

definition in_step :: "vault \<Rightarrow> bool" where
  "in_step v \<longleftrightarrow> app_clock_frozen (dv_app v) = st_persisted_frozen (dv_store v)
     \<and> \<not> clock_due (st_persisted_last_time (dv_store v)) (app_last_time (dv_app v))"

lemma clock_due_same [simp]: "\<not> clock_due t t"
  by (simp add: clock_due_def sat_sub_def time_min_def time_max_def clock_persist_interval_def split: option.split)

lemma clock_only_frozen:
  assumes "json_correct js" and "clock_only_difference ext js a b = Inr True"
  shows "app_clock_frozen a = app_clock_frozen b"
proof -
  let ?high = "max_time (app_last_time a) (app_last_time b)"
  let ?a = "a\<lparr>app_last_time := ?high, app_generation := 1\<rparr>" and ?b = "b\<lparr>app_last_time := ?high, app_generation := 1\<rparr>"
  obtain bytes where "encode ext js ?a = Inr bytes" "encode ext js ?b = Inr bytes"
    using assms(2) by (auto simp: clock_only_difference_def Let_def split: sum.splits)
  from arg_cong [OF encode_inject [OF assms(1) this], of sn_clock_frozen] show ?thesis
    by (simp add: snapshot_of_def)
qed

lemma commit_branches:
  assumes com: "commit env v candidate io = (res, v')"
  obtains (unchanged) e where "res = Inl e" "v' = v"
    | (clock) "clock_only_difference (en_ext env) (en_json env) (dv_app v) candidate = Inr True" "res = Inr ()"
      "\<not> clock_due (st_persisted_last_time (dv_store v)) (app_last_time candidate)"
      "app_clock_frozen candidate = st_persisted_frozen (dv_store v)"
      "v' = v\<lparr>dv_app := (dv_app v)\<lparr>app_last_time := app_last_time candidate\<rparr>\<rparr>"
    | (publish) g where "settle v (candidate\<lparr>app_generation := g\<rparr>)
        (publish_with env (dv_store v) (dv_dir v) (candidate\<lparr>app_generation := g\<rparr>) (st_key (dv_store v))
          (st_salt (dv_store v)) (st_kdf (dv_store v)) io) = (res, v')"
proof (cases "ready v")
  case (Inl e)
  then have "res = Inl e" "v' = v" using com by (simp_all add: commit_def)
  then show ?thesis by (rule unchanged)
next
  case ready: (Inr u)
  show ?thesis
  proof (cases "clock_only_difference (en_ext env) (en_json env) (dv_app v) candidate")
    case (Inl e)
    then have "res = Inl e" "v' = v" using com ready by (simp_all add: commit_def)
    then show ?thesis by (rule unchanged)
  next
    case (Inr c)
    show ?thesis
    proof (cases "c \<and> \<not> clock_due (st_persisted_last_time (dv_store v)) (app_last_time candidate)
        \<and> app_clock_frozen candidate = st_persisted_frozen (dv_store v)")
      case True
      then show ?thesis using com ready Inr clock by (auto simp: commit_def)
    next
      case False
      note com' = com [unfolded commit_def ready Inr sum.case if_not_P [OF False]]
      show ?thesis
        using com' [symmetric] unchanged publish
        by (cases "checked_inc (app_generation (dv_app v))") (auto simp: publish_def Let_def split: sum.splits)
    qed
  qed
qed

lemma commit_durable:
  assumes env: "environment_ok env" and io: "io_ok io" and v: "durable env mnemonic v"
    and cand: "storable candidate" and com: "commit env v candidate io = (res, v')"
  shows "case res of
      Inr _ \<Rightarrow> durable env mnemonic v' \<and> in_step v' \<and> app_deliveries (dv_app v') = app_deliveries candidate
    | Inl e \<Rightarrow> durable env mnemonic v' \<and> dv_app v' = dv_app v
        \<and> (ready v' = Inr () \<longrightarrow> ready v = Inr () \<and> dv_store v' = dv_store v)"
proof -
  have json: "json_correct (en_json env)" using env by (simp add: environment_ok_def)
  from com show ?thesis
  proof (cases rule: commit_branches)
    case unchanged
    then show ?thesis using v by simp
  next
    case clock
    have "durable env mnemonic v'"
      unfolding clock(5) by (rule durable_clock [OF v]) simp
    moreover have "in_step v'"
      using clock(3,4) clock_only_frozen [OF json clock(1)] by (simp add: in_step_def clock(5))
    ultimately show ?thesis
      using clock(2,5) clock_only_deliveries [OF json clock(1)] by simp
  next
    case publish
    from settle_durable [OF env io v _ durableD(2) [OF v] this] cand show ?thesis
      by (cases res) (auto simp: in_step_def)
  qed
qed

section \<open>Operations\<close>

definition owner_ok :: "environment \<Rightarrow> string \<Rightarrow> vault \<Rightarrow> bool" where
  "owner_ok env mnemonic v \<longleftrightarrow> durable env mnemonic v
     \<and> (ready v = Inr () \<longrightarrow> in_step v \<and> settled None (dv_app v))"

lemma owner_okD:
  assumes "owner_ok env mnemonic v"
  shows "durable env mnemonic v" "ready v = Inr () \<Longrightarrow> in_step v" "ready v = Inr () \<Longrightarrow> settled None (dv_app v)"
  using assms by (simp_all add: owner_ok_def)

lemma owner_ok_failed:
  assumes "owner_ok env mnemonic v" and "durable env mnemonic v'" and "dv_app v' = dv_app v"
    and "ready v' = Inr () \<longrightarrow> ready v = Inr () \<and> dv_store v' = dv_store v"
  shows "owner_ok env mnemonic v'"
  using assms by (simp add: owner_ok_def in_step_def)

lemma owner_ok_frozen: "durable env mnemonic v \<Longrightarrow> owner_ok env mnemonic (v\<lparr>dv_frozen := True\<rparr>)"
  by (simp add: owner_ok_def durable_freeze ready_def)

lemma owner_ok_not_ready: "durable env mnemonic v \<Longrightarrow> ready v = Inl e \<Longrightarrow> owner_ok env mnemonic v"
  by (simp add: owner_ok_def)

text \<open>One application of an operation: refused with the state as it was, or committed.\<close>

lemma apply_op_outcome:
  assumes env: "environment_ok env" and io: "io_ok io" and v: "durable env mnemonic v"
    and s: "ready v = Inr () \<Longrightarrow> settled attempt (dv_app v)"
    and keeps: "\<And>a. settled attempt a \<Longrightarrow> storable (snd (operation a))"
    and out: "apply_op env v operation io = (res, v')"
  obtains (failed) e where "res = Inl e" "durable env mnemonic v'" "dv_app v' = dv_app v"
      "ready v' = Inr () \<longrightarrow> ready v = Inr () \<and> dv_store v' = dv_store v"
    | (committed) a where "settled attempt a" "res = fst (operation a)" "durable env mnemonic v'" "in_step v'"
      "app_deliveries (dv_app v') = app_deliveries (snd (operation a))"
proof (cases "ready v")
  case (Inl e)
  then have "res = Inl e" "v' = v" using out by (simp_all add: apply_op_def)
  then show ?thesis using v by (intro failed) simp_all
next
  case (Inr u)
  define a where "a = (if should_compact (dv_app v) then compact (dv_app v) else dv_app v)"
  have a: "settled attempt a" using s Inr compact_settled by (simp add: a_def)
  obtain c v2 where c: "commit env v (snd (operation a)) io = (c, v2)" by fastforce
  have out': "(res, v') = (case c of Inl e \<Rightarrow> (Inl e, v2) | Inr _ \<Rightarrow> (fst (operation a), v2))"
    using out c unfolding apply_op_def Inr sum.case Let_def a_def [symmetric]
    by (cases "operation a"; cases c) simp_all
  note d = commit_durable [OF env io v keeps [OF a] c]
  show ?thesis
  proof (cases c)
    case (Inl e)
    then show ?thesis using d out' by (intro failed) simp_all
  next
    case (Inr u)
    then show ?thesis using d out' by (intro committed [OF a]) simp_all
  qed
qed

lemma durable_settled:
  assumes "durable env mnemonic v" and "open_only attempt app" and "app_deliveries (dv_app v) = app_deliveries app"
  shows "settled attempt (dv_app v)"
  using durableD(1) [OF assms(1)] assms(2,3) by (simp add: settled_def open_only_def)

context settled_operation
begin

lemma apply_ok:
  assumes "environment_ok env" and "io_ok io" and ok: "owner_ok env mnemonic v"
    and "apply_op env v operation io = (res, v')"
  shows "owner_ok env mnemonic v'"
proof (rule apply_op_outcome [OF assms(1,2) owner_okD(1) [OF ok] owner_okD(3) [OF ok] _ assms(4)])
  show "storable (snd (operation a))" if "settled None a" for a
    using settledD(4) [OF keeps [OF that]] .
  show "owner_ok env mnemonic v'"
    if "durable env mnemonic v'" "dv_app v' = dv_app v"
      "ready v' = Inr () \<longrightarrow> ready v = Inr () \<and> dv_store v' = dv_store v"
    using owner_ok_failed [OF ok that] .
  show "owner_ok env mnemonic v'"
    if "settled None a" "durable env mnemonic v'" "in_step v'"
      "app_deliveries (dv_app v') = app_deliveries (snd (operation a))" for a
    using durable_settled [OF that(2) settledD(3) [OF keeps [OF that(1)]] that(4)] that(2,3)
    by (simp add: owner_ok_def)
qed

end

section \<open>Private use and rekeying\<close>

text \<open>A step that closes the open attempt, or freezes the owner.\<close>

lemma apply_or_freeze_ok:
  assumes env: "environment_ok env" and io: "io_ok io" and v: "durable env mnemonic v"
    and s: "settled (Some attempt) (dv_app v)"
    and tables: "\<And>a. settled (Some attempt) a \<Longrightarrow> storable (snd (operation a))"
    and closes: "\<And>a a'. settled (Some attempt) a \<Longrightarrow> operation a = (Inr (), a') \<Longrightarrow> settled None a'"
    and out: "apply_or_freeze env v operation io = (res, v')"
  shows "owner_ok env mnemonic v'"
proof -
  obtain r v2 where r: "apply_op env v operation io = (r, v2)" by fastforce
  show ?thesis
  proof (cases r)
    case (Inl e)
    have "durable env mnemonic v2"
      by (rule apply_op_outcome [OF env io v s tables r]) simp_all
    then show ?thesis using out r Inl owner_ok_frozen by (auto simp: apply_or_freeze_def)
  next
    case (Inr u)
    have v': "v' = v2" using out r Inr by (simp add: apply_or_freeze_def)
    show ?thesis
    proof (rule apply_op_outcome [OF env io v s tables r])
      show "owner_ok env mnemonic v'" if "r = Inl e" for e using that Inr by simp
      fix a
      assume a: "settled (Some attempt) a" "r = fst (operation a)" "durable env mnemonic v2" "in_step v2"
        "app_deliveries (dv_app v2) = app_deliveries (snd (operation a))"
      have "settled None (snd (operation a))"
        using closes [OF a(1), of "snd (operation a)"] a(2) Inr by (simp add: prod_eq_iff)
      from durable_settled [OF a(3) settledD(3) [OF this] a(5)] show "owner_ok env mnemonic v'"
        using a(3,4) by (simp add: owner_ok_def v')
    qed simp_all
  qed
qed

lemma finish_use_tables:
  assumes "settled (Some attempt) app"
  shows "storable (snd (finish_use ctx tid request attempt status at app))"
  using close_settled [OF assms, of "\<lambda>d. d\<lparr>da_status := Some status\<rparr>"] settledD(4) [OF assms]
  by (auto simp: finish_use_def Let_def settledD split: option.split)

lemma reject_use_tables:
  assumes "settled (Some attempt) app"
  shows "storable (snd (reject_use request attempt app))"
proof -
  let ?app = "app\<lparr>app_deliveries := bt_modify attempt
     (\<lambda>d. d\<lparr>da_dispatched := False, da_status := Some DRejected\<rparr>) (app_deliveries app)\<rparr>"
  have "settled None ?app" "settled None (set_signup (pu_record request) SPending ?app)"
    using close_settled [OF assms] by simp_all
  from settledD(4) [OF this(1)] settledD(4) [OF this(2)] settledD(4) [OF assms] show ?thesis
    by (simp add: reject_use_def Let_def split: option.split)
qed

lemma clock_same: "clock app now = (res, app') \<Longrightarrow> same_but_clock app app'"
  by (auto simp: clock_def split: sum.splits if_splits)

lemma authorize_handoff_clock:
  assumes "authorize_handoff ctx tid request now app = (res, app')"
  shows "same_but_clock app app'"
proof -
  obtain r a where c: "clock app now = (r, a)" by fastforce
  have "app' = a" using assms by (auto simp: authorize_handoff_def c split: sum.splits)
  then show ?thesis using clock_same [OF c] by simp
qed

lemma settled_same_but_clock: "same_but_clock a b \<Longrightarrow> settled attempt a \<Longrightarrow> settled attempt b"
  by (simp add: settled_def storable_def open_only_def same_but_clock_fields)

text \<open>After the intent was stored: the handoff check, then the rejection or the outcome.\<close>

lemma after_intent_ok:
  assumes env: "environment_ok env" and io: "io_ok io" and v: "durable env mnemonic v"
    and s: "settled (Some attempt) (dv_app v)"
    and h: "authorize_handoff ctx tid request now (dv_app v) = (res, app)"
  shows "owner_ok env mnemonic (snd (apply_or_freeze env (v\<lparr>dv_app := app\<rparr>) (reject_use request attempt) io))"
    and "owner_ok env mnemonic
      (snd (deliver_and_store env (v\<lparr>dv_app := app\<rparr>) ctx tid request attempt values at deliver io))"
proof -
  have app: "durable env mnemonic (v\<lparr>dv_app := app\<rparr>)" "settled (Some attempt) (dv_app (v\<lparr>dv_app := app\<rparr>))"
    using durable_clock [OF v] settled_same_but_clock [OF _ s] authorize_handoff_clock [OF h] by simp_all
  note close = apply_or_freeze_ok [OF env io app]
  show "owner_ok env mnemonic (snd (apply_or_freeze env (v\<lparr>dv_app := app\<rparr>) (reject_use request attempt) io))"
    by (rule close [OF reject_use_tables reject_use_settled surjective_pairing])
  have "owner_ok env mnemonic
      (snd (apply_or_freeze env (v\<lparr>dv_app := app\<rparr>) (finish_use ctx tid request attempt status at) io))" for status
    by (rule close [OF finish_use_tables finish_use_settled surjective_pairing])
  then show "owner_ok env mnemonic
      (snd (deliver_and_store env (v\<lparr>dv_app := app\<rparr>) ctx tid request attempt values at deliver io))"
    by (auto simp: deliver_and_store_def Let_def split: prod.split sum.split) (metis snd_conv)+
qed

lemma use_secret_ok:
  assumes env: "environment_ok env" and io: "io_ok io1" "io_ok io2" and ok: "owner_ok env mnemonic v"
    and use: "use_secret env v ctx tid request now1 now2 deliver attempt io1 io2 = (res, v', handed)"
  shows "owner_ok env mnemonic v'"
proof (cases "ex_use_json (en_ext env) request")
  case None
  then show ?thesis using use ok by (simp add: use_secret_def)
next
  case (Some bytes)
  let ?prep = "prepare_use ctx tid request (ex_sha256 (en_ext env) bytes) attempt now1"
  obtain r v1 where r: "apply_op env v ?prep io1 = (r, v1)" by fastforce
  have prep: "settled (Some attempt) (snd (?prep a)) \<and> (fst (?prep a) \<noteq> Inr None \<longrightarrow> settled None (snd (?prep a)))"
    if "settled None a" for a
    using prepare_use_settled [OF surjective_pairing that] .
  have v1: "durable env mnemonic v1 \<and> (r \<noteq> Inr None \<longrightarrow> owner_ok env mnemonic v1)
      \<and> (r = Inr None \<longrightarrow> settled (Some attempt) (dv_app v1))"
  proof (rule apply_op_outcome [OF env io(1) owner_okD(1) [OF ok] owner_okD(3) [OF ok] _ r])
    show "storable (snd (?prep a))" if "settled None a" for a
      using settledD(4) prep [OF that] by blast
    show ?thesis
      if "r = Inl e" "durable env mnemonic v1" "dv_app v1 = dv_app v"
        "ready v1 = Inr () \<longrightarrow> ready v = Inr () \<and> dv_store v1 = dv_store v" for e
      using that owner_ok_failed [OF ok that(2-4)] by simp
    show ?thesis
      if a: "settled None a" "r = fst (?prep a)" "durable env mnemonic v1" "in_step v1"
        "app_deliveries (dv_app v1) = app_deliveries (snd (?prep a))" for a
      using prep [OF a(1)] durable_settled [OF a(3) settledD(3) a(5)] a(2-4) by (auto simp: owner_ok_def)
  qed
  show ?thesis
  proof (cases "r = Inr None")
    case False
    then show ?thesis
      using use v1 by (auto simp: use_secret_def Some Let_def r split: sum.splits option.splits)
  next
    case True
    show ?thesis
    proof (cases "ready v1")
      case (Inl e)
      then show ?thesis
        using use v1 owner_ok_not_ready by (auto simp: use_secret_def Some Let_def r True)
    next
      case (Inr u)
      obtain h app where h: "authorize_handoff ctx tid request now2 (dv_app v1) = (h, app)" by fastforce
      have d: "durable env mnemonic v1" "settled (Some attempt) (dv_app v1)" using v1 True by simp_all
      note after = after_intent_ok [OF env io(2) d h]
      have rejected: "owner_ok env mnemonic v2"
        if "apply_or_freeze env (v1\<lparr>dv_app := app\<rparr>) (reject_use request attempt) io2 = (x, v2)" for x v2
        using after(1) that by simp
      have delivered: "owner_ok env mnemonic v2"
        if "deliver_and_store env (v1\<lparr>dv_app := app\<rparr>) ctx tid request attempt vals eff deliver io2 = (x, v2)"
        for vals eff x v2
        using after(2) [of vals eff deliver] that by simp
      show ?thesis
        using use rejected delivered
        by (cases h) (auto simp: use_secret_def Some Let_def r True Inr h split: prod.splits sum.splits)
    qed
  qed
qed

lemma rekey_ok:
  assumes env: "environment_ok env" and io: "io_ok io" and ok: "owner_ok env mnemonic v" and salt: "length salt = salt_len"
    and re: "rekey env v admin new salt io = (res, v')"
  shows "owner_ok env (case res of Inl _ \<Rightarrow> mnemonic | Inr _ \<Rightarrow> new) v'"
proof -
  consider (unchanged) e where "res = Inl e" "v' = v"
    | (settled) candidate key g p where "ready v = Inr ()"
        "candidate = (dv_app v)\<lparr>app_generation := g, app_predecessor := p\<rparr>"
        "derive_key (en_crypto env) new salt kdf_current = Inr key"
        "settle v candidate (publish_with env (dv_store v) (dv_dir v) candidate key salt kdf_current io) = (res, v')"
    using re [symmetric]
    by (auto simp: rekey_def Let_def split: sum.splits option.splits)
  then show ?thesis
  proof cases
    case unchanged
    then show ?thesis using ok by simp
  next
    case (settled candidate key g p)
    have keys: "keys_ok env new key salt kdf_current"
      using env settled(3) salt
      by (simp add: keys_ok_def environment_ok_def validated_def kdf_current_def sat_mul8_def Let_def)
    have cand: "storable candidate" using settled(2) durableD(1) [OF owner_okD(1) [OF ok]] by simp
    note out = settle_durable [OF env io owner_okD(1) [OF ok] cand keys settled(4)]
    show ?thesis
    proof (cases res)
      case (Inl e)
      then show ?thesis using out owner_ok_failed [OF ok] by simp
    next
      case (Inr u)
      have "open_only None (dv_app v)" using owner_okD(3) [OF ok settled(1)] settledD(3) by blast
      then have "settled None candidate" using cand settled(2) by (simp add: settled_def open_only_def)
      then show ?thesis using out Inr by (simp add: owner_ok_def in_step_def)
    qed
  qed
qed

section \<open>Creation and opening\<close>

lemma create_ok:
  assumes env: "environment_ok env" and io: "io_ok io" and app: "storable app" "\<not> unfinished app"
    and salt: "length salt = salt_len"
    and c: "create_from_app env dir lock gate_failed mnemonic salt app io = (Inr v, dir')"
  shows "owner_ok env mnemonic v"
proof -
  obtain key where key: "derive_key (en_crypto env) mnemonic salt kdf_current = Inr key"
    using c by (auto simp: create_from_app_def split: sum.splits option.splits)
  let ?st = "\<lparr>st_key = key, st_salt = salt, st_kdf = kdf_current, st_current_image = None,
     st_blocked = False, st_persisted_last_time = None, st_persisted_frozen = False\<rparr>"
  obtain result st' dirs where pub: "publish_with env ?st dir app key salt kdf_current io = (result, st', dirs)"
    by (cases "publish_with env ?st dir app key salt kdf_current io") auto
  have res: "result = DurableP" "v = \<lparr>dv_app = app, dv_store = st', dv_frozen = st_blocked st',
      dv_dir = final_dir dir dirs\<rparr>"
    using c pub key
    by (auto simp: create_from_app_def publish_def Let_def split: sum.splits option.splits publication.splits)
  have temp: "temp_ok io" and nonce: "length (po_nonce io) = nonce_len" using io by (simp_all add: io_ok_def)
  obtain img where img: "seal env app key salt kdf_current (po_nonce io) = Inr img"
      "map_of (final_dir dir dirs) state_name = Some img" "st_current_image st' = Some img"
      "st_key st' = key" "st_salt st' = salt" "st_kdf st' = kdf_current"
      "st_persisted_last_time st' = app_last_time app" "st_persisted_frozen st' = app_clock_frozen app"
      "\<not> st_blocked st' \<longrightarrow> no_gate (final_dir dir dirs)"
    using publish_outcomes(3) [OF pub temp res(1)] by blast
  have keys: "keys_ok env mnemonic key salt kdf_current"
    using env key salt
    by (simp add: keys_ok_def environment_ok_def validated_def kdf_current_def sat_mul8_def Let_def)
  have len: "length img \<le> max_image" using seal_length [OF env img(1) salt nonce] .
  have "unseal env img mnemonic = Inr (app, key, salt, kdf_current)"
    using env keys nonce app(1) img(1) len
    by (intro sealed_opens) (simp_all add: environment_ok_def keys_ok_def)
  then show ?thesis
    using keys img len app persisted_self [of st' app] unfinished_iff [of app]
    by (auto simp: res owner_ok_def durable_def on_disk_def persisted_def ready_def in_step_def settled_def)
qed

lemma no_gate_pending: "pending_exists dir failed = Inr False \<longleftrightarrow> \<not> failed \<and> no_gate dir"
  by (auto simp: pending_exists_def gate_exists_def bt_contains_def no_gate_def)

lemma unfinished_persisted [simp]: "unfinished (persisted v) = unfinished (dv_app v)"
  by (simp add: unfinished_def persisted_def)

text \<open>What opening the directory of an owner gives, gate or not.\<close>

lemma open_durable:
  assumes v: "durable env mnemonic v"
  shows "open_vault env (dv_dir v) Locked False mnemonic =
     (if no_gate (dv_dir v) \<and> \<not> unfinished (dv_app v)
      then Inr \<lparr>dv_app = persisted v, dv_store = (dv_store v)\<lparr>st_blocked := False\<rparr>, dv_frozen = False, dv_dir = dv_dir v\<rparr>
      else Inl RecoveryRequired)"
proof (cases "no_gate (dv_dir v)")
  case False
  then show ?thesis
    by (auto simp: open_vault_def open_image_def acquire_def acquire_recovery_def pending_exists_def gate_exists_def
        bt_contains_def no_gate_def)
next
  case True
  then obtain img where img: "st_current_image (dv_store v) = Some img" "map_of (dv_dir v) state_name = Some img"
      "length img \<le> max_image"
      "unseal env img mnemonic = Inr (persisted v, st_key (dv_store v), st_salt (dv_store v), st_kdf (dv_store v))"
    using durableD(4) [OF v] by (auto simp: on_disk_def)
  have acq: "acquire (dv_dir v) Locked False = Inr ()"
    using True no_gate_pending [of "dv_dir v" False] by (simp add: acquire_def acquire_recovery_def)
  have st: "(dv_store v)\<lparr>st_blocked := False\<rparr> = \<lparr>st_key = st_key (dv_store v), st_salt = st_salt (dv_store v),
      st_kdf = st_kdf (dv_store v), st_current_image = Some img, st_blocked = False,
      st_persisted_last_time = app_last_time (persisted v), st_persisted_frozen = app_clock_frozen (persisted v)\<rparr>"
    using img(1) by (cases "dv_store v") (simp add: persisted_def)
  show ?thesis
    using True img unfolding st by (simp add: open_vault_def open_image_def acq read_image_def)
qed

lemma reopen_ok:
  assumes ok: "owner_ok env mnemonic v" and o: "open_vault env (dv_dir v) lock gate_failed mnemonic = Inr v'"
  shows "owner_ok env mnemonic v'"
proof -
  have "lock = Locked" "\<not> gate_failed"
    using o by (cases lock; cases gate_failed;
      simp add: open_vault_def open_image_def acquire_def acquire_recovery_def pending_exists_def)+
  with o open_durable [OF owner_okD(1) [OF ok]] have v': "no_gate (dv_dir v)" "\<not> unfinished (dv_app v)"
      "v' = \<lparr>dv_app = persisted v, dv_store = (dv_store v)\<lparr>st_blocked := False\<rparr>, dv_frozen = False, dv_dir = dv_dir v\<rparr>"
    by (simp_all split: if_splits)
  have "settled None (dv_app v)"
    using durableD(1) [OF owner_okD(1) [OF ok]] v'(2) by (simp add: settled_def unfinished_iff)
  then show ?thesis
    using v'(1,2) owner_okD(1) [OF ok]
    by (auto simp: v'(3) owner_ok_def durable_def on_disk_def persisted_def in_step_def settled_def open_only_def)
qed

end
