(* ===== verification/Recovery_Durable.thy ===== *)
theory Recovery_Durable
  imports Owner_Durable Recovery_Properties
begin

text \<open>
  What a recovery leaves behind: whatever the directory held and however the installation of the
  recovered image went, a recovery that reports success has written a sanitised state that was
  stored before, and left a directory that opens to it. A restored backup begins a life of an owner.
\<close>

section \<open>States that come from an image\<close>

lemma load_entries_keeps_wf: "load_entries es m = Some m' \<Longrightarrow> bt_wf m \<Longrightarrow> bt_wf m'"
  by (induction es m rule: load_entries.induct) (auto split: if_splits)

lemma decode_tables: "decode ext js bytes = Inr app \<Longrightarrow> tables_wf app"
  by (auto simp: decode_def application_of_def tables_wf_def split: if_splits option.splits sum.splits
      Option.bind_splits intro: load_entries_keeps_wf [OF _ bt_wf_Nil])

lemma unseal_facts:
  assumes "unseal env img mnemonic = Inr (app, key, salt, kdf)"
  shows "keys_ok env mnemonic key salt kdf" "length img \<le> max_image" "tables_wf app"
proof -
  obtain p plaintext where p: "parse_image (en_crypto env) img = Some p" "salt = pi_salt p" "kdf = pi_kdf p"
      "derive_key (en_crypto env) mnemonic (pi_salt p) (pi_kdf p) = Inr key"
      "decode (en_ext env) (en_json env) plaintext = Inr app"
    using assms by (auto simp: unseal_def split: option.splits sum.splits)
  show "keys_ok env mnemonic key salt kdf" "length img \<le> max_image"
    using parse_image_Some [OF p(1)] p(2-4) by (simp_all add: keys_ok_def)
  show "tables_wf app" by (rule decode_tables [OF p(5)])
qed

lemma keys_ok_unique: "keys_ok env mnemonic key salt kdf \<Longrightarrow> keys_ok env mnemonic key' salt kdf \<Longrightarrow> key' = key"
  by (simp add: keys_ok_def)

text \<open>A valid state is determined by its snapshot, and so by its encoding.\<close>

lemma snapshot_of_inj:
  assumes "validates ext a" and "validates ext b" and "snapshot_of a = snapshot_of b"
  shows "a = b"
proof -
  have tables: "app_tasks x = map (\<lambda>t. (tk_id t, t)) (sn_tasks (snapshot_of x))"
      "app_records x = map (\<lambda>r. (vr_id r, r)) (sn_records (snapshot_of x))" if "validates ext x" for x
    using validates_ids [OF that] by (simp_all add: snapshot_of_def)
  have "sorted_list_of_fset (app_revoked_tasks a) = sorted_list_of_fset (app_revoked_tasks b)"
    using assms(3) by (simp add: snapshot_of_def)
  then have "app_revoked_tasks a = app_revoked_tasks b"
    by (metis load_ids_sorted option.inject)
  moreover have "app_tasks a = app_tasks b" "app_records a = app_records b"
    by (simp_all only: tables [OF assms(1)] tables [OF assms(2)] assms(3))
  ultimately show ?thesis using assms(3) by (cases a; cases b) (simp add: snapshot_of_def)
qed

lemma encode_inj:
  assumes "json_correct js" and "encode ext js a = Inr bytes" and "encode ext js b = Inr bytes"
  shows "a = b"
proof (rule snapshot_of_inj)
  show "validates ext a" "validates ext b"
    using assms(2,3) by (auto simp: encode_def validate_def split: if_splits)
  show "snapshot_of a = snapshot_of b"
    using assms by (auto simp: encode_def json_correct_def split: sum.splits option.splits if_splits)
      (metis option.inject)
qed

section \<open>The sanitised state\<close>

lemma close_delivery_tables: "close_delivery did app = Some app' \<Longrightarrow> tables_wf app \<Longrightarrow> tables_wf app'"
  by (auto simp: close_delivery_def tables_wf_def Let_def split: option.splits if_splits)

lemma close_deliveries_tables: "close_deliveries dids app = Some app' \<Longrightarrow> tables_wf app \<Longrightarrow> tables_wf app'"
  by (induction dids arbitrary: app) (auto split: option.splits dest: close_delivery_tables)

lemma sanitize_tables:
  assumes "sanitize ext app now = Inr app'" and "tables_wf app"
  shows "tables_wf app'"
proof -
  obtain generation mid where mid:
      "close_deliveries (bt_keys (app_deliveries app)) (revoke_everything (app\<lparr>app_generation := generation\<rparr>)) = Some mid"
      "app' = mid\<lparr>app_clock_frozen := False, app_last_time := Some now, app_predecessor := None\<rparr>"
    using assms(1)
    by (auto simp: sanitize_def Let_def validate_def revoke_everything_def split: option.splits if_splits)
  have "tables_wf (revoke_everything (app\<lparr>app_generation := generation\<rparr>))"
    using assms(2) by (simp add: tables_wf_def revoke_everything_def)
  from close_deliveries_tables [OF mid(1) this] show ?thesis by (simp add: mid(2) tables_wf_def)
qed

lemma sanitize_settles:
  assumes "sanitize ext app now = Inr app'" and "tables_wf app"
  shows "powerless app'" "open_only None app'" "\<not> app_clock_frozen app'"
  using sanitized_vault_is_powerless [OF assms(1), of undefined] assms(2) unfinished_iff [of app']
  by (simp_all add: tables_wf_def)

section \<open>The files of a recovery\<close>

lemma install_file_done:
  assumes "install_file name bytes io dir = (True, dir')"
  shows "map_of dir' = (map_of dir)(in_temp io := None, name \<mapsto> bytes)"
  using assms
  by (auto simp: install_file_def move_file_def fun_eq_iff Let_def split: io_write.splits io_rename.splits)

lemma clear_gates_done:
  assumes "clear_gates dir has_pending io = (True, dir')" and "has_pending \<or> map_of dir pending_name = None"
  shows "no_gate dir'" "map_of dir' state_name = map_of dir state_name"
  using assms
  by (auto simp: clear_gates_def no_gate_def Let_def state_name_def pending_name_def recovery_name_def
      split: if_splits)

text \<open>The images that a directory holds: the state file and the two parts of each gate file.\<close>

definition gate_image :: "directory \<Rightarrow> string \<Rightarrow> u8 list \<Rightarrow> bool" where
  "gate_image dir name img \<longleftrightarrow> (case read_gate dir name of Inl _ \<Rightarrow> False | Inr (prev, nxt) \<Rightarrow> img = prev \<or> img = nxt)"

definition held_image :: "directory \<Rightarrow> u8 list \<Rightarrow> bool" where
  "held_image dir img \<longleftrightarrow>
     map_of dir state_name = Some img \<or> gate_image dir pending_name img \<or> gate_image dir recovery_name img"

lemma gate_image_kept:
  assumes "gate_image dir' name img" and "map_of dir' name = None \<or> map_of dir' name = map_of dir name"
  shows "gate_image dir name img"
  using assms by (auto simp: gate_image_def read_gate_def)

lemma held_image_kept:
  assumes "held_image dir' img" and "\<And>name. name \<noteq> state_name \<Longrightarrow> map_of dir' name = None \<or> map_of dir' name = map_of dir name"
    and "map_of dir' state_name = Some img \<Longrightarrow> held_image dir img"
  shows "held_image dir img"
  using assms(1,3) gate_image_kept assms(2) unfolding held_image_def
  by (metis names_distinct(4,5))

lemma adopt_rekeyed_done:
  assumes "adopt_rekeyed env dir mnemonic admin img io = (Inr x, dir')"
  shows "dir' = dir \<or> (\<exists>prev nxt. read_gate dir pending_name = Inr (prev, nxt)
    \<and> map_of dir' = (map_of dir)(in_temp io := None, state_name \<mapsto> nxt))"
  using assms
  by (auto simp: adopt_rekeyed_def split: if_splits sum.splits prod.splits dest: install_file_done)

lemma adopt_keeps_held:
  assumes "adopt_rekeyed env dir mnemonic admin img io = (Inr x, dir')" and "held_image dir' other"
  shows "held_image dir other"
  using adopt_rekeyed_done [OF assms(1)]
proof
  assume "\<exists>prev nxt. read_gate dir pending_name = Inr (prev, nxt)
    \<and> map_of dir' = (map_of dir)(in_temp io := None, state_name \<mapsto> nxt)"
  then obtain prev nxt where gate: "read_gate dir pending_name = Inr (prev, nxt)"
      and dir': "map_of dir' = (map_of dir)(in_temp io := None, state_name \<mapsto> nxt)" by blast
  show ?thesis
    by (rule held_image_kept [OF assms(2)]) (auto simp: dir' held_image_def gate_image_def gate)
qed (use assms(2) in simp)

lemma absent_initial_held: "absent_initial_image env dir mnemonic = Inr img \<Longrightarrow> gate_image dir pending_name img"
  by (auto simp: absent_initial_image_def gate_image_def split: sum.splits if_splits)

lemma visible_image_done:
  assumes "visible_image env dir mnemonic admin io = (Inr (visible, missing), dir')"
  shows "held_image dir' visible" "held_image dir' other \<Longrightarrow> held_image dir other"
proof -
  have "map_of dir' state_name = Some visible \<or> absent_initial_image env dir' mnemonic = Inr visible"
    using assms by (auto simp: visible_image_def Let_def read_image_def split: sum.splits option.splits if_splits prod.splits)
  then show "held_image dir' visible" using absent_initial_held unfolding held_image_def by blast
  show "held_image dir' other \<Longrightarrow> held_image dir other"
    using assms adopt_keeps_held
    by (fastforce simp: visible_image_def Let_def split: sum.splits option.splits prod.splits)
qed

section \<open>The recovered owner\<close>

text \<open>What a recovery installs: the sanitised form of a state that an image of the directory holds.\<close>

definition recovers_to ::
    "environment \<Rightarrow> directory \<Rightarrow> string \<Rightarrow> application \<Rightarrow> u8 list \<Rightarrow> u8 list \<Rightarrow> kdf_params \<Rightarrow> bool" where
  "recovers_to env dir mnemonic app' key salt kdf \<longleftrightarrow>
     (\<exists>img app at. held_image dir img \<and> unseal env img mnemonic = Inr (app, key, salt, kdf)
        \<and> sanitize (en_ext env) app at = Inr app')"

lemma planned_state_done:
  assumes env: "environment_ok env" and keys: "keys_ok env mnemonic key salt kdf"
    and p: "planned_state env dir mnemonic admin visible salt kdf = Inr (app', img)"
  shows "recovers_to env dir mnemonic app' key salt kdf" "unseal env img mnemonic = Inr (app', key, salt, kdf)"
proof -
  obtain base previous base_key target_key at bytes where gate: "read_gate dir recovery_name = Inr (base, img)"
      and un: "unseal env base mnemonic = Inr (previous, base_key, salt, kdf)"
        "unseal env img mnemonic = Inr (app', target_key, salt, kdf)"
      and san: "\<exists>expected. sanitize (en_ext env) previous at = Inr expected
        \<and> encode (en_ext env) (en_json env) expected = Inr bytes"
      and enc: "encode (en_ext env) (en_json env) app' = Inr bytes"
    using p by (auto simp: planned_state_def split: sum.splits prod.splits option.splits if_splits)
  have same: "base_key = key" "target_key = key"
    using keys_ok_unique [OF keys] unseal_facts(1) [OF un(1)] unseal_facts(1) [OF un(2)] by blast+
  then show "unseal env img mnemonic = Inr (app', key, salt, kdf)" using un(2) by simp
  have "sanitize (en_ext env) previous at = Inr app'"
    using san enc encode_inj env by (metis environment_ok_def)
  moreover have "held_image dir base" using gate by (simp add: held_image_def gate_image_def)
  ultimately show "recovers_to env dir mnemonic app' key salt kdf" using un(1) same by (auto simp: recovers_to_def)
qed

lemma fresh_state_done:
  assumes env: "environment_ok env" and held: "held_image dir visible"
    and un: "unseal env visible mnemonic = Inr (app, key, salt, kdf)"
    and f: "fresh_state env dir mnemonic app visible key salt kdf now io = (Inr (app', img), dir')"
    and "dated app'" and nonce: "length (ri_nonce io) = nonce_len"
  shows "recovers_to env dir mnemonic app' key salt kdf" "unseal env img mnemonic = Inr (app', key, salt, kdf)"
    "map_of dir pending_name = None \<Longrightarrow> map_of dir' pending_name = None"
proof -
  have parts: "sanitize (en_ext env) app now = Inr app'" "seal env app' key salt kdf (ri_nonce io) = Inr img"
      "\<exists>x. write_pair dir visible img (ri_plan io) = (Inr x, dir')"
    using f by (auto simp: fresh_state_def split: sum.splits prod.splits if_splits)
  note facts = unseal_facts [OF un]
  show "recovers_to env dir mnemonic app' key salt kdf" using held un parts(1) by (auto simp: recovers_to_def)
  have "storable app'" using sanitize_tables [OF parts(1) facts(3)] \<open>dated app'\<close> by (simp add: storable_iff)
  moreover have "length img \<le> max_image"
    using seal_length [OF env parts(2) _ nonce] facts(1) by (simp add: keys_ok_def)
  ultimately show "unseal env img mnemonic = Inr (app', key, salt, kdf)"
    using env nonce facts(1) parts(2) by (intro sealed_opens) (simp_all add: environment_ok_def keys_ok_def)
  show "map_of dir pending_name = None \<Longrightarrow> map_of dir' pending_name = None"
    using parts(3) by (auto simp: write_pair_def split: prod.splits if_splits dest: install_file_done)
qed

lemma recover_at_done:
  assumes env: "environment_ok env" and r: "recover_at env dir lock mnemonic admin now io = (Inr v, dir')"
    and "dated (dv_app v)" and nonce: "length (ri_nonce io) = nonce_len"
  obtains img key salt kdf where "recovers_to env dir mnemonic (dv_app v) key salt kdf"
    and "unseal env img mnemonic = Inr (dv_app v, key, salt, kdf)" and "map_of dir' state_name = Some img" and "no_gate dir'"
    and "v = \<lparr>dv_app = dv_app v, dv_store = \<lparr>st_key = key, st_salt = salt, st_kdf = kdf,
      st_current_image = Some img, st_blocked = False, st_persisted_last_time = app_last_time (dv_app v),
      st_persisted_frozen = app_clock_frozen (dv_app v)\<rparr>, dv_frozen = False, dv_dir = dir'\<rparr>"
proof -
  obtain visible missing dir1 app key salt kdf app' img dir2 dir3 where
      vis: "visible_image env dir mnemonic admin (ri_adopt io) = (Inr (visible, missing), dir1)"
      and un: "unseal env visible mnemonic = Inr (app, key, salt, kdf)"
      and plan: "(if gate_exists dir1 recovery_name
          then (planned_state env dir1 mnemonic admin visible salt kdf, dir1)
          else fresh_state env dir1 mnemonic app visible key salt kdf now io) = (Inr (app', img), dir2)"
      and inst: "install_file state_name img (ri_state io) dir2 = (True, dir3)"
      and clear: "clear_gates dir3 (gate_exists dir1 pending_name) io = (True, dir')"
      and v: "v = \<lparr>dv_app = app', dv_store = \<lparr>st_key = key, st_salt = salt, st_kdf = kdf,
        st_current_image = Some img, st_blocked = False, st_persisted_last_time = app_last_time app',
        st_persisted_frozen = app_clock_frozen app'\<rparr>, dv_frozen = False, dv_dir = dir'\<rparr>"
    using r by (auto simp: recover_at_def Let_def split: if_splits sum.splits prod.splits bool.splits)
  note held = visible_image_done(1) [OF vis]
  have planned: "recovers_to env dir1 mnemonic app' key salt kdf" "unseal env img mnemonic = Inr (app', key, salt, kdf)"
      "map_of dir1 pending_name = None \<Longrightarrow> map_of dir2 pending_name = None"
    using plan planned_state_done [OF env unseal_facts(1) [OF un]] fresh_state_done [OF env held un _ _ nonce] assms(3)
    by (auto simp: v split: if_splits)
  have "recovers_to env dir mnemonic app' key salt kdf"
    using planned(1) visible_image_done(2) [OF vis] unfolding recovers_to_def by blast
  moreover have "gate_exists dir1 pending_name \<or> map_of dir3 pending_name = None"
    using planned(3) install_file_done [OF inst] 
    by (cases "map_of dir1 pending_name") (auto simp: gate_exists_def bt_contains_def)
  from clear_gates_done [OF clear this]
  have "no_gate dir'" "map_of dir' state_name = Some img" using install_file_done [OF inst] by simp_all
  ultimately show thesis using that planned(2) v by simp
qed

text \<open>The recovered owner satisfies what every later operation keeps.\<close>

lemma recover_ok:
  assumes env: "environment_ok env" and r: "recover_at env dir lock mnemonic admin now io = (Inr v, dir')"
    and dated: "dated (dv_app v)" and nonce: "length (ri_nonce io) = nonce_len"
  shows "owner_ok env mnemonic v" "ready v = Inr ()"
proof -
  obtain img key salt kdf where to: "recovers_to env dir mnemonic (dv_app v) key salt kdf"
      and img: "unseal env img mnemonic = Inr (dv_app v, key, salt, kdf)" "map_of dir' state_name = Some img" "no_gate dir'"
      and v: "v = \<lparr>dv_app = dv_app v, dv_store = \<lparr>st_key = key, st_salt = salt, st_kdf = kdf,
        st_current_image = Some img, st_blocked = False, st_persisted_last_time = app_last_time (dv_app v),
        st_persisted_frozen = app_clock_frozen (dv_app v)\<rparr>, dv_frozen = False, dv_dir = dir'\<rparr>"
    using recover_at_done [OF assms] by metis
  note facts = unseal_facts [OF img(1)]
  have storable: "storable (dv_app v)" using facts(3) dated by (simp add: storable_iff)
  have settled: "settled None (dv_app v)"
    using to storable sanitize_settles(2) unseal_facts(3) by (auto simp: recovers_to_def settled_def)
  obtain app where app: "dv_app v = app" by simp
  show "ready v = Inr ()" by (subst v) (simp add: ready_def)
  show "owner_ok env mnemonic v"
    using storable settled facts(1,2) img persisted_self unfolding v [unfolded app]
    by (simp add: app owner_ok_def durable_def on_disk_def persisted_def in_step_def)
qed

text \<open>
  C7: Recovery is safe and durable. Whatever a crash left in the directory, a recovery that reports
  success has sanitised a state that an image in the directory held, the visible one or one that a gate
  file kept, under the seed phrase it was given. No task or grant of the recovered state has authority
  and no delivery is open. No gate file is left, and opening the directory afterwards gives exactly the
  recovered owner, with its keys and its image. The entries of the recovered state are supposed to have
  their times, which can fail only for a stored state of the old format without a clock.
\<close>

theorem recovery_is_durable:
  assumes "environment_ok env" and "recover_at env dir lock mnemonic admin now io = (Inr v, dir')"
    and "dated (dv_app v)" and "length (ri_nonce io) = nonce_len"
  shows "(\<exists>img app t. held_image dir img
        \<and> unseal env img mnemonic = Inr (app, st_key (dv_store v), st_salt (dv_store v), st_kdf (dv_store v))
        \<and> sanitize (en_ext env) app t = Inr (dv_app v))
    \<and> powerless (dv_app v) \<and> \<not> unfinished (dv_app v)
    \<and> no_gate dir' \<and> dv_dir v = dir' \<and> open_vault env dir' Locked False mnemonic = Inr v"
proof -
  obtain img key salt kdf where to: "recovers_to env dir mnemonic (dv_app v) key salt kdf" and gate: "no_gate dir'"
      and v: "v = \<lparr>dv_app = dv_app v, dv_store = \<lparr>st_key = key, st_salt = salt, st_kdf = kdf,
        st_current_image = Some img, st_blocked = False, st_persisted_last_time = app_last_time (dv_app v),
        st_persisted_frozen = app_clock_frozen (dv_app v)\<rparr>, dv_frozen = False, dv_dir = dir'\<rparr>"
    using recover_at_done [OF assms] by metis
  obtain app where app: "dv_app v = app" by simp
  have parts: "st_key (dv_store v) = key" "st_salt (dv_store v) = salt" "st_kdf (dv_store v) = kdf" "dv_dir v = dir'"
      "\<lparr>dv_app = persisted v, dv_store = (dv_store v)\<lparr>st_blocked := False\<rparr>, dv_frozen = False, dv_dir = dv_dir v\<rparr> = v"
    unfolding v [unfolded app] by (simp_all add: persisted_def)
  have closed: "powerless (dv_app v)" "\<not> unfinished (dv_app v)"
    using to sanitize_settles(1,2) unseal_facts(3) by (auto simp: recovers_to_def unfinished_iff)
  have "open_vault env (dv_dir v) Locked False mnemonic = Inr v"
    using closed(2) gate open_durable [OF owner_okD(1) [OF recover_ok(1) [OF assms]]]
    unfolding parts(5) by (simp add: parts(4))
  then show ?thesis using to closed gate by (simp add: parts(1-4) recovers_to_def)
qed

text \<open>A stored state whose clock is frozen, and its recovery.\<close>

definition ex_frozen_app :: application where
  "ex_frozen_app = ex_fresh_app\<lparr>app_last_time := Some 3, app_clock_frozen := True\<rparr>"

definition ex_recovered_app :: application where
  "ex_recovered_app = ex_fresh_app\<lparr>app_generation := 2, app_last_time := Some 5\<rparr>"

definition ex_recovery_env :: environment where
  "ex_recovery_env = ex_env\<lparr>
     en_json := \<lparr>js_encode = (\<lambda>s. if s = snapshot_of ex_fresh_app then Some [6]
                  else if s = snapshot_of ex_frozen_app then Some [7]
                  else if s = snapshot_of ex_recovered_app then Some [8] else None),
       js_decode = (\<lambda>b. if b = [6] then Some (snapshot_of ex_fresh_app)
                  else if b = [7] then Some (snapshot_of ex_frozen_app)
                  else if b = [8] then Some (snapshot_of ex_recovered_app) else None)\<rparr>,
     en_crypto := (en_crypto ex_env)\<lparr>
       cr_aead_encrypt := (\<lambda>_ _ p _. Some (p @ replicate 16 0)),
       cr_aead_decrypt := (\<lambda>_ _ c _. if length c < 16 then None else Some (take (length c - 16) c))\<rparr>\<rparr>"

definition ex_install :: install_io where
  "ex_install = \<lparr>in_temp = ''temp.v2'', in_write = Wrote, in_rename = Renamed, in_sync = True\<rparr>"

definition ex_recover_io :: recover_io where
  "ex_recover_io = \<lparr>ri_adopt = ex_install, ri_plan = ex_install, ri_state = ex_install,
     ri_nonce = replicate 12 0, ri_unlink_pending = True, ri_pending_sync = True, ri_unlink_plan = True,
     ri_plan_sync = True\<rparr>"

lemma ex_recovery_apps:
  "storable ex_frozen_app" "validates ext ex_frozen_app" "validates ext ex_recovered_app" "dated ex_recovered_app"
  "snapshot_of ex_frozen_app \<noteq> snapshot_of ex_recovered_app" "snapshot_of ex_fresh_app \<noteq> snapshot_of ex_frozen_app"
  "snapshot_of ex_fresh_app \<noteq> snapshot_of ex_recovered_app" "sanitize ext ex_frozen_app 5 = Inr ex_recovered_app"
  "prepare_restored ext ex_fresh_app ex_admin 5 = Inr ex_recovered_app" "\<not> unfinished ex_recovered_app"
  by (simp_all add: ex_frozen_app_def ex_recovered_app_def ex_fresh_app_def default_application_def storable_def
      dated_def validate_def validates_def within_limits_def limit_def empty_history_def fcard.rep_eq bt_values_def
      snapshot_of_def sanitize_def checked_inc_def revoke_everything_def bt_keys_def bt_map_def Let_def unfinished_def
      prepare_restored_def admin_scope_def ex_admin_def from_authenticated_admin_def)

lemma ex_recovery_env_ok: "environment_ok ex_recovery_env"
  using ex_recovery_apps(5-7)
  by (auto simp: environment_ok_def ex_recovery_env_def aead_correct_def json_correct_def ex_env_def split: if_splits)

lemma ex_recovery_seal:
  assumes "app = ex_frozen_app \<or> app = ex_recovered_app"
  shows "\<exists>b. encode (en_ext ex_recovery_env) (en_json ex_recovery_env) app = Inr [b]"
    and "\<exists>img. seal ex_recovery_env app [9] (replicate 16 0) kdf_current (replicate 12 0) = Inr img"
proof -
  show enc: "\<exists>b. encode (en_ext ex_recovery_env) (en_json ex_recovery_env) app = Inr [b]"
    using assms ex_recovery_apps(2,3,5-7) by (auto simp: encode_def validate_def ex_recovery_env_def max_plaintext_def)
  then show "\<exists>img. seal ex_recovery_env app [9] (replicate 16 0) kdf_current (replicate 12 0) = Inr img"
    by (auto simp: seal_def seal_plaintext_def seal_version_def encrypt_def ex_recovery_env_def max_plaintext_def Let_def)
qed

lemma ex_recovery_key: "derive_key (en_crypto ex_recovery_env) ''seed'' salt kdf_current = Inr [9]"
  by (simp add: derive_key_def validate_mnemonic_def derive_key_from_secret_def ex_recovery_env_def ex_env_def Let_def)

lemma ex_recovery_kdf:
  "validated (en_crypto ex_recovery_env) (kd_m_kib kdf_current) (kd_t_cost kdf_current) (kd_p_cost kdf_current) = Inr kdf_current"
  using ex_recovery_env_ok by (simp add: environment_ok_def validated_def kdf_current_def sat_mul8_def Let_def)

lemma ex_recovery:
  "\<exists>dir v dir'. recover_at ex_recovery_env dir Locked ''seed'' ex_admin 5 ex_recover_io = (Inr v, dir')
     \<and> dv_app v = ex_recovered_app"
proof -
  obtain old new where old: "seal ex_recovery_env ex_frozen_app [9] (replicate 16 0) kdf_current (replicate 12 0) = Inr old"
      and new: "seal ex_recovery_env ex_recovered_app [9] (replicate 16 0) kdf_current (replicate 12 0) = Inr new"
    using ex_recovery_seal(2) [OF disjI1 [OF refl]] ex_recovery_seal(2) [OF disjI2 [OF refl]] by blast
  have len: "length old \<le> max_image"
    using seal_length [OF ex_recovery_env_ok old] by (simp add: salt_len_def nonce_len_def)
  have "unseal ex_recovery_env old ''seed'' = Inr (ex_frozen_app, [9], replicate 16 0, kdf_current)"
    using ex_recovery_env_ok ex_recovery_kdf
    by (intro sealed_opens [OF _ _ ex_recovery_apps(1) ex_recovery_key _ _ _ old len])
       (simp_all add: environment_ok_def salt_len_def nonce_len_def)
  then have "\<exists>v dir'. recover_at ex_recovery_env [(state_name, old)] Locked ''seed'' ex_admin 5 ex_recover_io
      = (Inr v, dir') \<and> dv_app v = ex_recovered_app"
    using len new ex_recovery_apps(8) [of "en_ext ex_recovery_env"]
    by (simp add: recover_at_def acquire_recovery_def visible_image_def read_image_def scope_def ex_admin_def
        from_authenticated_admin_def ex_frozen_app_def ex_fresh_app_def default_application_def bt_values_def
        gate_exists_def bt_contains_def fresh_state_def ex_recover_io_def ex_install_def write_pair_def
        install_file_def move_file_def clear_gates_def Let_def)
  then show ?thesis by blast
qed

theorem recovery_is_durable_witness:
  "\<exists>dir v dir'. recover_at ex_recovery_env dir Locked ''seed'' ex_admin 5 ex_recover_io = (Inr v, dir')
     \<and> dv_app v = ex_recovered_app \<and> open_vault ex_recovery_env dir' Locked False ''seed'' = Inr v"
proof -
  obtain dir v dir' where r: "recover_at ex_recovery_env dir Locked ''seed'' ex_admin 5 ex_recover_io = (Inr v, dir')"
      and v: "dv_app v = ex_recovered_app"
    using ex_recovery by blast
  have "dated (dv_app v)" "length (ri_nonce ex_recover_io) = nonce_len"
    by (simp_all add: v ex_recovery_apps(4) ex_recover_io_def nonce_len_def)
  from recovery_is_durable [OF ex_recovery_env_ok r this] r v show ?thesis by blast
qed

section \<open>Restoring a backup\<close>

lemma prepare_restored_tables:
  assumes "prepare_restored ext app admin now = Inr app'" and "tables_wf app"
  shows "tables_wf app'"
proof -
  obtain generation mid t where mid:
      "close_deliveries (bt_keys (app_deliveries app))
         ((revoke_everything (app\<lparr>app_generation := generation\<rparr>))\<lparr>app_records :=
            bt_map (\<lambda>_ r. r\<lparr>vr_restored := True\<rparr>) (app_records app)\<rparr>) = Some mid"
      "app' = mid\<lparr>app_last_time := t, app_predecessor := None\<rparr>"
    using assms(1)
    by (fastforce simp: prepare_restored_def Let_def validate_def revoke_everything_def
        split: option.splits if_splits sum.splits)
  have "tables_wf ((revoke_everything (app\<lparr>app_generation := generation\<rparr>))\<lparr>app_records :=
      bt_map (\<lambda>_ r. r\<lparr>vr_restored := True\<rparr>) (app_records app)\<rparr>)"
    using assms(2) by (simp add: tables_wf_def revoke_everything_def)
  from close_deliveries_tables [OF mid(1) this] show ?thesis by (simp add: mid(2) tables_wf_def)
qed

lemma create_from_app_state: "create_from_app env dir lock gate_failed m salt app io = (Inr v, dir') \<Longrightarrow> dv_app v = app"
  by (auto simp: create_from_app_def Let_def split: sum.splits option.splits publication.splits prod.splits if_splits)

text \<open>
  C32: A restored vault begins a life of an owner, so all that holds over such a life holds for it;
  it starts without authority, without open deliveries and with restored records only.
\<close>

theorem restored_vault_begins_life:
  assumes r: "restore_backup env dir lock gate_failed seed admin bytes bsec now salt io = (Inr v, dir')"
    and dated: "dated (dv_app v)" and io: "io_ok io" and salt: "length salt = salt_len"
  shows "owner_reachable env (seed, v) \<and> powerless (dv_app v) \<and> \<not> unfinished (dv_app v)
    \<and> list_all vr_restored (bt_values (app_records (dv_app v)))"
proof -
  obtain app app' where app: "decrypt_backup env bytes bsec = Inr app" "prepare_restored (en_ext env) app admin now = Inr app'"
      and c: "create_from_app env dir lock gate_failed seed salt app' io = (Inr v, dir')"
    using r by (auto simp: restore_backup_def split: if_splits sum.splits)
  have v: "dv_app v = app'" by (rule create_from_app_state [OF c])
  have tables: "tables_wf app"
    using app(1) by (auto simp: decrypt_backup_def split: option.splits sum.splits if_splits intro: decode_tables)
  have "powerless app' \<and> \<not> unfinished app' \<and> list_all vr_restored (bt_values (app_records app'))"
    using restored_copy_is_powerless [OF app(2)] tables by (simp add: tables_wf_def)
  moreover have "storable app'" using prepare_restored_tables [OF app(2) tables] dated by (simp add: v storable_iff)
  ultimately show ?thesis using created [OF c] io salt by (simp add: v)
qed

lemma ex_backup:
  "\<exists>bytes. decrypt_backup ex_recovery_env bytes (Seed ''seed'') = Inr ex_fresh_app"
proof -
  have enc: "encode (en_ext ex_recovery_env) (en_json ex_recovery_env) ex_fresh_app = Inr [6]"
    using ex_fresh_valid [of "en_ext ex_recovery_env"]
    by (simp add: encode_def validate_def ex_recovery_env_def max_plaintext_def)
  have len: "length (backup_prefix 3 (secret_kind (Seed ''seed'')) kdf_current (replicate 16 0)) = 44"
    by (simp add: backup_prefix_def be32.length_enc)
  obtain bytes where b: "encrypt_backup ex_recovery_env ex_fresh_app (Seed ''seed'') (replicate 16 0) (replicate 12 0) = Inr bytes"
    using enc ex_recovery_key len
    by (simp add: encrypt_backup_def encrypt_snapshot_def encrypt_snapshot_version_def encrypt_def Let_def
        max_plaintext_def max_image_def be64.length_enc)
       (simp add: ex_recovery_env_def be64.length_enc max_image_def)
  have "decrypt_backup ex_recovery_env bytes (Seed ''seed'') = Inr ex_fresh_app"
    using ex_recovery_env_ok ex_env_laws(3) ex_recovery_kdf
    by (intro decrypt_encrypt_backup [OF _ _ _ _ _ _ b])
       (simp_all add: environment_ok_def salt_len_def nonce_len_def)
  then show ?thesis by blast
qed

theorem restored_vault_begins_life_witness:
  "\<exists>bytes v dir. restore_backup ex_recovery_env [] Locked False ''seed'' ex_admin bytes (Seed ''seed'') 5
       (replicate 16 0) (ex_io\<lparr>po_rename := Renamed\<rparr>) = (Inr v, dir) \<and> owner_reachable ex_recovery_env (''seed'', v)"
proof -
  obtain bytes where b: "decrypt_backup ex_recovery_env bytes (Seed ''seed'') = Inr ex_fresh_app"
    using ex_backup by blast
  obtain img x where "seal ex_recovery_env ex_recovered_app [9] (replicate 16 0) kdf_current (replicate 12 0) = Inr img"
      and "encode (en_ext ex_recovery_env) (en_json ex_recovery_env) ex_recovered_app = Inr x"
    using ex_recovery_seal [OF disjI2 [OF refl]] by blast
  then obtain v dir where c: "create_from_app ex_recovery_env [] Locked False ''seed'' (replicate 16 0) ex_recovered_app
      (ex_io\<lparr>po_rename := Renamed\<rparr>) = (Inr v, dir)"
    using ex_recovery_key
    by (simp add: create_from_app_def acquire_def acquire_recovery_def pending_exists_def gate_exists_def
        bt_contains_def read_image_def publish_def publish_defs ex_io_def)
  have r: "restore_backup ex_recovery_env [] Locked False ''seed'' ex_admin bytes (Seed ''seed'') 5
      (replicate 16 0) (ex_io\<lparr>po_rename := Renamed\<rparr>) = (Inr v, dir)"
    by (simp add: restore_backup_def b ex_recovery_apps(9) c) (simp add: ex_admin_def from_authenticated_admin_def)
  have "dated (dv_app v)" by (simp add: create_from_app_state [OF c] ex_recovery_apps(4))
  moreover have "io_ok (ex_io\<lparr>po_rename := Renamed\<rparr>)"
    by (simp add: io_ok_def ex_temp) (simp add: ex_io_def nonce_len_def)
  ultimately show ?thesis using restored_vault_begins_life [OF r] r by (auto simp: salt_len_def)
qed

end
