(* ===== verification/Owner_Properties.thy ===== *)
theory Owner_Properties
  imports Recovery_Durable
begin

text \<open>
  What holds over the life of an owner: whatever the operations were and however their system calls
  went, a directory without a gate file opens to the state the owner holds, and a directory with one
  does not open at all; a working owner has no gate and no open delivery; and deleted values stay gone.
\<close>

section \<open>Every reachable owner\<close>

lemma step_ok:
  assumes "owner_step env fresh s s'" and env: "environment_ok env" and "owner_ok env (fst s) (snd s)"
  shows "owner_ok env (fst s') (snd s')"
  using assms(1,3)
proof cases
  case (approves v ctx t now io res v' m)
  then show ?thesis using assms(3) approve.apply_ok [OF env] by (simp add: vault_approve_task_def)
next
  case (revokes v ctx tid now io res v' m)
  then show ?thesis using assms(3) revoke.apply_ok [OF env] by (simp add: vault_revoke_task_def)
next
  case (mutates v ctx tid request op now f ent io res v' m)
  then show ?thesis using assms(3) mutation.apply_ok [OF env] by (simp add: vault_mutate_def)
next
  case (reads_metadata v ctx tid rid fs now io res v' m)
  then show ?thesis using assms(3) meta.apply_ok [OF env] by (simp add: vault_metadata_def)
next
  case (human_imports v ctx tid request kind vals now f ent io res v' m)
  then show ?thesis using assms(3) import_op.apply_ok [OF env] by (simp add: import_for_task_def)
next
  case (human_exports v ctx tid rid fs now io res v' m)
  then show ?thesis using assms(3) export_op.apply_ok [OF env] by (simp add: read_for_task_def)
next
  case (uses v ctx tid usage now1 now2 deliver attempt io1 io2 res v' handed m)
  have "owner_ok env m v" using assms(3) uses(2) by simp
  from use_secret_ok [OF env uses(5,6) this uses(4)] show ?thesis using uses(3) by simp
next
  case (rekeys v ctx new salt io res v' m)
  then show ?thesis using assms(3) rekey_ok [OF env] by simp
next
  case restarts
  then show ?thesis using assms(3) reopen_ok by simp
qed

lemma reachable_ok:
  assumes "owner_reachable env s" and "environment_ok env"
  shows "owner_ok env (fst s) (snd s)"
  using assms(1)
proof induction
  case (created dir lock gate_failed m salt app io v dir')
  then show ?case using create_ok [OF assms(2)] by simp
next
  case (recovered dir lock m admin now io v dir')
  then show ?case using recover_ok(1) [OF assms(2)] by simp
next
  case (step s fresh s')
  then show ?case using step_ok [OF step.hyps(2) assms(2)] by simp
qed

lemma reachable_reopens:
  assumes "environment_ok env" and "owner_reachable env (mnemonic, v)" and "ready v = Inr ()"
  shows "no_gate (dv_dir v) \<and> \<not> unfinished (dv_app v)
    \<and> (\<exists>t. open_vault env (dv_dir v) Locked False mnemonic = Inr (v\<lparr>dv_app := (dv_app v)\<lparr>app_last_time := t\<rparr>\<rparr>)
          \<and> \<not> clock_due t (app_last_time (dv_app v)))"
proof -
  have ok: "owner_ok env mnemonic v" using reachable_ok [OF assms(2,1)] by simp
  note d = owner_okD(1) [OF ok] and step = owner_okD(2) [OF ok assms(3)]
  have gate: "no_gate (dv_dir v)" "\<not> unfinished (dv_app v)"
    using durableD(3) [OF d assms(3)] owner_okD(3) [OF ok assms(3)] by (simp_all add: settled_def unfinished_iff)
  let ?t = "st_persisted_last_time (dv_store v)"
  have "persisted v = (dv_app v)\<lparr>app_last_time := ?t\<rparr>"
    using step by (cases "dv_app v") (simp add: persisted_def in_step_def)
  moreover have "v = \<lparr>dv_app = dv_app v, dv_store = (dv_store v)\<lparr>st_blocked := False\<rparr>, dv_frozen = False, dv_dir = dv_dir v\<rparr>"
    using assms(3) by (cases v; cases "dv_store v") (simp add: ready_def split: if_splits)
  ultimately have "open_vault env (dv_dir v) Locked False mnemonic = Inr (v\<lparr>dv_app := (dv_app v)\<lparr>app_last_time := ?t\<rparr>\<rparr>)"
    using open_durable [OF d] gate by (metis vault.update_convs(1))
  then show ?thesis using gate step by (auto simp: in_step_def)
qed

text \<open>
  C4: A restart restores the owner. After a creation or a recovery and any sequence of approvals,
  revocations, mutations, reads, imports, exports, private uses, rekeyings and restarts, with any
  outcome of their system calls, an owner that still works has left no gate file and no open
  delivery, and opening its directory with the current seed phrase gives that owner again, with the
  same state, keys and image. Only the clock may lie behind, by less than the persistence interval.
\<close>

theorem restart_restores_state:
  assumes "environment_ok env" and "owner_reachable env (mnemonic, v)" and "ready v = Inr ()"
  shows "no_gate (dv_dir v) \<and> \<not> unfinished (dv_app v)
    \<and> (\<exists>t. open_vault env (dv_dir v) Locked False mnemonic = Inr (v\<lparr>dv_app := (dv_app v)\<lparr>app_last_time := t\<rparr>\<rparr>)
          \<and> \<not> clock_due t (app_last_time (dv_app v)))"
  by (rule reachable_reopens [OF assms])

text \<open>
  C5: The directory decides what opens. For every owner that can arise, working or frozen, opening its
  directory gives the last stored state if there is no gate file and no delivery is open in it, and
  otherwise it is refused until recovery. In no case does a state open that the owner did not hold.
\<close>

theorem directory_decides_opening:
  assumes "environment_ok env" and "owner_reachable env (mnemonic, v)"
  shows "open_vault env (dv_dir v) Locked False mnemonic =
     (if no_gate (dv_dir v) \<and> \<not> unfinished (dv_app v)
      then Inr \<lparr>dv_app = (dv_app v)\<lparr>app_last_time := st_persisted_last_time (dv_store v),
                    app_clock_frozen := st_persisted_frozen (dv_store v)\<rparr>,
                dv_store = (dv_store v)\<lparr>st_blocked := False\<rparr>, dv_frozen = False, dv_dir = dv_dir v\<rparr>
      else Inl RecoveryRequired)"
  using open_durable [OF owner_okD(1)] reachable_ok [OF assms(2,1)] by (simp add: persisted_def)

section \<open>Deletion over the life of an owner\<close>

text \<open>A record whose values are gone: deleted, or dropped by compaction.\<close>

definition gone :: "uuid \<Rightarrow> application \<Rightarrow> bool" where
  "gone rid app \<longleftrightarrow> (\<forall>r. map_of (app_records app) rid = Some r \<longrightarrow> vr_deleted r \<and> vr_values r = [])"

lemma gone_same: "app_records app' = app_records app \<Longrightarrow> gone rid app' = gone rid app"
  by (simp add: gone_def)

lemma compact_gone: "gone rid app \<Longrightarrow> gone rid (compact app)"
  unfolding gone_def using compact_records_Some [of app rid] by blast

lemma perform_gone:
  assumes auth: "authorize app ctx t op now False = Inr ()" and mat: "materialize app op ent = Inr op'"
    and perf: "perform app ctx t tid op' fresh = (Inr receipt, app')" and "gone rid app" and "fresh \<noteq> rid"
  shows "gone rid app'"
proof (cases "mutation_target op")
  case None
  then obtain kind v where "op' = Create kind v"
    using mat by (cases op) (auto simp: materialize_def split: if_splits sum.splits)
  then show ?thesis using perf assms(4,5) by (auto simp: gone_def split: if_splits)
next
  case (Some target)
  then have same: "op' = op"
    using mat by (cases op) (auto simp: materialize_def split: if_splits sum.splits)
  obtain i expected where target: "mutation_target op = Some (i, expected)" using Some by (cases target) auto
  obtain r where r: "map_of (app_records app) i = Some r" "\<not> vr_deleted r"
    by (rule authorize_creation_target [OF auth target])
  then have "i \<noteq> rid" using assms(4) by (auto simp: gone_def)
  moreover have "\<exists>f. app_records app' = bt_modify i f (app_records app)"
    using perf target r(1) unfolding same by (cases op; clarsimp simp: Let_def split: if_splits option.splits; blast)
  ultimately show ?thesis using assms(4) by (auto simp: gone_def)
qed

lemma apply_gone:
  assumes "\<And>a. gone rid a \<Longrightarrow> gone rid (snd (operation a))"
    and "apply_op env v operation io = (res, v')" and "io_ok io" and "gone rid (dv_app v)"
  shows "gone rid (dv_app v')"
  using apply_op_app [OF assms(2)] assms(3) assms(1) [OF assms(4)] assms(1) [OF compact_gone [OF assms(4)]]
    assms(4)
  by (auto simp: io_ok_def gone_def split: if_splits)

text \<open>The policy operations and the steps of a private use keep a record gone.\<close>

lemma clock_gone: "gone rid (snd (clock app now)) = gone rid app"
  by (simp add: clock_def gone_def split: sum.split)

lemma mutate_gone:
  assumes "gone rid app" and "fresh \<noteq> rid"
  shows "gone rid (snd (mutate ext app ctx tid request op now fresh ent))"
proof -
  obtain res app' where m: "mutate ext app ctx tid request op now fresh ent = (res, app')" by fastforce
  have "gone rid app'"
  proof (cases rule: mutate_cases [OF m])
    case (4 eff t bytes receipt)
    have g: "gone rid (app\<lparr>app_last_time := Some eff\<rparr>)" using assms(1) by (simp add: gone_def)
    show ?thesis
    proof (rule execute_cases [OF 4(9)])
      fix op' mid
      assume "authorize (app\<lparr>app_last_time := Some eff\<rparr>) ctx t op eff False = Inr ()"
        "materialize (app\<lparr>app_last_time := Some eff\<rparr>) op ent = Inr op'"
        "perform (app\<lparr>app_last_time := Some eff\<rparr>) ctx t
           (rk_task (RequestKey (ctx_owner ctx) (ctx_principal ctx) tid request)) op' fresh = (Inr receipt, mid)"
      then have "gone rid mid" using g assms(2) by (rule perform_gone)
      moreover assume "app' = audit_push (mid\<lparr>app_requests := bt_insert
          (RequestKey (ctx_owner ctx) (ctx_principal ctx) tid request)
          \<lparr>rm_fingerprint = ex_sha256 ext bytes, rm_result = receipt, rm_kind = cached_kind_of op, rm_at = Some eff\<rparr>
          (app_requests mid)\<rparr>)
        \<lparr>ae_task = rk_task (RequestKey (ctx_owner ctx) (ctx_principal ctx) tid request),
         ae_record = rc_record receipt, ae_request = Some (rk_id (RequestKey (ctx_owner ctx) (ctx_principal ctx) tid request)),
         ae_action = AuMutation, ae_at = eff, ae_principal = ctx_principal ctx\<rparr>"
      then have "app_records app' = app_records mid" by (simp add: audit_push_def)
      ultimately show "gone rid app'" using gone_same by blast
    qed
  qed (use assms(1) in \<open>auto simp: gone_def\<close>)
  then show ?thesis by (simp add: m)
qed

lemma with_task_context_gone:
  assumes "\<And>a ctx eff. gone rid a \<Longrightarrow> gone rid (snd (operation a ctx eff))" and "gone rid app"
  shows "gone rid (snd (with_task_context admin tid now operation app))"
  using assms clock_gone [of rid app now]
  by (auto simp: with_task_context_def split: prod.split sum.split)

lemma approve_task_gone: "gone rid app \<Longrightarrow> gone rid (snd (approve_task app ctx t now))"
  by (simp add: approve_task_def clock_def gone_def split: sum.split option.split)

lemma revoke_task_gone: "gone rid app \<Longrightarrow> gone rid (snd (revoke_task app ctx tid now))"
  by (simp add: revoke_task_def clock_def gone_def split: sum.split option.split)

lemma metadata_gone: "gone rid app \<Longrightarrow> gone rid (snd (metadata app ctx tid i fs now))"
  by (simp add: metadata_def clock_def gone_def audit_push_def split: sum.split)

lemma read_secret_gone: "gone rid app \<Longrightarrow> gone rid (snd (read_secret app ctx tid i fs now))"
  by (simp add: read_secret_def clock_def gone_def audit_push_def split: sum.split)

lemma set_signup_gone: "gone rid app \<Longrightarrow> gone rid (set_signup i st app)"
  by (auto simp: gone_def set_signup_def)

lemma prepare_use_gone:
  assumes "gone rid app"
  shows "gone rid (snd (prepare_use ctx tid request fp attempt now app))"
proof -
  have g: "gone rid (snd (clock app now))" using assms by (simp add: clock_gone)
  obtain r a where c: "clock app now = (r, a)" by fastforce
  have "gone rid (a\<lparr>app_deliveries := ds\<rparr>)" for ds using g by (simp add: gone_def c)
  then show ?thesis
    using g set_signup_gone by (simp add: prepare_use_def Let_def c split: sum.split option.split)
qed

lemma reject_use_gone: "gone rid app \<Longrightarrow> gone rid (snd (reject_use request attempt app))"
  by (auto simp: reject_use_def Let_def gone_def set_signup_def split: option.split)

lemma finish_use_gone: "gone rid app \<Longrightarrow> gone rid (snd (finish_use ctx tid request attempt status eff app))"
  by (auto simp: finish_use_def Let_def gone_def set_signup_def audit_push_def split: option.split)

lemma use_secret_gone:
  assumes io: "io_ok io1" "io_ok io2" and g: "gone rid (dv_app v)"
    and use: "use_secret env v ctx tid request now1 now2 deliver attempt io1 io2 = (res, v', handed)"
  shows "gone rid (dv_app v')"
proof (cases "ex_use_json (en_ext env) request")
  case None
  then show ?thesis using use g by (simp add: use_secret_def)
next
  case (Some bytes)
  let ?prep = "prepare_use ctx tid request (ex_sha256 (en_ext env) bytes) attempt now1"
  obtain r v1 where r: "apply_op env v ?prep io1 = (r, v1)" by fastforce
  have g1: "gone rid (dv_app v1)" by (rule apply_gone [OF prepare_use_gone r io(1) g])
  obtain h app where h: "authorize_handoff ctx tid request now2 (dv_app v1) = (h, app)" by fastforce
  have "app_records app = app_records (dv_app v1)"
    using authorize_handoff_clock [OF h] by (rule same_but_clock_fields)
  then have g2: "gone rid (dv_app (v1\<lparr>dv_app := app\<rparr>))" using g1 gone_same [of app "dv_app v1"] by simp
  have freeze: "gone rid (dv_app v3)"
    if "apply_or_freeze env (v1\<lparr>dv_app := app\<rparr>) operation io2 = (x, v3)"
      and "\<And>v3 y. apply_op env (v1\<lparr>dv_app := app\<rparr>) operation io2 = (y, v3) \<Longrightarrow> gone rid (dv_app v3)" for operation x v3
    using that by (auto simp: apply_or_freeze_def split: prod.splits sum.splits)
  have rejected: "gone rid (dv_app v2)"
    if "apply_or_freeze env (v1\<lparr>dv_app := app\<rparr>) (reject_use request attempt) io2 = (x, v2)" for x v2
    by (rule freeze [OF that apply_gone [OF reject_use_gone _ io(2) g2]])
  have delivered: "gone rid (dv_app v2)"
    if d: "deliver_and_store env (v1\<lparr>dv_app := app\<rparr>) ctx tid request attempt vals eff deliver io2 = (x, v2)" for vals eff x v2
  proof -
    define status where "status = (case deliver vals of Inl _ \<Rightarrow> DUnknown | Inr s \<Rightarrow> s)"
    obtain y v3 where f: "apply_or_freeze env (v1\<lparr>dv_app := app\<rparr>) (finish_use ctx tid request attempt status eff) io2 = (y, v3)"
      by fastforce
    have "v2 = v3" using d f by (auto simp: deliver_and_store_def Let_def status_def split: sum.splits)
    with freeze [OF f apply_gone [OF finish_use_gone _ io(2) g2]] show ?thesis by simp
  qed
  show ?thesis
    using use g1 rejected delivered
    by (auto simp: use_secret_def Some Let_def r h split: prod.splits sum.splits option.splits)
qed

lemma rekey_gone:
  assumes "rekey env v admin new salt io = (res, v')" and "gone rid (dv_app v)"
  shows "gone rid (dv_app v')"
  using assms
  by (auto simp: rekey_def settle_def Let_def gone_def split: sum.splits option.splits prod.splits publication.splits)

lemma step_gone:
  assumes "owner_step env fresh s s'" and "owner_ok env (fst s) (snd s)" and "fresh \<noteq> Some rid"
    and "gone rid (dv_app (snd s))"
  shows "gone rid (dv_app (snd s'))"
  using assms(1)
proof cases
  case (approves v ctx t now io res v' m)
  have "gone rid (dv_app v')"
    by (rule apply_gone [OF approve_task_gone approves(4) [unfolded vault_approve_task_def] approves(5)])
       (use approves(2) assms(4) in simp_all)
  then show ?thesis by (simp add: approves(3))
next
  case (revokes v ctx tid now io res v' m)
  have "gone rid (dv_app v')"
    by (rule apply_gone [OF revoke_task_gone revokes(4) [unfolded vault_revoke_task_def] revokes(5)])
       (use revokes(2) assms(4) in simp_all)
  then show ?thesis by (simp add: revokes(3))
next
  case (mutates v ctx tid request op now f ent io res v' m)
  have f: "f \<noteq> rid" using mutates(1) assms(3) by simp
  have "gone rid (dv_app v')"
    by (rule apply_gone [OF mutate_gone [OF _ f] mutates(4) [unfolded vault_mutate_def] mutates(5)])
       (use mutates(2) assms(4) in simp_all)
  then show ?thesis by (simp add: mutates(3))
next
  case (reads_metadata v ctx tid i fs now io res v' m)
  have "gone rid (dv_app v')"
    by (rule apply_gone [OF metadata_gone reads_metadata(4) [unfolded vault_metadata_def] reads_metadata(5)])
       (use reads_metadata(2) assms(4) in simp_all)
  then show ?thesis by (simp add: reads_metadata(3))
next
  case (human_imports v ctx tid request kind vals now f ent io res v' m)
  have f: "f \<noteq> rid" using human_imports(1) assms(3) by simp
  have "gone rid (dv_app v')"
    by (rule apply_gone [OF with_task_context_gone [OF mutate_gone [OF _ f]]
          human_imports(4) [unfolded import_for_task_def] human_imports(5)])
       (use human_imports(2) assms(4) in simp_all)
  then show ?thesis by (simp add: human_imports(3))
next
  case (human_exports v ctx tid i fs now io res v' m)
  have "gone rid (dv_app v')"
    by (rule apply_gone [OF with_task_context_gone [OF read_secret_gone]
          human_exports(4) [unfolded read_for_task_def] human_exports(5)])
       (use human_exports(2) assms(4) in simp_all)
  then show ?thesis by (simp add: human_exports(3))
next
  case (uses v ctx tid usage now1 now2 deliver attempt io1 io2 res v' handed m)
  show ?thesis using use_secret_gone [OF uses(5,6) _ uses(4)] uses(2,3) assms(4) by simp
next
  case (rekeys v ctx new salt io res v' m)
  show ?thesis using rekey_gone [OF rekeys(4)] rekeys(2,3) assms(4) by simp
next
  case (restarts v lock gate_failed m v')
  have "lock = Locked" "\<not> gate_failed"
    using restarts(4) by (cases lock; cases gate_failed;
      simp add: open_vault_def open_image_def acquire_def acquire_recovery_def pending_exists_def)+
  moreover have "durable env m v" using assms(2) restarts(2) owner_okD(1) by simp
  ultimately have "dv_app v' = persisted v"
    using restarts(4) open_durable by (auto split: if_splits)
  then show ?thesis using restarts(2,3) assms(4) by (simp add: gone_def persisted_def)
qed

lemma run_gone:
  assumes "owner_run env rid s s'" and "owner_reachable env s" and env: "environment_ok env"
    and "gone rid (dv_app (snd s))"
  shows "gone rid (dv_app (snd s'))"
  using assms(1,2,4)
proof induction
  case (goes_on s s1 fresh s2)
  have "owner_ok env (fst s1) (snd s1)"
    using reachable_ok [OF owner_run_reachable [OF goes_on.hyps(1) goes_on.prems(1)] env] .
  then show ?case using step_gone [OF goes_on.hyps(2) _ goes_on.hyps(3)] goes_on.IH goes_on.prems by blast
qed

text \<open>
  C6: What was deleted stays deleted for good. Once the values of a record are gone, because it was
  deleted or because compaction has dropped it after its deletion, they stay gone through every
  later operation, compaction, rekeying and restart of the owner, as long as its identifier is not
  given out again, and nobody can read or use the record.
\<close>

theorem deletion_outlives_restarts:
  assumes "environment_ok env" and "owner_reachable env (mnemonic, v)" and "gone rid (dv_app v)"
    and "owner_run env rid (mnemonic, v) (mnemonic', v')"
  shows "gone rid (dv_app v') \<and> (\<exists>e. select (dv_app v') ctx tid rid fs perm dest now = Inl e)"
proof -
  have g: "gone rid (dv_app v')" using run_gone [OF assms(4,2,1)] assms(3) by simp
  then have "record_of (dv_app v') ctx rid = Inl Denied"
    by (auto simp: record_of_def gone_def split: option.splits)
  then have "select (dv_app v') ctx tid rid fs perm dest now \<noteq> Inr x" for x
    by (auto simp: select_def split: sum.splits)
  then show ?thesis using g by (cases "select (dv_app v') ctx tid rid fs perm dest now") auto
qed

section \<open>An example life\<close>

definition ex_life_env :: environment where
  "ex_life_env = ex_env\<lparr>en_crypto := (en_crypto ex_env)\<lparr>
     cr_aead_encrypt := (\<lambda>_ _ p _. Some (p @ replicate 16 0)),
     cr_aead_decrypt := (\<lambda>_ _ c _. if length c < 16 then None else Some (take (length c - 16) c))\<rparr>\<rparr>"

lemma ex_life_env_ok: "environment_ok ex_life_env"
  by (auto simp: environment_ok_def ex_life_env_def aead_correct_def json_correct_def ex_env_def split: if_splits)

lemma ex_created:
  "\<exists>v dir. create_from_app ex_life_env [] Locked False ''seed'' (replicate 16 0) ex_fresh_app
     (ex_io\<lparr>po_rename := Renamed\<rparr>) = (Inr v, dir) \<and> ready v = Inr () \<and> dv_app v = ex_fresh_app"
proof -
  have enc: "encode (en_ext ex_life_env) (en_json ex_life_env) ex_fresh_app = Inr [7]"
    using ex_fresh_valid [of "en_ext ex_env"]
    by (simp add: encode_def validate_def ex_env_def ex_life_env_def max_plaintext_def)
  have key: "derive_key (en_crypto ex_life_env) ''seed'' salt kdf_current = Inr [9]" for salt
    by (simp add: derive_key_def validate_mnemonic_def derive_key_from_secret_def ex_life_env_def ex_env_def Let_def)
  have "\<exists>img. seal ex_life_env ex_fresh_app [9] (replicate 16 0) kdf_current (replicate 12 0) = Inr img"
    using enc
    by (simp add: seal_def seal_plaintext_def seal_version_def encrypt_def ex_life_env_def header_v3_def Let_def
        max_plaintext_def)
  then obtain img where img: "seal ex_life_env ex_fresh_app [9] (replicate 16 0) kdf_current (replicate 12 0) = Inr img"
    by blast
  show ?thesis
    using enc key img
    by (simp add: create_from_app_def acquire_def acquire_recovery_def pending_exists_def gate_exists_def
        bt_contains_def read_image_def publish_def publish_defs ex_io_def ready_def)
qed

lemma ex_life: "\<exists>v. owner_reachable ex_life_env (''seed'', v) \<and> ready v = Inr () \<and> gone 51 (dv_app v)"
proof -
  obtain v dir where c: "create_from_app ex_life_env [] Locked False ''seed'' (replicate 16 0) ex_fresh_app
      (ex_io\<lparr>po_rename := Renamed\<rparr>) = (Inr v, dir)" "ready v = Inr ()" "dv_app v = ex_fresh_app"
    using ex_created by blast
  have "owner_reachable ex_life_env (''seed'', v)"
    by (rule created [OF c(1)])
       (simp_all add: storable_def unfinished_def io_ok_def ex_temp ex_fresh_app_def default_application_def
          bt_values_def salt_len_def, simp add: ex_io_def nonce_len_def)
  moreover have "gone 51 (dv_app v)" by (simp add: c(3) gone_def ex_fresh_app_def default_application_def)
  ultimately show ?thesis using c(2) by blast
qed

theorem restart_restores_state_witness:
  "\<exists>v t. owner_reachable ex_life_env (''seed'', v) \<and> no_gate (dv_dir v)
     \<and> open_vault ex_life_env (dv_dir v) Locked False ''seed'' = Inr (v\<lparr>dv_app := (dv_app v)\<lparr>app_last_time := t\<rparr>\<rparr>)"
proof -
  obtain v where "owner_reachable ex_life_env (''seed'', v)" "ready v = Inr ()" using ex_life by blast
  with restart_restores_state [OF ex_life_env_ok this] show ?thesis by blast
qed

theorem directory_decides_opening_witness:
  "\<exists>v. owner_reachable ex_life_env (''seed'', v)
     \<and> open_vault ex_life_env (dv_dir v) Locked False ''seed'' =
       (if no_gate (dv_dir v) \<and> \<not> unfinished (dv_app v)
        then Inr \<lparr>dv_app = (dv_app v)\<lparr>app_last_time := st_persisted_last_time (dv_store v),
                      app_clock_frozen := st_persisted_frozen (dv_store v)\<rparr>,
                  dv_store = (dv_store v)\<lparr>st_blocked := False\<rparr>, dv_frozen = False, dv_dir = dv_dir v\<rparr>
        else Inl RecoveryRequired)"
proof -
  obtain v where "owner_reachable ex_life_env (''seed'', v)" "ready v = Inr ()" using ex_life by blast
  with directory_decides_opening [OF ex_life_env_ok this(1)] show ?thesis by blast
qed

theorem deletion_outlives_restarts_witness:
  "\<exists>v v'. owner_reachable ex_life_env (''seed'', v)
     \<and> open_vault ex_life_env (dv_dir v) Locked False ''seed'' = Inr v' \<and> gone 51 (dv_app v')"
proof -
  obtain v where v: "owner_reachable ex_life_env (''seed'', v)" "ready v = Inr ()" "gone 51 (dv_app v)"
    using ex_life by blast
  have ok: "owner_ok ex_life_env ''seed'' v" using reachable_ok [OF v(1) ex_life_env_ok] by simp
  obtain v' where o: "open_vault ex_life_env (dv_dir v) Locked False ''seed'' = Inr v'"
    using open_durable [OF owner_okD(1) [OF ok]] durableD(3) [OF owner_okD(1) [OF ok] v(2)]
      owner_okD(3) [OF ok v(2)] by (simp add: settled_def unfinished_iff)
  have "owner_run ex_life_env 51 (''seed'', v) (''seed'', v')"
    by (rule goes_on [OF stays restarts [OF o]]) simp
  from deletion_outlives_restarts [OF ex_life_env_ok v(1,3) this] v(1) o show ?thesis by blast
qed

end
