(* ===== verification/Example_Start.thy ===== *)
theory Example_Start
  imports Startup_Facts Owner_Properties Ipc_Properties
begin

text \<open>
  A small start of the owner on which the properties of start-up and serving are exercised: three
  descriptors for seed phrase, configuration and administrator, one peer, a listener, and a vault that
  is created in an empty directory.
\<close>

definition demo_config :: supervisor_config where
  "demo_config = \<lparr>sc_owner = ''owner'', sc_workspace = ''work'', sc_admin_principal = ''admin'',
     sc_peers = [\<lparr>pc_fd = 6, pc_principal = ''agent''\<rparr>], sc_destinations = [], sc_max_lifetime_secs = 990,
     sc_idle_timeout_secs = Some 60\<rparr>"

definition demo_options :: run_options where
  "demo_options = \<lparr>ro_seed_fd = 3, ro_config_fd = 4, ro_admin_fd = 5, ro_create = True, ro_bridge_socket = Some ''/s''\<rparr>"

definition demo_calls :: fd_calls where
  "demo_calls = \<lparr>fc_privs_ok = True, fc_dump_ok = True, fc_cloexec_ok = (\<lambda>_. True),
     fc_listing = Some [Some ''0'', Some ''1'', Some ''2'', Some ''3'', Some ''4'', Some ''5'', Some ''6'', Some ''7'', Some ''8''],
     fc_close_ok = (\<lambda>_. True)\<rparr>"

definition demo_startup :: startup_io where
  "demo_startup = \<lparr>su_calls = demo_calls, su_decode = (\<lambda>_. Some demo_config), su_euid = 0, su_stat = (\<lambda>_. None),
     su_bind = \<lparr>bi_dir = (\<lambda>_. Some \<lparr>fm_uid = 0, fm_symlink = False, fm_mode = 448, fm_is_file = False, fm_is_dir = True,
         fm_len = 0\<rparr>), bi_bound = True, bi_identity = (1, 1), bi_fd = 9, bi_stat_failed = False, bi_listen_ok = True,
       bi_nonblocking_ok = True\<rparr>,
     su_unlink_failed = False, su_lock = Locked, su_gate_failed = False, su_salt = replicate 16 0,
     su_publish = ex_io\<lparr>po_rename := Renamed\<rparr>, su_instant = 7, su_now = 10\<rparr>"

text \<open>Descriptor 7 is one that nobody named.\<close>

definition demo_fds :: descriptors where
  "demo_fds fd = \<lparr>fd_open = 0 \<le> fd \<and> fd \<le> 7, fd_cloexec = False, fd_identity = (0, nat fd),
     fd_metadata = \<lparr>fm_uid = 0, fm_symlink = False, fm_mode = 0xC180, fm_is_file = False, fm_is_dir = False, fm_len = 0\<rparr>,
     fd_nlink = 1, fd_writable = True, fd_fifo = False, fd_offset = 0,
     fd_bytes = Some (if fd = 4 then [116, 114, 117, 101] else [115, 101, 101, 100]), fd_utf8 = True,
     fd_socket = Some (1, 1), fd_connected = True, fd_blocking_ok = True\<rparr>"

definition demo_host :: host where
  "demo_host = \<lparr>ho_process = \<lparr>pr_fds = demo_fds, pr_no_new_privs = False, pr_dumpable = True\<rparr>, ho_directory = [], ho_nodes = []\<rparr>"

lemma demo_names: "parse_fd ''0'' = Some 0" "parse_fd ''1'' = Some 1" "parse_fd ''2'' = Some 2" "parse_fd ''3'' = Some 3"
    "parse_fd ''4'' = Some 4" "parse_fd ''5'' = Some 5" "parse_fd ''6'' = Some 6" "parse_fd ''7'' = Some 7" "parse_fd ''8'' = Some 8"
  by code_simp+

lemma demo_listing: "listing_complete (su_calls demo_startup) (pr_fds (ho_process demo_host))"
proof -
  have "\<exists>name. Some name \<in> {Some ''0'', Some ''1'', Some ''2'', Some ''3'', Some ''4'', Some ''5'', Some ''6'', Some ''7''}
      \<and> parse_fd name = Some fd" if "0 \<le> fd" "fd \<le> 7" for fd :: int
  proof -
    have "fd \<in> {0, 1, 2, 3, 4, 5, 6, 7}" using that by auto
    then show ?thesis using demo_names by (elim insertE emptyE) (simp only: ex_simps; blast)+
  qed
  then show ?thesis
    by (fastforce simp: listing_complete_def demo_startup_def demo_calls_def demo_host_def demo_fds_def)
qed

lemma demo_created:
  "\<exists>v dir. create ex_life_env [] Locked False ''seed'' (replicate 16 0) (ex_io\<lparr>po_rename := Renamed\<rparr>) = (Inr v, dir)
     \<and> ready v = Inr ()"
  using ex_created by (auto simp: create_def ex_fresh_app_def)

lemmas demo_defs = demo_startup_def demo_calls_def demo_options_def demo_host_def demo_fds_def demo_config_def

lemmas demo_steps = on_process_def on_fds_def harden_def open_fd_def set_fds_def mark_fd_def close_fd_def read_fd_def
  read_text_def parse_config_def strict_json_def demo_text_def check_config_def is_identifier_def lifetimes_def
  bounded_lifetime_def min_lifetime_secs_def max_lifetime_secs_def close_unlisted_def demo_names file_type_def s_ifsock_def

lemma demo_parent: "parent 0 (bi_dir (su_bind demo_startup)) ''/s'' = Inr ([], ''s'')"
  by (simp add: parent_def path_components_def demo_startup_def Let_def)

lemma demo_took_over:
  "\<exists>h. take_over demo_text demo_options demo_startup demo_host = (Inr (demo_config, 990, Some 60), h)
     \<and> ho_nodes h = [] \<and> ho_directory h = [] \<and> (\<forall>fd. fd \<in> {3, 5, 6} \<longrightarrow> host_fds h fd = (demo_fds fd)\<lparr>fd_cloexec := True\<rparr>)"
  by (simp add: take_over_def and_then_def Let_def demo_steps demo_defs)

lemma demo_listening:
  assumes "ho_nodes h = []"
  shows "\<exists>l h'. start_listener demo_options demo_startup h = (Inr (Some l), h') \<and> li_fd l = 9
     \<and> ho_directory h' = ho_directory h \<and> (\<forall>fd. fd \<in> {3, 5, 6} \<longrightarrow> host_fds h' fd = host_fds h fd)"
  using assms demo_parent
  by (simp add: start_listener_def demo_options_def bind_def Let_def demo_startup_def demo_calls_def bt_contains_def
      stat_at_def open_fd_def open_listener_def mark_fd_def new_socket_def set_fds_def bind_mask_def s_ifsock_def)

lemma demo_serving:
  assumes "ho_directory h = []" and "\<forall>fd. fd \<in> {3, 5, 6} \<longrightarrow> host_fds h fd = (demo_fds fd)\<lparr>fd_cloexec := True\<rparr>"
  shows "\<exists>v h'. start_serving ex_life_env demo_options demo_startup demo_config 990 (Some 60) l h =
     (Inr \<lparr>rn_broker = \<lparr>bk_vault = v, bk_sessions = new_sessions ''owner'' ''work'' ''admin'' (Some ''/s'') 1000,
         bk_peers = initial_peers demo_config, bk_last_request = 7\<rparr>,
       rn_deadline = 997, rn_idle = Some 60, rn_config = demo_config, rn_listener = l\<rparr>, h') \<and> ready v = Inr ()"
proof -
  obtain v dir where c: "create ex_life_env [] Locked False ''seed'' (replicate 16 0) (ex_io\<lparr>po_rename := Renamed\<rparr>) = (Inr v, dir)"
      "ready v = Inr ()"
    using demo_created by blast
  have fds: "host_fds h 3 = (demo_fds 3)\<lparr>fd_cloexec := True\<rparr>" "host_fds h 5 = (demo_fds 5)\<lparr>fd_cloexec := True\<rparr>"
      "host_fds h 6 = (demo_fds 6)\<lparr>fd_cloexec := True\<rparr>"
    using assms(2) by simp_all
  have seed: "[char_of (115 :: nat), char_of (101 :: nat), char_of (101 :: nat), char_of (100 :: nat)] = ''seed''"
    by code_simp
  show ?thesis
    using c assms(1)
    by (simp add: seed start_serving_def and_then_def demo_steps demo_defs fds peer_bindings_def peer_channel_def
        unix_socket_def af_unix_def sock_stream_def new_channel_def open_owner_def running_state_def time_max_def
        initial_peers_def fresh_peer_def)
qed

definition demo_running :: "vault \<Rightarrow> listener \<Rightarrow> running" where
  "demo_running v l = \<lparr>rn_broker = \<lparr>bk_vault = v, bk_sessions = new_sessions ''owner'' ''work'' ''admin'' (Some ''/s'') 1000,
       bk_peers = initial_peers demo_config, bk_last_request = 7\<rparr>,
     rn_deadline = 997, rn_idle = Some 60, rn_config = demo_config, rn_listener = Some l\<rparr>"

lemma demo_started:
  obtains v l h where "startup ex_life_env demo_text demo_options demo_startup demo_host = (Inr (demo_running v l), h)"
    "li_fd l = 9" "ready v = Inr ()"
proof -
  obtain h1 where t: "take_over demo_text demo_options demo_startup demo_host = (Inr (demo_config, 990, Some 60), h1)"
      "ho_nodes h1 = []" "ho_directory h1 = []"
      "\<forall>fd. fd \<in> {3, 5, 6} \<longrightarrow> host_fds h1 fd = (demo_fds fd)\<lparr>fd_cloexec := True\<rparr>"
    using demo_took_over by blast
  obtain l h2 where l: "start_listener demo_options demo_startup h1 = (Inr (Some l), h2)" "li_fd l = 9"
      "ho_directory h2 = ho_directory h1" "\<forall>fd. fd \<in> {3, 5, 6} \<longrightarrow> host_fds h2 fd = host_fds h1 fd"
    using demo_listening [OF t(2)] by blast
  have "\<forall>fd. fd \<in> {3, 5, 6} \<longrightarrow> host_fds h2 fd = (demo_fds fd)\<lparr>fd_cloexec := True\<rparr>" "ho_directory h2 = []"
    using t(3,4) l(3,4) by simp_all
  then obtain v h where "start_serving ex_life_env demo_options demo_startup demo_config 990 (Some 60) (Some l) h2
      = (Inr (demo_running v l), h)" "ready v = Inr ()"
    using demo_serving unfolding demo_running_def by blast
  then show ?thesis using that t(1) l(1,2) by (simp add: startup_def and_then_def)
qed

end
