(* ===== verification/Startup_Properties.thy ===== *)
theory Startup_Properties
  imports Example_Start
begin

text \<open>
  Properties of start-up: the configuration it has checked, and the process it has left, which holds
  no descriptor but its channels and its listener.
\<close>

section \<open>The checked configuration\<close>

text \<open>
  The owner serves only from a checked configuration. When start-up succeeds, the lifetime is
  between one minute and one day and an idle limit does not exceed it, the at most 16 destinations are
  valid and have different names, the principals of the administrator and of the at most 16 peers are
  all different, and so are all the descriptors.
\<close>

theorem startup_checks_configuration:
  assumes "startup env jt opts io h = (Inr rn, h')"
  shows "su_instant io + 60 \<le> rn_deadline rn \<and> rn_deadline rn \<le> su_instant io + 86400
    \<and> (\<forall>secs. rn_idle rn = Some secs \<longrightarrow> 60 \<le> secs \<and> su_instant io + secs \<le> rn_deadline rn)
    \<and> length (sc_destinations (rn_config rn)) \<le> 16 \<and> distinct (map ds_id (sc_destinations (rn_config rn)))
    \<and> (\<forall>d \<in> set (sc_destinations (rn_config rn)). validate_destination (su_euid io) (su_stat io) d = Inr ())
    \<and> length (sc_peers (rn_config rn)) \<le> 16
    \<and> distinct (sc_admin_principal (rn_config rn) # map pc_principal (sc_peers (rn_config rn)))
    \<and> distinct ([ro_seed_fd opts, ro_config_fd opts, ro_admin_fd opts] @ map pc_fd (sc_peers (rn_config rn)))"
proof (rule startup_Inr [OF assms])
  fix lifetime h1 v
  assume t: "take_over jt opts io h = (Inr (rn_config rn, lifetime, rn_idle rn), h1)"
    and r: "running_state opts io (rn_config rn) lifetime (rn_idle rn) (rn_listener rn) (initial_peers (rn_config rn)) v = Inr rn"
  show ?thesis
  proof (rule take_over_Inr [OF t])
    assume c: "check_config opts io (rn_config rn) = Inr (lifetime, rn_idle rn)" and d: "distinct (named_fds opts (rn_config rn))"
      "distinct (sc_admin_principal (rn_config rn) # map pc_principal (sc_peers (rn_config rn)))"
    note cc = check_config_Inr [OF c]
    have l: "60 \<le> lifetime \<and> lifetime \<le> 86400 \<and> (\<forall>secs. rn_idle rn = Some secs \<longrightarrow> 60 \<le> secs \<and> secs \<le> lifetime)"
      using lifetimes_Inr cc by blast
    show ?thesis
      using cc l check_destinations_Inr [of "su_euid io" "su_stat io" "[]" "sc_destinations (rn_config rn)"] d
        running_state_Inr [OF r] by (simp add: named_fds_def)
  qed
qed

section \<open>The confined process\<close>

lemma listing_mono: "listing_complete k fds \<Longrightarrow> shrinks fds fds' \<Longrightarrow> listing_complete k fds'"
  unfolding listing_complete_def using shrinksD(1) by metis

text \<open>What is open after the listener: what was left by taking over, and the listener itself.\<close>

lemma start_listener_Inr:
  assumes "start_listener opts io h = (Inr listener, h')"
  shows "ho_directory h' = ho_directory h \<and> pr_no_new_privs (ho_process h') = pr_no_new_privs (ho_process h)
    \<and> pr_dumpable (ho_process h') = pr_dumpable (ho_process h)
    \<and> (\<forall>fd. (\<exists>l. listener = Some l \<and> fd = li_fd l) \<and> fd_cloexec (host_fds h' fd) \<or> host_fds h' fd = host_fds h fd)
    \<and> (\<forall>fd. fd_socket (host_fds h' fd) = fd_socket (host_fds h fd) \<and> fd_bytes (host_fds h' fd) = fd_bytes (host_fds h fd))"
proof (cases "ro_bridge_socket opts")
  case (Some path)
  then obtain l nodes fds where b: "bind (su_calls io) (su_euid io) (su_bind io) path (ho_nodes h, host_fds h) = (Inr l, nodes, fds)"
      "listener = Some l" "h' = set_fds fds (h\<lparr>ho_nodes := nodes\<rparr>)"
    using assms by (auto simp: start_listener_def split: prod.splits sum.splits)
  then show ?thesis using bind_Inr [OF b(1)] by (auto simp: mark_fd_def open_listener_def set_fds_def)
qed (use assms in \<open>simp add: start_listener_def\<close>)

lemma open_owner_process: "snd (open_owner env opts io seed h) = h' \<Longrightarrow> ho_process h' = ho_process h \<and> ho_nodes h' = ho_nodes h"
  by (auto simp: open_owner_def split: prod.splits if_splits)


theorem startup_checks_configuration_witness:
  "\<exists>rn h'. startup ex_life_env demo_text demo_options demo_startup demo_host = (Inr rn, h')
     \<and> rn_deadline rn \<le> su_instant demo_startup + 86400"
proof (rule demo_started)
  fix v l h
  assume s: "startup ex_life_env demo_text demo_options demo_startup demo_host = (Inr (demo_running v l), h)"
  from startup_checks_configuration [OF s] s show ?thesis by blast
qed


end
