(* ===== verification/Session_Properties.thy ===== *)
theory Session_Properties
  imports Sessions
begin

text \<open>
  Properties of session admission: the table is bounded and its entries stay within what was issued,
  a token admits once, an issued token admits, and a spent one never again.
\<close>

section \<open>Digests and tokens\<close>

definition digest_length :: "externals \<Rightarrow> bool" where
  "digest_length ex \<longleftrightarrow> (\<forall>bytes. length (ex_sha256 ex bytes) = 32)"

lemma fold_xor_zero:
  "fold (\<lambda>(a, b) difference. or difference (xor a b)) ps d = 0 \<longleftrightarrow> d = 0 \<and> (\<forall>(a, b) \<in> set ps. a = (b :: u8))"
proof (induction ps arbitrary: d)
  case (Cons p ps)
  have "xor a b = 0 \<longleftrightarrow> a = b" for a b :: u8
    by (metis xor_self_eq xor.assoc xor.left_neutral xor.right_neutral)
  then show ?case by (cases p) (simp add: Cons.IH or_eq_0_iff)
qed simp

lemma same_digest_iff: "length a = length b \<Longrightarrow> same_digest a b \<longleftrightarrow> a = b"
proof -
  assume len: "length a = length b"
  have "(\<forall>(x, y) \<in> set (zip a b). x = y) \<longleftrightarrow> a = b" if "length a = length b" for a b :: digest
    using that by (induction a b rule: list_induct2) auto
  then show ?thesis using len by (simp add: same_digest_def fold_xor_zero)
qed

lemma hex_byte_form: "length (hex_byte b) = 2 \<and> list_all (\<lambda>c. ascii_hexdigit c \<and> \<not> ascii_upper c) (hex_byte b)"
proof -
  define digits where "digits = ''0123456789abcdef''"
  have all: "list_all (\<lambda>c. ascii_hexdigit c \<and> \<not> ascii_upper c) digits" unfolding digits_def by code_simp
  have "unat b < 256" using unsigned_less [of b] by simp
  moreover have "length digits = 16" by (simp add: digits_def)
  ultimately have "digits ! (unat b div 16) \<in> set digits" "digits ! (unat b mod 16) \<in> set digits"
    by (auto intro!: nth_mem)
  then show ?thesis using all unfolding hex_byte_def digits_def [symmetric] by (simp add: list_all_iff)
qed

lemma session_token_form: "length random = 32 \<Longrightarrow> token_form (session_token random)"
proof -
  have "length (session_token bytes) = 2 * length bytes
      \<and> list_all (\<lambda>c. ascii_hexdigit c \<and> \<not> ascii_upper c) (session_token bytes)" for bytes
    by (induction bytes) (use hex_byte_form in \<open>auto simp: session_token_def\<close>)
  then show "length random = 32 \<Longrightarrow> token_form (session_token random)" by (simp add: token_form_def)
qed

section \<open>Invariant\<close>

definition entry_ok :: "sessions \<Rightarrow> session \<Rightarrow> bool" where
  "entry_ok s e \<longleftrightarrow> se_expires_at e \<le> ss_deadline s \<and> se_principal e \<noteq> ss_admin s \<and> \<not> blank (se_principal e)
     \<and> 1 \<le> fcard (se_tasks e) \<and> fcard (se_tasks e) \<le> 64 \<and> nil_uuid |\<notin>| se_tasks e
     \<and> (\<forall>d. se_digest e = Some d \<longrightarrow> length d = 32)"

definition sessions_ok :: "sessions \<Rightarrow> bool" where
  "sessions_ok s \<longleftrightarrow> bt_wf (ss_entries s) \<and> length (ss_entries s) \<le> 32
     \<and> (\<forall>sid e. map_of (ss_entries s) sid = Some e \<longrightarrow> entry_ok s e)"

text \<open>The part of the table that never changes.\<close>

definition same_identity :: "sessions \<Rightarrow> sessions \<Rightarrow> bool" where
  "same_identity s s' \<longleftrightarrow> ss_owner s' = ss_owner s \<and> ss_workspace s' = ss_workspace s \<and> ss_admin s' = ss_admin s
     \<and> ss_socket s' = ss_socket s \<and> ss_deadline s' = ss_deadline s"

lemma entry_ok_cong: "same_identity s s' \<Longrightarrow> entry_ok s' e = entry_ok s e"
  by (simp add: entry_ok_def same_identity_def)

lemma same_identity_entries [simp]: "same_identity s (s\<lparr>ss_entries := m\<rparr>)"
  by (simp add: same_identity_def)

lemma same_identity_refl [simp]: "same_identity s s"
  by (simp add: same_identity_def)

lemma same_identity_trans: "same_identity s t \<Longrightarrow> same_identity t u \<Longrightarrow> same_identity s u"
  by (simp add: same_identity_def)

definition unexpired :: "time \<Rightarrow> sessions \<Rightarrow> sessions" where
  "unexpired now s = s\<lparr>ss_entries := bt_retain (\<lambda>_ e. now < se_expires_at e) (ss_entries s)\<rparr>"

lemma length_bt_retain: "length (bt_retain P m) \<le> length m"
  by (simp add: bt_retain_def)

lemma map_of_unexpired:
  "bt_wf (ss_entries s) \<Longrightarrow> map_of (ss_entries (unexpired now s)) sid = Some e \<longleftrightarrow>
     map_of (ss_entries s) sid = Some e \<and> now < se_expires_at e"
  by (auto simp: unexpired_def map_of_bt_retain split: option.splits)

lemma unexpired_ok: "sessions_ok s \<Longrightarrow> sessions_ok (unexpired now s)"
  using map_of_unexpired [of s now] length_bt_retain [of _ "ss_entries s"]
  by (force simp: sessions_ok_def unexpired_def entry_ok_cong [OF same_identity_entries] intro: le_trans)

text \<open>What a successful issue did.\<close>

lemma issue_Inr:
  assumes "issue ex ut s princ tasks expires_at now valid random sid = (Inr response, s')"
  obtains bytes socket where "random = Some bytes" "ss_socket s = Some socket"
    "\<not> issue_refused (unexpired now s) princ tasks expires_at now" "valid tasks princ = Inr ()"
    "length (ss_entries (unexpired now s)) < 32"
    "s' = (unexpired now s)\<lparr>ss_entries := bt_insert sid
       \<lparr>se_digest = Some (token_digest ex (session_token bytes)), se_principal = princ,
        se_tasks = fset_of_list tasks, se_expires_at = expires_at\<rparr> (ss_entries (unexpired now s))\<rparr>"
    "response = json_object [(''ok'', JBool True), (''session'', json_object
       [(''id'', json_uuid ut sid), (''socket'', JString socket), (''token'', JString (session_token bytes)),
        (''expires_at'', json_int expires_at)])]"
  using assms
  by (auto simp: issue_def Let_def unexpired_def session_capacity_def
      split: if_splits sum.splits option.splits intro!: that)

lemma issue_Inl: "issue ex ut s princ tasks expires_at now valid random sid = (Inl e, s') \<Longrightarrow> s' = unexpired now s"
  by (auto simp: issue_def Let_def unexpired_def split: if_splits sum.splits option.splits)

lemma new_entry_ok:
  assumes "digest_length ex" and "\<not> issue_refused s princ tasks expires_at now"
  shows "entry_ok s \<lparr>se_digest = Some (token_digest ex token), se_principal = princ,
    se_tasks = fset_of_list tasks, se_expires_at = expires_at\<rparr>"
  using assms
  by (auto simp: issue_refused_def entry_ok_def max_tasks_def token_digest_def digest_length_def Suc_le_eq)

lemma issue_ok:
  assumes "issue ex ut s princ tasks expires_at now valid random sid = (r, s')"
    and "digest_length ex" and "sessions_ok s"
  shows "sessions_ok s' \<and> same_identity s s'"
proof (cases r)
  case (Inl e)
  then have "s' = unexpired now s" using issue_Inl assms(1) by simp
  then show ?thesis using unexpired_ok [OF assms(3)] by (simp add: unexpired_def)
next
  case (Inr response)
  obtain bytes where i: "\<not> issue_refused (unexpired now s) princ tasks expires_at now"
      "length (ss_entries (unexpired now s)) < 32"
      "s' = (unexpired now s)\<lparr>ss_entries := bt_insert sid
         \<lparr>se_digest = Some (token_digest ex (session_token bytes)), se_principal = princ,
          se_tasks = fset_of_list tasks, se_expires_at = expires_at\<rparr> (ss_entries (unexpired now s))\<rparr>"
    by (rule issue_Inr [OF assms(1) [unfolded Inr]]) blast
  have "sessions_ok (unexpired now s)" by (rule unexpired_ok [OF assms(3)])
  moreover have "length (ss_entries s') \<le> 32"
    unfolding i(3) using i(2) by (auto intro: le_trans [OF length_bt_insert])
  ultimately have "sessions_ok s'"
    unfolding i(3) using new_entry_ok [OF assms(2) i(1)]
    by (simp add: sessions_ok_def entry_ok_cong [OF same_identity_entries])
  moreover have "same_identity s s'" using i(3) by (simp add: unexpired_def)
  ultimately show ?thesis by simp
qed

section \<open>Attachment\<close>

lemma attach_Inr:
  assumes "attach ex s token now = (Inr (sid, ctx), s')" and "digest_length ex" and "sessions_ok s"
  obtains e where "token_form token" "map_of (ss_entries s) sid = Some e" "now < se_expires_at e"
    "se_digest e = Some (token_digest ex token)"
    "ctx = from_authenticated_session (ss_owner s) (se_principal e) (ss_workspace s) (se_expires_at e)"
    "s' = s\<lparr>ss_entries := bt_modify sid (\<lambda>e. e\<lparr>se_digest := None\<rparr>) (ss_entries s)\<rparr>"
proof -
  obtain e where e: "token_form token" "List.find (\<lambda>(sid, e). awaits (token_digest ex token) now e) (ss_entries s) = Some (sid, e)"
      "ctx = from_authenticated_session (ss_owner s) (se_principal e) (ss_workspace s) (se_expires_at e)"
      "s' = s\<lparr>ss_entries := bt_modify sid (\<lambda>e. e\<lparr>se_digest := None\<rparr>) (ss_entries s)\<rparr>"
    using assms(1) by (auto simp: attach_def split: if_splits option.splits)
  then have "(sid, e) \<in> set (ss_entries s)" and aw: "awaits (token_digest ex token) now e"
    by (auto simp: find_Some_iff) (metis nth_mem)
  then have m: "map_of (ss_entries s) sid = Some e" using assms(3) by (simp add: sessions_ok_def bt_wf_distinct)
  then have "entry_ok s e" using assms(3) by (simp add: sessions_ok_def)
  then have "se_digest e = Some (token_digest ex token)" "now < se_expires_at e"
    using aw assms(2) by (auto simp: awaits_def entry_ok_def digest_length_def token_digest_def same_digest_iff split: option.splits)
  with m e that show ?thesis by blast
qed

lemma attach_Inl: "attach ex s token now = (Inl e, s') \<Longrightarrow> e = Denied \<and> s' = s"
  by (auto simp: attach_def split: if_splits option.splits)

lemma attach_ok:
  assumes "attach ex s token now = (r, s')" and "digest_length ex" and "sessions_ok s"
  shows "sessions_ok s' \<and> same_identity s s'"
proof (cases r)
  case (Inl e)
  then show ?thesis using assms attach_Inl by fastforce
next
  case (Inr p)
  then have s': "s' = s\<lparr>ss_entries := bt_modify (fst p) (\<lambda>e. e\<lparr>se_digest := None\<rparr>) (ss_entries s)\<rparr>"
    using assms(1) by (auto simp: attach_def split: if_splits option.splits)
  then show ?thesis
    using assms(3) by (auto simp: sessions_ok_def entry_ok_def split: if_splits)
qed

lemma revoke_ok: "sessions_ok s \<Longrightarrow> sessions_ok (revoke_session sid s) \<and> same_identity s (revoke_session sid s)"
  using length_filter_le [of "\<lambda>p. fst p \<noteq> sid" "ss_entries s"]
  by (simp add: sessions_ok_def revoke_session_def entry_ok_cong [OF same_identity_entries] flip: bt_remove_def)

section \<open>Runs\<close>

text \<open>
  The operations of the table in any order, where no token issued has a digest of \<open>avoid\<close>.
\<close>

inductive session_step :: "externals \<Rightarrow> digest set \<Rightarrow> sessions \<Rightarrow> sessions \<Rightarrow> bool"
  for ex :: externals and avoid :: "digest set" where
  issued: "issue ex ut s princ tasks expires_at now valid random sid = (r, s') \<Longrightarrow>
     (\<And>bytes. random = Some bytes \<Longrightarrow> token_digest ex (session_token bytes) \<notin> avoid) \<Longrightarrow> session_step ex avoid s s'"
| revoked: "session_step ex avoid s (revoke_session sid s)"
| attached: "attach ex s token now = (r, s') \<Longrightarrow> session_step ex avoid s s'"

lemma session_step_ok:
  "session_step ex avoid s s' \<Longrightarrow> digest_length ex \<Longrightarrow> sessions_ok s \<Longrightarrow> sessions_ok s' \<and> same_identity s s'"
  by (erule session_step.cases; hypsubst?) (blast dest: issue_ok, blast dest: revoke_ok, blast dest: attach_ok)

lemma session_steps_ok:
  assumes "(session_step ex avoid)\<^sup>*\<^sup>* s s'" and "digest_length ex" and "sessions_ok s"
  shows "sessions_ok s' \<and> same_identity s s'"
  using assms(1)
proof (induction rule: rtranclp_induct)
  case (step t u)
  then show ?case using session_step_ok [OF step(2) assms(2)] same_identity_trans by blast
qed (use assms(3) in simp)

lemma new_sessions_ok: "sessions_ok (new_sessions owner workspace admin socket deadline)"
  by (simp add: sessions_ok_def new_sessions_def)

text \<open>
  The session table stays within its bounds. However sessions are issued, attached and revoked,
  there are at most 32, each for another principal than the administrator, for one to 64 tasks, none
  of them the nil identifier, and none outlives the owner's deadline.
\<close>

theorem session_table_bounded:
  assumes "digest_length ex"
    and "(session_step ex {})\<^sup>*\<^sup>* (new_sessions owner workspace admin socket deadline) s"
  shows "length (ss_entries s) \<le> 32 \<and>
    (\<forall>sid e. map_of (ss_entries s) sid = Some e \<longrightarrow>
       se_expires_at e \<le> deadline \<and> se_principal e \<noteq> admin \<and> \<not> blank (se_principal e)
       \<and> 1 \<le> fcard (se_tasks e) \<and> fcard (se_tasks e) \<le> 64 \<and> nil_uuid |\<notin>| se_tasks e)"
  using session_steps_ok [OF assms(2,1) new_sessions_ok]
  by (auto simp: sessions_ok_def entry_ok_def same_identity_def new_sessions_def)

section \<open>Spent tokens\<close>

definition pending :: "sessions \<Rightarrow> digest \<Rightarrow> bool" where
  "pending s d \<longleftrightarrow> (\<exists>sid e. map_of (ss_entries s) sid = Some e \<and> se_digest e = Some d)"

text \<open>No two sessions wait for the same token.\<close>

definition distinct_tokens :: "sessions \<Rightarrow> bool" where
  "distinct_tokens s \<longleftrightarrow> (\<forall>sid e sid' e' d. map_of (ss_entries s) sid = Some e \<longrightarrow> map_of (ss_entries s) sid' = Some e' \<longrightarrow>
     se_digest e = Some d \<longrightarrow> se_digest e' = Some d \<longrightarrow> sid = sid')"

lemma pending_unexpired: "bt_wf (ss_entries s) \<Longrightarrow> pending (unexpired now s) d \<Longrightarrow> pending s d"
  by (auto simp: pending_def map_of_unexpired)

lemma pending_step:
  assumes "session_step ex {d} s s'" and "digest_length ex" and "sessions_ok s" and "\<not> pending s d"
  shows "\<not> pending s' d"
  using assms(1)
proof cases
  case (issued ut princ tasks expires_at now valid random sid r)
  have wf: "bt_wf (ss_entries s)" using assms(3) by (simp add: sessions_ok_def)
  note old = pending_unexpired [OF wf, of now d]
  show ?thesis
  proof (cases r)
    case (Inl e)
    then show ?thesis using issue_Inl issued(1) old assms(4) by blast
  next
    case (Inr response)
    obtain bytes where "random = Some bytes" "s' = (unexpired now s)\<lparr>ss_entries := bt_insert sid
         \<lparr>se_digest = Some (token_digest ex (session_token bytes)), se_principal = princ,
          se_tasks = fset_of_list tasks, se_expires_at = expires_at\<rparr> (ss_entries (unexpired now s))\<rparr>"
      by (rule issue_Inr [OF issued(1) [unfolded Inr]]) blast
    then show ?thesis using issued(2) old assms(4) by (auto simp: pending_def split: if_splits)
  qed
next
  case (revoked sid)
  then show ?thesis using assms(4) by (auto simp: pending_def revoke_session_def split: if_splits)
next
  case (attached token now r)
  have "s' = s \<or> (\<exists>sid. s' = s\<lparr>ss_entries := bt_modify sid (\<lambda>e. e\<lparr>se_digest := None\<rparr>) (ss_entries s)\<rparr>)"
    using attached by (auto simp: attach_def split: if_splits option.splits)
  then show ?thesis using assms(4) by (auto simp: pending_def split: if_splits)
qed

lemma pending_steps:
  assumes "(session_step ex {d})\<^sup>*\<^sup>* s s'" and "digest_length ex" and "sessions_ok s" and "\<not> pending s d"
  shows "sessions_ok s' \<and> \<not> pending s' d"
  using assms(1)
proof (induction rule: rtranclp_induct)
  case (step t u)
  then show ?case using pending_step [OF step(2) assms(2)] session_step_ok [OF step(2) assms(2)] by blast
qed (use assms(3,4) in simp)

lemma not_pending_denied:
  assumes "\<not> pending s (token_digest ex token)" and "digest_length ex" and "sessions_ok s"
  shows "attach ex s token now = (Inl Denied, s)"
proof (cases "attach ex s token now")
  case (Pair r s')
  show ?thesis
  proof (cases r)
    case (Inl e)
    then show ?thesis using Pair attach_Inl by fastforce
  next
    case (Inr p)
    obtain sid ctx where "p = (sid, ctx)" by (cases p)
    then have "pending s (token_digest ex token)"
      using attach_Inr [of ex s token now sid ctx s'] Pair Inr assms(2,3) unfolding pending_def by metis
    then show ?thesis using assms(1) by blast
  qed
qed

text \<open>
  C21: A session token admits at most once. After a successful attachment, as long as no token with the
  same digest is issued, the token is refused at every later time and in every later state of the
  table.
\<close>

theorem token_is_single_use:
  assumes "digest_length ex" and "sessions_ok s" and "distinct_tokens s"
    and att: "attach ex s token now = (Inr (sid, ctx), s1)"
    and "(session_step ex {token_digest ex token})\<^sup>*\<^sup>* s1 s2"
  shows "attach ex s2 token later = (Inl Denied, s2)"
proof -
  obtain e where e: "map_of (ss_entries s) sid = Some e" "se_digest e = Some (token_digest ex token)"
      "s1 = s\<lparr>ss_entries := bt_modify sid (\<lambda>e. e\<lparr>se_digest := None\<rparr>) (ss_entries s)\<rparr>"
    by (rule attach_Inr [OF att assms(1,2)]) blast
  have "\<not> pending s1 (token_digest ex token)"
    using e assms(3) by (auto simp: pending_def distinct_tokens_def split: if_splits)
  moreover have "sessions_ok s1" using attach_ok [OF att assms(1,2)] by simp
  ultimately show ?thesis
    using pending_steps [OF assms(5,1)] not_pending_denied assms(1) by blast
qed

lemma attach_issued:
  assumes "digest_length ex" and "sessions_ok s"
    and iss: "issue ex ut s princ tasks expires_at now valid (Some bytes) sid = (Inr response, s1)"
    and "length bytes = 32" and "\<not> pending s (token_digest ex (session_token bytes))" and "later < expires_at"
  shows "\<exists>s2. attach ex s1 (session_token bytes) later =
      (Inr (sid, \<lparr>ctx_owner = ss_owner s, ctx_principal = princ, ctx_workspace = ss_workspace s, ctx_admin = False,
         ctx_session_deadline = Some expires_at\<rparr>), s2)
    \<and> valid tasks princ = Inr () \<and> expires_at \<le> ss_deadline s
    \<and> (\<forall>tid. permits s2 sid tid later \<longleftrightarrow> tid \<in> set tasks)"
proof -
  let ?d = "token_digest ex (session_token bytes)"
  let ?e = "\<lparr>se_digest = Some ?d, se_principal = princ, se_tasks = fset_of_list tasks, se_expires_at = expires_at\<rparr>"
  obtain i: "\<not> issue_refused (unexpired now s) princ tasks expires_at now" "valid tasks princ = Inr ()"
      "s1 = (unexpired now s)\<lparr>ss_entries := bt_insert sid ?e (ss_entries (unexpired now s))\<rparr>"
    by (rule issue_Inr [OF iss]) blast
  have ok1: "sessions_ok s1" using issue_ok [OF iss assms(1,2)] by simp
  have old: "\<not> pending (unexpired now s) ?d" using pending_unexpired assms(2,5) sessions_ok_def by blast
  have form: "token_form (session_token bytes)" using session_token_form assms(4) by blast
  have e1: "map_of (ss_entries s1) sid = Some ?e" using i(3) by simp
  have "(sid, ?e) \<in> set (ss_entries s1)" using e1 by (rule map_of_SomeD)
  moreover have "awaits ?d later ?e" using assms(6) by (simp add: awaits_def same_digest_iff)
  ultimately have "List.find (\<lambda>(sid, e). awaits ?d later e) (ss_entries s1) \<noteq> None" by (auto simp: find_None_iff)
  then obtain sid' ctx s2 where att: "attach ex s1 (session_token bytes) later = (Inr (sid', ctx), s2)"
    using form by (auto simp: attach_def)
  obtain e' where e': "map_of (ss_entries s1) sid' = Some e'" "se_digest e' = Some ?d"
      "ctx = from_authenticated_session (ss_owner s1) (se_principal e') (ss_workspace s1) (se_expires_at e')"
      "s2 = s1\<lparr>ss_entries := bt_modify sid' (\<lambda>e. e\<lparr>se_digest := None\<rparr>) (ss_entries s1)\<rparr>"
    by (rule attach_Inr [OF att assms(1) ok1]) blast
  have "sid' = sid" using e' i(3) old by (auto simp: pending_def split: if_splits)
  then have "e' = ?e" "s2 = s1\<lparr>ss_entries := bt_modify sid (\<lambda>e. e\<lparr>se_digest := None\<rparr>) (ss_entries s1)\<rparr>"
    using e' e1 by simp_all
  moreover have "ss_owner s1 = ss_owner s" "ss_workspace s1 = ss_workspace s" using i(3) by (simp_all add: unexpired_def)
  moreover have "expires_at \<le> ss_deadline s" using i(1) by (simp add: issue_refused_def unexpired_def)
  ultimately show ?thesis
    using att e'(3) \<open>sid' = sid\<close> e1 assms(6) i(2)
    by (auto simp: from_authenticated_session_def permits_def live_def fset_of_list_elem)
qed

text \<open>
  An issued token admits the session it was issued for. Until it expires, and if no other waiting
  session has its digest, attaching with the token succeeds once for exactly the principal, workspace
  and expiry of the issue, without administration authority, and makes the session live for the tasks
  that were checked.
\<close>

theorem issued_token_admits:
  assumes "digest_length ex" and "sessions_ok s"
    and iss: "issue ex ut s princ tasks expires_at now valid (Some bytes) sid = (Inr response, s1)"
    and "length bytes = 32" and "\<not> pending s (token_digest ex (session_token bytes))" and "later < expires_at"
  shows "\<exists>s2. attach ex s1 (session_token bytes) later =
      (Inr (sid, \<lparr>ctx_owner = ss_owner s, ctx_principal = princ, ctx_workspace = ss_workspace s, ctx_admin = False,
         ctx_session_deadline = Some expires_at\<rparr>), s2)
    \<and> valid tasks princ = Inr () \<and> expires_at \<le> ss_deadline s
    \<and> (\<forall>tid. permits s2 sid tid later \<longleftrightarrow> tid \<in> set tasks)"
  by (rule attach_issued [OF assms])

section \<open>Witnesses\<close>

definition demo_ex :: externals where
  "demo_ex = \<lparr>ex_mutation_json = (\<lambda>_. None), ex_use_json = (\<lambda>_. None),
     ex_sha256 = (\<lambda>bytes. take 32 (bytes @ replicate 32 0))\<rparr>"

definition demo_table :: sessions where
  "demo_table = new_sessions ''owner'' ''work'' ''admin'' (Some ''/s'') 1000"

definition demo_random :: "u8 list" where "demo_random = replicate 32 7"

definition demo_entry :: session where
  "demo_entry = \<lparr>se_digest = Some (token_digest demo_ex (session_token demo_random)), se_principal = ''agent'',
     se_tasks = {|3|}, se_expires_at = 500\<rparr>"

definition demo_issued :: sessions where
  "demo_issued = demo_table\<lparr>ss_entries := [(5, demo_entry)]\<rparr>"

lemma demo_digest_length: "digest_length demo_ex"
  by (simp add: digest_length_def demo_ex_def min_def)

lemma demo_issue:
  "\<exists>response. issue demo_ex (\<lambda>_. []) demo_table ''agent'' [3] 500 10 (\<lambda>_ _. Inr ()) (Some demo_random) 5
     = (Inr response, demo_issued)"
proof -
  have "\<not> issue_refused demo_table ''agent'' [3] 500 10"
    by (simp add: issue_refused_def demo_table_def new_sessions_def max_tasks_def fcard.rep_eq)
  moreover have "demo_table\<lparr>ss_entries := bt_retain P (ss_entries demo_table)\<rparr> = demo_table" for P
    by (simp add: demo_table_def new_sessions_def bt_retain_def)
  ultimately show ?thesis
    by (simp add: issue_def Let_def demo_issued_def demo_entry_def) (simp add: demo_table_def new_sessions_def session_capacity_def Let_def)
qed

lemma demo_step: "session_step demo_ex {} demo_table demo_issued"
proof -
  obtain response where "issue demo_ex (\<lambda>_. []) demo_table ''agent'' [3] 500 10 (\<lambda>_ _. Inr ()) (Some demo_random) 5
     = (Inr response, demo_issued)"
    using demo_issue by blast
  then show ?thesis by (rule session_step.issued) simp
qed

lemma demo_issued_ok: "sessions_ok demo_issued \<and> distinct_tokens demo_issued"
proof -
  have "sessions_ok demo_issued"
    using session_step_ok [OF demo_step demo_digest_length] new_sessions_ok by (simp add: demo_table_def)
  then show ?thesis by (auto simp: distinct_tokens_def demo_issued_def split: if_splits)
qed

theorem session_table_bounded_witness:
  "length (ss_entries demo_issued) \<le> 32 \<and> map_of (ss_entries demo_issued) 5 = Some demo_entry
     \<and> se_expires_at demo_entry \<le> 1000 \<and> se_principal demo_entry \<noteq> ''admin''"
proof -
  have run: "(session_step demo_ex {})\<^sup>*\<^sup>* (new_sessions ''owner'' ''work'' ''admin'' (Some ''/s'') 1000) demo_issued"
    using demo_step unfolding demo_table_def by (rule r_into_rtranclp)
  have "map_of (ss_entries demo_issued) 5 = Some demo_entry" by (simp add: demo_issued_def)
  with session_table_bounded [OF demo_digest_length run] show ?thesis by blast
qed

theorem token_is_single_use_witness:
  "\<exists>sid ctx s1. attach demo_ex demo_issued (session_token demo_random) 20 = (Inr (sid, ctx), s1)
     \<and> attach demo_ex s1 (session_token demo_random) 30 = (Inl Denied, s1)"
proof -
  have "token_form (session_token demo_random)" by (rule session_token_form) (simp add: demo_random_def)
  then have "\<exists>sid ctx s1. attach demo_ex demo_issued (session_token demo_random) 20 = (Inr (sid, ctx), s1)"
    by (simp add: attach_def demo_issued_def awaits_def demo_entry_def same_digest_iff)
  then obtain sid ctx s1 where att: "attach demo_ex demo_issued (session_token demo_random) 20 = (Inr (sid, ctx), s1)"
    by blast
  have "attach demo_ex s1 (session_token demo_random) 30 = (Inl Denied, s1)"
    using demo_issued_ok by (intro token_is_single_use [OF demo_digest_length _ _ att]) simp_all
  with att show ?thesis by blast
qed

theorem issued_token_admits_witness:
  "\<exists>ctx s2. attach demo_ex demo_issued (session_token demo_random) 20 = (Inr (5, ctx), s2) \<and> ctx_principal ctx = ''agent''
     \<and> permits s2 5 3 20 \<and> \<not> permits s2 5 4 20"
proof -
  obtain response where i: "issue demo_ex (\<lambda>_. []) demo_table ''agent'' [3] 500 10 (\<lambda>_ _. Inr ()) (Some demo_random) 5
     = (Inr response, demo_issued)"
    using demo_issue by blast
  have "sessions_ok demo_table" by (simp add: demo_table_def new_sessions_ok)
  moreover have "\<not> pending demo_table d" for d by (simp add: pending_def demo_table_def new_sessions_def)
  ultimately show ?thesis
    using issued_token_admits [OF demo_digest_length _ i, of 20] by (auto simp: demo_random_def)
qed

end
