(* ===== verification/Serve_Properties.thy ===== *)
theory Serve_Properties
  imports Serve Startup_Properties Session_Properties Ipc_Properties Store_Properties
begin

text \<open>
  Properties of the owner process: what workloads can be answered and where a secret can be sent, the
  authority of the peers over the whole loop, and that the loop ends and its answers can be sent.
\<close>

section \<open>Work requests\<close>

text \<open>What an answer to a workload can be: receipts, and views of the requested public fields.\<close>

fun public_responses :: "uuid_text \<Rightarrow> work_request \<Rightarrow> json set" where
  "public_responses ut (WMetadata _ _ fs) =
     metadata_response ` {mv. set (bt_keys (mv_fields mv)) \<subseteq> fs \<and> (\<forall>f \<in> set (bt_keys (mv_fields mv)). \<not> secret f)}"
| "public_responses ut (WUse _ _) = range (delivery_response ut)"
| "public_responses ut _ = range (receipt_response ut)"

lemma apply_op_fst:
  "fst (apply_op env v operation io) \<in> range Inl \<union> {fst (operation app) | app. True}"
  by (auto simp: apply_op_def Let_def split: sum.splits prod.splits) (metis fst_conv)+

lemma metadata_public:
  assumes "fst (metadata app ctx tid rid fs now) = Inr mv"
  shows "set (bt_keys (mv_fields mv)) \<subseteq> fs \<and> (\<forall>f \<in> set (bt_keys (mv_fields mv)). \<not> secret f)"
  using assms
  by (auto simp: metadata_def select_def restrict_input_def split: sum.splits prod.splits if_splits)

lemma fst_respond: "fst (respond f outcome) = (case fst outcome of Inl e \<Rightarrow> Inl e | Inr r \<Rightarrow> Inr (f r))"
  by (simp add: respond_def split: prod.splits sum.splits)

text \<open>
  C10: A workload is never answered with a secret. Whatever the request, the state and the outcome of
  every system call, the answer is an error, a receipt of identifiers and a revision, a delivery
  receipt, or a view of the requested fields of which none is a password or an API key.
\<close>

theorem work_answers_are_public:
  "fst (work sv v ctx r io) \<in> range Inl \<union> Inr ` public_responses (sv_uuid sv) r"
proof (cases "validate_agent r")
  case (Inl e)
  then show ?thesis by (simp add: work_def)
next
  case (Inr u)
  show ?thesis
  proof (cases r)
    case (WMetadata tid rid fs)
    have "set (bt_keys (mv_fields mv)) \<subseteq> fs \<and> (\<forall>f \<in> set (bt_keys (mv_fields mv)). \<not> secret f)"
      if mv: "fst (vault_metadata (sv_env sv) v ctx tid rid fs (rq_now io) (rq_publish io)) = Inr mv" for mv
    proof -
      obtain app where "fst (metadata app ctx tid rid fs (rq_now io)) = Inr mv"
        using apply_op_fst [of "sv_env sv" v "\<lambda>app. metadata app ctx tid rid fs (rq_now io)" "rq_publish io"] mv
        by (auto simp: vault_metadata_def)
      then show ?thesis by (rule metadata_public)
    qed
    then show ?thesis
      using Inr WMetadata by (auto simp: work_def fst_respond split: sum.split)
  qed (use Inr in \<open>auto simp: work_def work_use_def fst_respond split: sum.split option.split prod.split\<close>)
qed

text \<open>
  C11: A secret is sent only where the administrator configured it. A use has no effect and is refused
  unless it asks for plain use and names a configured destination that is valid, is given exactly the
  fields of that destination's authentication, and the caller's live task has the destination's service
  and origin.
\<close>

theorem use_needs_configured_destination:
  assumes "\<not> (pu_action usage = ActUse \<and> (\<exists>d \<in> set (sv_destinations sv).
      ds_id d = pu_destination usage \<and> pu_fields usage = destination_fields d
      \<and> validate_destination (rq_euid io) (rq_stat io) d = Inr ()
      \<and> (\<exists>eff t. effective_time (dv_app v) (rq_now io) = Inr eff \<and> task_of (dv_app v) ctx tid eff = Inr t
            \<and> tk_service t = ds_service d \<and> tk_origin t = ds_origin d)))"
  shows "\<exists>e. work sv v ctx (WUse tid usage) io = (Inl e, v)"
proof (cases "pu_action usage = ActUse")
  case True
  show ?thesis
  proof (cases "find_destination (sv_destinations sv) (pu_destination usage)")
    case None
    then show ?thesis by (simp add: work_def work_use_def True)
  next
    case (Some d)
    then have d: "d \<in> set (sv_destinations sv)" "ds_id d = pu_destination usage"
      by (auto simp: find_destination_def find_Some_iff)
    show ?thesis
    proof (cases "pu_fields usage = destination_fields d
        \<and> validate_consumer v ctx tid (ds_service d) (ds_origin d) (rq_now io) = Inr ()")
      case ok: True
      then have "\<exists>eff t. effective_time (dv_app v) (rq_now io) = Inr eff \<and> task_of (dv_app v) ctx tid eff = Inr t
            \<and> tk_service t = ds_service d \<and> tk_origin t = ds_origin d"
        by (auto simp: validate_consumer_def split: sum.splits if_splits)
      with assms True d ok obtain e where "validate_destination (rq_euid io) (rq_stat io) d = Inl e"
        by (cases "validate_destination (rq_euid io) (rq_stat io) d") auto
      then show ?thesis using Some ok True by (simp add: work_def work_use_def prepare_def)
    next
      case False
      then show ?thesis using Some True by (auto simp: work_def work_use_def split: sum.split)
    qed
  qed
qed (simp add: work_def)

section \<open>Peers\<close>

text \<open>A turn of a workload leaves the table of sessions, and changes the vault only by permitted work.\<close>

lemma on_vault_proj: "snd (on_vault s outcome) = (snd outcome, s)"
  by (simp add: on_vault_def split: prod.splits sum.splits)

lemma peer_request_workload:
  assumes "\<not> pe_admin p" and "peer_request sv v s p received t = (result, v', s')"
  shows "s' = s \<and> (v' = v \<or> (\<exists>r. de_work (sv_decode sv) received = Some r
    \<and> (\<forall>sid. pe_session p = Some sid \<longrightarrow> permits s sid (work_task r) (tu_permit_now t))
    \<and> validate_agent r = Inr () \<and> v' = snd (work sv v (pe_context p) r (tu_io t))))"
proof (cases "de_work (sv_decode sv) received")
  case None
  then show ?thesis using assms by (simp add: peer_request_def)
next
  case (Some r)
  show ?thesis
  proof (cases "\<exists>sid. pe_session p = Some sid \<and> \<not> permits s sid (work_task r) (tu_permit_now t)")
    case True
    then show ?thesis using assms Some by (auto simp: peer_request_def)
  next
    case False
    then have "(result, v', s') = on_vault s (work sv v (pe_context p) r (tu_io t))"
      using assms Some by (auto simp: peer_request_def split: option.splits)
    then have vs: "v' = snd (work sv v (pe_context p) r (tu_io t))" "s' = s"
      using on_vault_proj [of s "work sv v (pe_context p) r (tu_io t)"] by (metis fst_conv snd_conv)+
    show ?thesis
    proof (cases "validate_agent r")
      case (Inl e)
      then show ?thesis using vs by (simp add: work_def)
    next
      case (Inr u)
      then show ?thesis using vs Some False by auto
    qed
  qed
qed

text \<open>Every exit of a turn, with the state it leaves.\<close>

lemma serve_peer_cases:
  assumes "serve_peer sv b p t = (p', b', flow)"
  obtains (kept) "bk_vault b' = bk_vault b" "bk_sessions b' = bk_sessions b"
  | (served) received result p1 where "peer_request sv (bk_vault b) (bk_sessions b) p1 received t =
        (result, bk_vault b', bk_sessions b')" "pe_context p1 = pe_context p" "pe_session p1 = pe_session p"
      "pe_admin p1 = pe_admin p"
  using assms
  by (auto simp: serve_peer_def Let_def split: if_splits prod.splits sum.splits option.splits)

lemma serve_peer_keeps:
  assumes "serve_peer sv b p t = (p', b', flow)"
  shows "pe_context p' = pe_context p \<and> pe_session p' = pe_session p \<and> pe_admin p' = pe_admin p \<and> bk_peers b' = bk_peers b"
  using assms
  by (auto simp: serve_peer_def Let_def split: if_splits prod.splits sum.splits option.splits)

text \<open>
  C12: A workload's turn is confined to its session. In the turn of a peer that is not the administrator
  the table of sessions does not change, and the vault changes only by a work request that decodes,
  passes the agent checks and, for a session's peer, names a task of the session while that session
  is attached and unexpired.
\<close>

theorem workload_turn_is_confined:
  assumes "serve_peer sv b p t = (p', b', flow)" and "\<not> pe_admin p"
  shows "bk_sessions b' = bk_sessions b \<and> (bk_vault b' = bk_vault b \<or>
    (\<exists>received r. de_work (sv_decode sv) received = Some r \<and> validate_agent r = Inr ()
       \<and> (\<forall>sid. pe_session p = Some sid \<longrightarrow> (\<exists>e. map_of (ss_entries (bk_sessions b)) sid = Some e \<and> se_digest e = None
             \<and> tu_permit_now t < se_expires_at e \<and> work_task r |\<in>| se_tasks e))
       \<and> bk_vault b' = snd (work sv (bk_vault b) (pe_context p) r (tu_io t))))"
  using assms(1)
proof (cases rule: serve_peer_cases)
  case (served received result p1)
  have "\<not> pe_admin p1" using served(4) assms(2) by simp
  from peer_request_workload [OF this served(1)] served(2,3) show ?thesis
    by (fastforce simp: permits_def live_def split: option.splits)
qed simp

section \<open>The authority of the peers\<close>

definition peer_ok :: "sessions \<Rightarrow> peer \<Rightarrow> bool" where
  "peer_ok s p \<longleftrightarrow> pe_admin p = ctx_admin (pe_context p)
     \<and> ctx_owner (pe_context p) = ss_owner s \<and> ctx_workspace (pe_context p) = ss_workspace s
     \<and> (case pe_session p of None \<Rightarrow> True
        | Some _ \<Rightarrow> \<not> pe_admin p \<and> (\<exists>d \<le> ss_deadline s. ctx_session_deadline (pe_context p) = Some d))"

definition broker_ok :: "broker \<Rightarrow> bool" where
  "broker_ok b \<longleftrightarrow> sessions_ok (bk_sessions b) \<and> (\<forall>p \<in> set (bk_peers b). peer_ok (bk_sessions b) p)
     \<and> length (filter pe_admin (bk_peers b)) \<le> 1"

lemma peer_ok_cong:
  "same_identity s s' \<Longrightarrow> pe_context p' = pe_context p \<Longrightarrow> pe_session p' = pe_session p \<Longrightarrow> pe_admin p' = pe_admin p
     \<Longrightarrow> peer_ok s' p' = peer_ok s p"
  by (simp add: peer_ok_def same_identity_def split: option.split)

lemma run_control_sessions:
  assumes "run_control sv v ctx s io c = (result, v', s')" and "digest_length (en_ext (sv_env sv))" and "sessions_ok s"
  shows "sessions_ok s' \<and> same_identity s s'"
proof (cases c)
  case (IssueSession princ tasks expires_at)
  then obtain r where "issue (en_ext (sv_env sv)) (sv_uuid sv) s princ tasks expires_at (rq_now io)
      (\<lambda>ids who. vault_validate_session_tasks v ctx who ids (rq_now io)) (rq_random io) (rq_fresh io) = (r, s')"
    using assms(1) by (auto split: prod.splits sum.splits)
  then show ?thesis using issue_ok assms(2,3) by blast
next
  case (RevokeSession sid)
  then show ?thesis using assms revoke_ok by auto
qed (use assms in \<open>auto simp: on_vault_def read_only_def split: prod.splits sum.splits\<close>)

lemma admin_sessions:
  assumes "admin sv v ctx r s io = (result, v', s')" and "digest_length (en_ext (sv_env sv))" and "sessions_ok s"
  shows "sessions_ok s' \<and> same_identity s s'"
proof (cases r)
  case (Control c)
  then show ?thesis using assms run_control_sessions by (simp add: admin_def)
next
  case (Work w)
  then have "s' = s" using assms(1)
    by (auto simp: admin_def on_vault_def split: work_request.splits mutation.splits prod.splits sum.splits)
  then show ?thesis using assms(3) by simp
qed

lemma serve_peer_sessions:
  assumes "serve_peer sv b p t = (p', b', flow)" and "digest_length (en_ext (sv_env sv))" and "sessions_ok (bk_sessions b)"
  shows "sessions_ok (bk_sessions b') \<and> same_identity (bk_sessions b) (bk_sessions b')"
  using assms(1)
proof (cases rule: serve_peer_cases)
  case (served received result p1)
  show ?thesis
  proof (cases "pe_admin p1")
    case True
    then show ?thesis
      using served(1) assms(2,3) admin_sessions by (auto simp: peer_request_def split: sum.splits)
  next
    case False
    then show ?thesis using peer_request_workload [OF _ served(1)] assms(3) by simp
  qed
qed (use assms(3) in simp)

lemma serve_peers_ok:
  assumes "serve_peers sv b ps ts = (ps', b', flow)" and "digest_length (en_ext (sv_env sv))" and "sessions_ok (bk_sessions b)"
  shows "sessions_ok (bk_sessions b') \<and> same_identity (bk_sessions b) (bk_sessions b') \<and>
    map (\<lambda>p. (pe_context p, pe_session p, pe_admin p)) ps' = map (\<lambda>p. (pe_context p, pe_session p, pe_admin p)) ps"
  using assms(1,3)
proof (induction ps arbitrary: b ts ps' b' flow)
  case (Cons p ps)
  show ?case
  proof (cases ts)
    case (Cons t ts')
    obtain p1 b1 f1 where p1: "serve_peer sv b p t = (p1, b1, f1)" by (metis prod_cases3)
    note here = serve_peer_sessions [OF p1 assms(2) Cons.prems(2)] serve_peer_keeps [OF p1]
    show ?thesis
    proof (cases f1)
      case Go
      obtain ps2 b2 f2 where rest: "serve_peers sv b1 ps ts' = (ps2, b2, f2)" by (metis prod_cases3)
      then have "ps' = p1 # ps2" "b' = b2" using Cons.prems(1) p1 Go \<open>ts = t # ts'\<close> by auto
      then show ?thesis using Cons.IH [OF rest] here same_identity_trans by auto
    next
      case (Return r)
      then have "ps' = p1 # ps" "b' = b1" using Cons.prems(1) p1 \<open>ts = t # ts'\<close> by auto
      then show ?thesis using here by auto
    qed
  qed (use Cons.prems in auto)
qed auto

lemma drop_inactive_ok:
  "drop_inactive s ps = (s', ps') \<Longrightarrow> sessions_ok s \<Longrightarrow>
     sessions_ok s' \<and> same_identity s s' \<and> set ps' \<subseteq> set ps \<and> length (filter pe_admin ps') \<le> length (filter pe_admin ps)"
proof (induction ps arbitrary: s s' ps')
  case (Cons p ps)
  have rev: "sessions_ok (revoke_session sid s)" "same_identity s (revoke_session sid s)" for sid
    using revoke_ok [OF Cons.prems(2)] by auto
  show ?case
    using Cons.prems Cons.IH [of s] Cons.IH [of "revoke_session sid s" for sid] rev same_identity_trans [OF rev(2)]
    by (fastforce split: if_splits prod.splits option.splits)
qed simp

lemma prune_ok:
  assumes "broker_ok b"
  shows "broker_ok (prune now b) \<and> same_identity (bk_sessions b) (bk_sessions (prune now b))"
proof -
  let ?ps = "map (\<lambda>(i, p). refresh (now i) (bk_sessions b) p) (enumerate 0 (bk_peers b))"
  obtain s ps where d: "drop_inactive (bk_sessions b) ?ps = (s, ps)" by (cases "drop_inactive (bk_sessions b) ?ps")
  have admins: "length (filter pe_admin (map (\<lambda>(i, p). refresh (now i) s p) (enumerate n qs))) = length (filter pe_admin qs)"
    for s n qs by (induction qs arbitrary: n) (auto simp: refresh_def split: option.splits)
  have "peer_ok (bk_sessions b) p" if p: "p \<in> set ?ps" for p
  proof -
    obtain q i where "q \<in> set (bk_peers b)" "p = refresh (now i) (bk_sessions b) q"
      using p by (auto simp: enumerate_eq_zip dest: set_zip_rightD)
    then show ?thesis
      using assms peer_ok_cong [of "bk_sessions b" "bk_sessions b" p q] by (auto simp: broker_ok_def refresh_def)
  qed
  moreover have di: "sessions_ok s" "same_identity (bk_sessions b) s" "set ps \<subseteq> set ?ps"
      "length (filter pe_admin ps) \<le> length (filter pe_admin ?ps)"
    using drop_inactive_ok [OF d] assms by (auto simp only: broker_ok_def)
  moreover have "peer_ok s p = peer_ok (bk_sessions b) p" for p using peer_ok_cong [OF di(2)] by blast
  ultimately have "\<forall>p \<in> set ps. peer_ok s p" by blast
  moreover have "length (filter pe_admin ps) \<le> 1"
    using di(4) assms admins [of "bk_sessions b" 0 "bk_peers b"] by (simp add: broker_ok_def)
  ultimately show ?thesis using di(1,2) d by (simp add: prune_def broker_ok_def)
qed

lemma admit_ok:
  assumes "admit ex jt s io now = (r, s')" and "digest_length ex" and "sessions_ok s"
  shows "sessions_ok s' \<and> same_identity s s' \<and> (\<forall>sid ctx ch. r = Inr (sid, ctx, ch) \<longrightarrow> peer_ok s (session_peer sid ctx ch))"
proof -
  have att: "sessions_ok s1 \<and> same_identity s s1 \<and> (\<forall>sid ctx. q = Inr (sid, ctx) \<longrightarrow> peer_ok s (session_peer sid ctx ch))"
    if "attach ex s token n = (q, s1)" for q s1 token n ch
  proof -
    have "peer_ok s (session_peer sid ctx ch)" if q: "q = Inr (sid, ctx)" for sid ctx
    proof -
      obtain e where e: "map_of (ss_entries s) sid = Some e"
          "ctx = from_authenticated_session (ss_owner s) (se_principal e) (ss_workspace s) (se_expires_at e)"
        using attach_Inr [of ex s token n sid ctx s1] \<open>attach ex s token n = (q, s1)\<close> q assms(2,3) by metis
      then have "se_expires_at e \<le> ss_deadline s" using assms(3) by (auto simp: sessions_ok_def entry_ok_def)
      then show ?thesis using e(2) by (simp add: peer_ok_def session_peer_def from_authenticated_session_def)
    qed
    then show ?thesis using attach_ok [OF that assms(2,3)] by blast
  qed
  show ?thesis
  proof (cases "s' = s \<and> (\<exists>e. r = Inl e)")
    case False
    obtain token n q s1 where a: "attach ex s token n = (q, s1)"
        "s' = s1 \<and> (\<exists>sid ctx ch. q = Inr (sid, ctx) \<and> r = Inr (sid, ctx, ch)) \<or> (\<exists>sid e. s' = revoke_session sid s1 \<and> r = Inl e)"
      using assms(1) False attach_Inl
      by (fastforce simp: admit_def attach_request_def split: if_splits sum.splits prod.splits option.splits)
    then show ?thesis
      using att [OF a(1)] revoke_ok [of s1] same_identity_trans by blast
  qed (use assms(3) in auto)
qed

lemma broker_ok_peers:
  assumes "broker_ok b" and "sessions_ok s'" and "same_identity (bk_sessions b) s'"
    and "map (\<lambda>p. (pe_context p, pe_session p, pe_admin p)) ps' = map (\<lambda>p. (pe_context p, pe_session p, pe_admin p)) (bk_peers b)"
  shows "(\<forall>p \<in> set ps'. peer_ok s' p) \<and> length (filter pe_admin ps') \<le> 1"
proof
  show "\<forall>p \<in> set ps'. peer_ok s' p"
  proof
    fix p assume "p \<in> set ps'"
    then have "(pe_context p, pe_session p, pe_admin p) \<in> set (map (\<lambda>p. (pe_context p, pe_session p, pe_admin p)) (bk_peers b))"
      unfolding assms(4) [symmetric] by auto
    then obtain q where "q \<in> set (bk_peers b)" "pe_context p = pe_context q" "pe_session p = pe_session q" "pe_admin p = pe_admin q"
      by auto
    then show "peer_ok s' p" using assms(1) peer_ok_cong [OF assms(3)] by (auto simp: broker_ok_def)
  qed
  have "length (filter pe_admin qs) = length (filter (\<lambda>(c, s, a). a) (map (\<lambda>p. (pe_context p, pe_session p, pe_admin p)) qs))" for qs
    by (induction qs) auto
  from this [of ps'] this [of "bk_peers b"] have "length (filter pe_admin ps') = length (filter pe_admin (bk_peers b))"
    unfolding assms(4) by (rule trans [OF _ sym])
  then show "length (filter pe_admin ps') \<le> 1" using assms(1) by (simp add: broker_ok_def)
qed

lemma admission_ok:
  assumes "admission sv rd b = (b', flow)" and "digest_length (en_ext (sv_env sv))" and "broker_ok b"
  shows "broker_ok b' \<and> same_identity (bk_sessions b) (bk_sessions b')"
proof -
  have ok: "sessions_ok (bk_sessions b)" "\<forall>p \<in> set (bk_peers b). peer_ok (bk_sessions b) p" "length (filter pe_admin (bk_peers b)) \<le> 1"
    using assms(3) by (auto simp: broker_ok_def)
  consider "b' = b" | io r s where "admit (en_ext (sv_env sv)) (sv_text sv) (bk_sessions b) io (rd_accept_now rd) = (r, s)"
      "(\<exists>e. r = Inl e) \<and> b' = b\<lparr>bk_sessions := s\<rparr> \<or> (\<exists>sid ctx ch. r = Inr (sid, ctx, ch) \<and>
        b' = b\<lparr>bk_sessions := s, bk_last_request := rd_admitted_at rd, bk_peers := bk_peers b @ [session_peer sid ctx ch]\<rparr>)"
    using assms(1) by (auto simp: admission_def split: if_splits option.splits prod.splits sum.splits)
  then show ?thesis
  proof cases
    case (2 io r s)
    note a = admit_ok [OF 2(1) assms(2) ok(1)]
    then have cong: "peer_ok s p = peer_ok (bk_sessions b) p" for p by (intro peer_ok_cong) auto
    show ?thesis using 2(2) a ok cong by (auto simp: broker_ok_def session_peer_def)
  qed (use assms(3) in simp)
qed

lemma serve_round_ok:
  assumes "serve_round sv deadline idle b rd = (b', flow)" and "digest_length (en_ext (sv_env sv))" and "broker_ok b"
  shows "broker_ok b' \<and> same_identity (bk_sessions b) (bk_sessions b')"
proof -
  let ?b = "prune (rd_now rd) b"
  note p = prune_ok [OF assms(3), of "rd_now rd"]
  obtain ps b1 f where sp: "serve_peers sv ?b (bk_peers ?b) (rd_turns rd) = (ps, b1, f)" by (metis prod_cases3)
  have "sessions_ok (bk_sessions ?b)" using p by (simp add: broker_ok_def)
  note q = serve_peers_ok [OF sp assms(2) this]
  have "broker_ok (b1\<lparr>bk_peers := ps\<rparr>)"
    using broker_ok_peers [of ?b "bk_sessions b1" ps] q p by (simp add: broker_ok_def)
  moreover have "same_identity (bk_sessions b) (bk_sessions b1)" using p q same_identity_trans by blast
  ultimately show ?thesis
    using assms p sp admission_ok [of sv rd "b1\<lparr>bk_peers := ps\<rparr>" b' flow] same_identity_trans
    by (auto simp: serve_round_def Let_def split: if_splits poll_result.splits flow.splits)
qed

lemma serve_ok:
  assumes "serve sv deadline idle b rds = (b', r)" and "digest_length (en_ext (sv_env sv))" and "broker_ok b"
  shows "broker_ok b' \<and> same_identity (bk_sessions b) (bk_sessions b')"
  using assms(1,3)
proof (induction rds arbitrary: b)
  case (Cons rd rds)
  obtain b1 f where rd: "serve_round sv deadline idle b rd = (b1, f)" by (cases "serve_round sv deadline idle b rd")
  note here = serve_round_ok [OF rd assms(2) Cons.prems(2)]
  show ?case
    using Cons.prems(1) rd here Cons.IH [of b1] same_identity_trans by (cases f) (simp, blast, simp)
qed simp

section \<open>Start-up\<close>

lemma startup_broker:
  assumes "startup env jt opts io h = (Inr rn, h')"
  obtains lifetime where "lifetimes (rn_config rn) = Inr (lifetime, rn_idle rn)"
    "bk_peers (rn_broker rn) = initial_peers (rn_config rn)"
    "bk_sessions (rn_broker rn) = new_sessions (sc_owner (rn_config rn)) (sc_workspace (rn_config rn))
       (sc_admin_principal (rn_config rn)) (ro_bridge_socket opts) (su_now io + int lifetime)"
proof (rule startup_Inr [OF assms])
  fix lifetime h1 v
  assume t: "take_over jt opts io h = (Inr (rn_config rn, lifetime, rn_idle rn), h1)"
    and r: "running_state opts io (rn_config rn) lifetime (rn_idle rn) (rn_listener rn) (initial_peers (rn_config rn)) v = Inr rn"
  have "lifetimes (rn_config rn) = Inr (lifetime, rn_idle rn)"
    by (rule take_over_Inr [OF t]) (use check_config_Inr in blast)
  then show thesis using that running_state_Inr [OF r] by blast
qed

lemma startup_broker_ok:
  assumes "startup env jt opts io h = (Inr rn, h')"
  shows "broker_ok (rn_broker rn)"
proof -
  obtain lifetime where b: "bk_peers (rn_broker rn) = initial_peers (rn_config rn)"
    "bk_sessions (rn_broker rn) = new_sessions (sc_owner (rn_config rn)) (sc_workspace (rn_config rn))
       (sc_admin_principal (rn_config rn)) (ro_bridge_socket opts) (su_now io + int lifetime)"
    by (rule startup_broker [OF assms])
  show ?thesis
    unfolding broker_ok_def b
    by (auto simp: new_sessions_ok initial_peers_def fresh_peer_def new_peer_def filter_map comp_def)
       (auto simp: peer_ok_def from_authenticated_admin_def from_authenticated_peer_def new_sessions_def)
qed

text \<open>
  C15: Authority is fixed when the owner starts. Throughout serving, whatever the peers send and however
  the system calls go, at most one peer has the administrator's authority, every peer acts for the
  configured owner and workspace, a peer has administration authority exactly if it is the
  administrator's channel, and the authority of a session's peer ends no later than the lifetime, at
  most one day, after the start.
\<close>

theorem peer_authority_is_fixed:
  assumes "startup env jt opts io h = (Inr rn, h')" and "digest_length (en_ext (sv_env sv))"
    and "serve sv (rn_deadline rn) (rn_idle rn) (rn_broker rn) rds = (b, r)"
  shows "length (filter pe_admin (bk_peers b)) \<le> 1 \<and>
    (\<forall>p \<in> set (bk_peers b). pe_admin p = ctx_admin (pe_context p)
       \<and> ctx_owner (pe_context p) = sc_owner (rn_config rn) \<and> ctx_workspace (pe_context p) = sc_workspace (rn_config rn)
       \<and> (\<forall>sid. pe_session p = Some sid \<longrightarrow> \<not> pe_admin p \<and>
            (\<exists>d. ctx_session_deadline (pe_context p) = Some d \<and> d \<le> su_now io + 86400)))"
proof -
  obtain lifetime where l: "lifetimes (rn_config rn) = Inr (lifetime, rn_idle rn)"
      "bk_sessions (rn_broker rn) = new_sessions (sc_owner (rn_config rn)) (sc_workspace (rn_config rn))
         (sc_admin_principal (rn_config rn)) (ro_bridge_socket opts) (su_now io + int lifetime)"
    by (rule startup_broker [OF assms(1)])
  have "broker_ok b \<and> same_identity (bk_sessions (rn_broker rn)) (bk_sessions b)"
    by (rule serve_ok [OF assms(3,2) startup_broker_ok [OF assms(1)]])
  then show ?thesis
    using l lifetimes_Inr [OF l(1)]
    by (fastforce simp: broker_ok_def peer_ok_def same_identity_def new_sessions_def split: option.splits)
qed

section \<open>Answers and the end of serving\<close>

lemma write_until_Inl: "write_until bs es sent = (Inl e, es', sent') \<Longrightarrow> e = ChannelIo \<or> e = ChannelTimeout"
  by (induction bs es sent rule: write_until.induct) (auto simp: io_error_def split: if_splits)

text \<open>
  An answer is never what closes a channel. The response sent to a peer fits one frame, being
  replaced by the capacity error otherwise, so sending it can fail only because the socket failed or
  the deadline passed.
\<close>

theorem answer_never_rejected_locally:
  assumes "fits_frame jt (failure Capacity)" and "\<And>v. concat (jt_chunks jt v) \<noteq> []"
    and "\<not> ch_poisoned ch" and "send jt (bounded_response jt response) es ch = (Inl e, ch')"
  shows "e = ChannelIo \<or> e = ChannelTimeout"
proof -
  have "fits_frame jt (bounded_response jt response)" using assms(1) by (simp add: bounded_response_def)
  then obtain bytes where "encode_frame jt (bounded_response jt response) = Inr bytes"
    using assms(2) unfolding fits_frame_iff encode_frame_Inr by blast
  then show ?thesis
    using assms(3,4) by (auto simp: send_def fail_def dest: write_until_Inl split: sum.splits prod.splits)
qed

lemma serve_peers_return:
  "serve_peers sv b ps ts = (ps', b', Return q) \<Longrightarrow> q \<in> {Inr (), Inl InteractionRequired}"
proof (induction ps arbitrary: b ts ps')
  case (Cons p ps)
  have peer: "q \<in> {Inr (), Inl InteractionRequired}" if "serve_peer sv b p t = (p', b', Return q)" for t p'
    using that by (auto simp: serve_peer_def Let_def split: if_splits prod.splits sum.splits option.splits)
  show ?case
    using Cons.prems Cons.IH peer by (cases ts) (auto split: prod.splits flow.splits)
qed simp

lemma serve_round_return:
  "serve_round sv deadline idle b rd = (b', Return r) \<Longrightarrow> r \<in> {Inr (), Inl InteractionRequired, Inl Invalid}"
  by (auto simp: serve_round_def admission_def Let_def dest: serve_peers_return
      split: if_splits poll_result.splits prod.splits flow.splits option.splits sum.splits)

text \<open>
  Serving ends. Once a round starts at or after the deadline the loop has returned, whatever
  happened in the rounds before, and it returns success or the error of a lost administrator, a failed
  poll or a descriptor that could not be taken over.
\<close>

theorem serving_ends_at_deadline:
  assumes "\<exists>rd \<in> set rds. deadline \<le> rd_instant rd"
  shows "\<exists>b' r. serve sv deadline idle b rds = (b', Some r) \<and> r \<in> {Inr (), Inl InteractionRequired, Inl Invalid}"
  using assms
proof (induction rds arbitrary: b)
  case (Cons rd rds)
  obtain b1 f where rd: "serve_round sv deadline idle b rd = (b1, f)" by (cases "serve_round sv deadline idle b rd")
  show ?case
  proof (cases f)
    case Go
    then have "rd_instant rd < deadline" using rd by (auto simp: serve_round_def serving_def split: if_splits)
    then show ?thesis using Cons.IH [of b1] Cons.prems rd Go by auto
  next
    case (Return r)
    then show ?thesis using rd serve_round_return by auto
  qed
qed simp

text \<open>
  A session issued by the owner is usable by its front end until it expires. Whatever sessions were
  handled in between, a front end that reads the session file after the owner started and before the
  expiry gets the remaining time as its lifetime, which is at most one day.
\<close>

theorem issued_session_suits_frontend:
  assumes "startup env jt opts io h = (Inr rn, h')" and "digest_length ex"
    and "(session_step ex {})\<^sup>*\<^sup>* (bk_sessions (rn_broker rn)) s"
    and "issue ex ut s princ tasks expires_at now valid random sid = (Inr response, s')"
    and "su_now io \<le> later" and "later < expires_at"
  shows "frontend_deadline expires_at later = Inr (nat (expires_at - later)) \<and> nat (expires_at - later) \<le> 86400"
proof -
  obtain lifetime where l: "lifetimes (rn_config rn) = Inr (lifetime, rn_idle rn)"
      "bk_sessions (rn_broker rn) = new_sessions (sc_owner (rn_config rn)) (sc_workspace (rn_config rn))
         (sc_admin_principal (rn_config rn)) (ro_bridge_socket opts) (su_now io + int lifetime)"
    by (rule startup_broker [OF assms(1)])
  have "ss_deadline s = su_now io + int lifetime"
    using session_steps_ok [OF assms(3,2)] l(2) new_sessions_ok by (simp add: same_identity_def new_sessions_def)
  moreover have "expires_at \<le> ss_deadline s"
    by (rule issue_Inr [OF assms(4)]) (simp add: issue_refused_def unexpired_def)
  ultimately have "expires_at - later \<le> 86400" using lifetimes_Inr [OF l(1)] assms(5) by simp
  then show ?thesis
    using assms(6) by (simp add: frontend_deadline_def Let_def time_min_def time_max_def max_lifetime_secs_def)
qed

section \<open>Witnesses\<close>

definition demo_vault :: vault where
  "demo_vault = \<lparr>dv_app = default_application,
     dv_store = \<lparr>st_key = [], st_salt = [], st_kdf = kdf_current, st_current_image = None, st_blocked = False,
       st_persisted_last_time = None, st_persisted_frozen = False\<rparr>,
     dv_frozen = False, dv_dir = []\<rparr>"

definition demo_broker :: broker where
  "demo_broker = \<lparr>bk_vault = demo_vault, bk_sessions = new_sessions ''owner'' ''work'' ''admin'' (Some ''/s'') 1000,
     bk_peers = initial_peers demo_config, bk_last_request = 7\<rparr>"

definition demo_services :: services where
  "demo_services = \<lparr>sv_env = ex_env\<lparr>en_ext := demo_ex\<rparr>, sv_text = demo_text,
     sv_uuid = (\<lambda>_. []), sv_decode = \<lparr>de_work = (\<lambda>_. None), de_control = (\<lambda>_. None)\<rparr>, sv_destinations = []\<rparr>"

definition demo_request_io :: request_io where
  "demo_request_io = \<lparr>rq_now = 20, rq_prepared = 20, rq_handoff = 20, rq_fresh = 9, rq_entropy = [], rq_publish = ex_io,
     rq_finish = ex_io, rq_euid = 0, rq_stat = (\<lambda>_. None), rq_child_ok = True, rq_ticks = [], rq_random = None,
     rq_deadline_secs = 1\<rparr>"

definition demo_turn :: turn where
  "demo_turn = \<lparr>tu_expired_before = False, tu_ready = True, tu_live_now = 20, tu_arrived = [0, 0, 0, 4, 116, 114, 117, 101],
     tu_reads = replicate 8 (Move 1), tu_received_at = 8, tu_expired_after = False, tu_permit_now = 20,
     tu_io = demo_request_io, tu_writes = []\<rparr>"

definition demo_round :: "nat \<Rightarrow> round" where
  "demo_round instant = \<lparr>rd_instant = instant, rd_now = (\<lambda>_. 20), rd_poll = Polled, rd_turns = [demo_turn, demo_turn],
     rd_admission_ready = False, rd_expired = False, rd_accepted = None, rd_accept_open = True, rd_accept_now = 20,
     rd_admitted_at = 8\<rparr>"

theorem use_needs_configured_destination_witness:
  "\<exists>e. work demo_services demo_vault (from_authenticated_peer ''owner'' ''agent'' ''work'')
     (WUse 7 \<lparr>pu_request = 1, pu_record = 2, pu_fields = {ApiKey}, pu_destination = ''anywhere'', pu_action = ActUse\<rparr>)
     demo_request_io = (Inl e, demo_vault)"
  by (rule use_needs_configured_destination) (simp add: demo_services_def)

theorem workload_turn_is_confined_witness:
  "\<exists>p' b' flow. serve_peer demo_services demo_broker (initial_peers demo_config ! 1) demo_turn = (p', b', flow)
     \<and> bk_sessions b' = bk_sessions demo_broker"
proof -
  obtain p' b' flow where t: "serve_peer demo_services demo_broker (initial_peers demo_config ! 1) demo_turn = (p', b', flow)"
    by (metis prod_cases3)
  have "\<not> pe_admin (initial_peers demo_config ! 1)" by (simp add: initial_peers_def demo_config_def fresh_peer_def new_peer_def)
  from workload_turn_is_confined [OF t this] t show ?thesis by blast
qed

lemma demo_digests: "digest_length (en_ext (sv_env demo_services))"
  using demo_digest_length by (simp add: demo_services_def)

theorem peer_authority_is_fixed_witness:
  "\<exists>rn h b r. startup ex_life_env demo_text demo_options demo_startup demo_host = (Inr rn, h)
     \<and> serve demo_services 997 (Some 60) (rn_broker rn) [demo_round 8, demo_round 50] = (b, r)
     \<and> length (filter pe_admin (bk_peers b)) \<le> 1"
proof (rule demo_started)
  fix v l h
  assume st: "startup ex_life_env demo_text demo_options demo_startup demo_host = (Inr (demo_running v l), h)"
  have d: "rn_deadline (demo_running v l) = 997" "rn_idle (demo_running v l) = Some 60" by (simp_all add: demo_running_def)
  obtain b r where s: "serve demo_services (rn_deadline (demo_running v l)) (rn_idle (demo_running v l))
      (rn_broker (demo_running v l)) [demo_round 8, demo_round 50] = (b, r)"
    by (metis surj_pair)
  from peer_authority_is_fixed [OF st demo_digests s] st s d show ?thesis by metis
qed

theorem answer_never_rejected_locally_witness:
  "\<exists>jt e ch'. send jt (bounded_response jt JNull) [Expired] demo_channel = (Inl e, ch') \<and> (e = ChannelIo \<or> e = ChannelTimeout)"
proof -
  let ?jt = "demo_text\<lparr>jt_chunks := \<lambda>_. [[116]]\<rparr>"
  have f: "fits_frame ?jt (failure Capacity)" "fits_frame ?jt JNull"
    by (simp_all add: fits_frame_def failure_def json_object_def max_nesting_def max_frame_bytes_def)
  obtain hd tl where h: "to_be32 (word_of_nat 1) = hd # tl"
    by (metis be32.length_enc length_0_conv list.exhaust zero_neq_numeral)
  have "encode_frame ?jt JNull = Inr [116]" by (simp add: encode_frame_def max_frame_bytes_def)
  then have s: "send ?jt (bounded_response ?jt JNull) [Expired] demo_channel
      = (Inl ChannelTimeout, demo_channel\<lparr>ch_poisoned := True\<rparr>)"
    using f(2) h by (simp add: bounded_response_def send_def fail_def demo_channel_def)
  have "ChannelTimeout = ChannelIo \<or> ChannelTimeout = ChannelTimeout"
    by (rule answer_never_rejected_locally [OF f(1) _ _ s]) (simp_all add: demo_channel_def)
  with s show ?thesis by blast
qed

theorem serving_ends_at_deadline_witness:
  "\<exists>b' r. serve demo_services 997 None demo_broker [demo_round 8, demo_round 1000] = (b', Some r)"
  using serving_ends_at_deadline [of "[demo_round 8, demo_round 1000]" 997 demo_services None demo_broker]
  by (auto simp: demo_round_def)

theorem issued_session_suits_frontend_witness:
  "frontend_deadline 500 30 = Inr (nat (500 - 30)) \<and> nat (500 - 30) \<le> 86400"
proof (rule demo_started)
  fix v l h
  assume st: "startup ex_life_env demo_text demo_options demo_startup demo_host = (Inr (demo_running v l), h)"
  have b: "bk_sessions (rn_broker (demo_running v l)) = demo_table" by (simp add: demo_running_def demo_table_def)
  obtain response where i: "issue demo_ex (\<lambda>_. []) demo_table ''agent'' [3] 500 10 (\<lambda>_ _. Inr ()) (Some demo_random) 5
     = (Inr response, demo_issued)"
    using demo_issue by blast
  have "(session_step demo_ex {})\<^sup>*\<^sup>* (bk_sessions (rn_broker (demo_running v l))) demo_table" using b by simp
  from issued_session_suits_frontend [OF st demo_digest_length this i, of 30] show ?thesis
    by (simp add: demo_startup_def)
qed

end
