(* ===== verification/Mcp_Properties.thy ===== *)
theory Mcp_Properties
  imports Mcp Serve_Properties
begin

text \<open>
  Properties of the front end: the order of the protocol, what a tool call sends to the owner, and the
  reading of lines.
\<close>

section \<open>The protocol\<close>

fun mcp_next :: "mcp_state \<Rightarrow> mcp_state set" where
  "mcp_next Initialize = {Initialize, Initialized}"
| "mcp_next Initialized = {Initialized, Ready}"
| "mcp_next Ready = {Ready}"

definition answers :: "json \<Rightarrow> json \<Rightarrow> bool" where
  "answers response mid = (case response of JObject m \<Rightarrow> map_of m ''id'' = Some mid | _ \<Rightarrow> False)"

lemma rpc_answers [simp]: "answers (rpc_error mid code text) mid" "answers (rpc_result mid v) mid"
  by (simp_all add: answers_def rpc_error_def rpc_result_def json_object_def)

definition orderly :: "json \<Rightarrow> mcp_state \<Rightarrow> channel \<Rightarrow> json \<times> mcp_state \<times> channel \<Rightarrow> bool" where
  "orderly mid st ch outcome = (case outcome of (response, st', ch') \<Rightarrow>
     answers response mid \<and> st' \<in> mcp_next st \<and> (st' = Ready \<longrightarrow> st = Ready) \<and> (ch' = ch \<or> st = Ready))"

lemma orderly_if: "(P \<Longrightarrow> orderly mid st ch x) \<Longrightarrow> (\<not> P \<Longrightarrow> orderly mid st ch y) \<Longrightarrow> orderly mid st ch (if P then x else y)"
  by simp

lemma orderly_stay: "answers response mid \<Longrightarrow> orderly mid st ch (response, st, ch)"
  by (cases st) (simp_all add: orderly_def)

lemma orderly_run: "orderly mid st ch (run_method sv xc name mid params st ch)"
  unfolding run_method_def invalid_params_def
proof (intro orderly_if)
  assume "name = ''initialize'' \<and> st = Initialize"
  then have st: "st = Initialize" by blast
  show "orderly mid st ch (case Option.bind params parse_initialize of
      None \<Rightarrow> (rpc_error mid (- 32602) ''Invalid params'', st, ch)
    | Some p \<Rightarrow> if acceptable p then (rpc_result mid (initialize_result p), Initialized, ch)
        else (rpc_error mid (- 32602) ''Invalid params'', st, ch))"
    unfolding st by (simp add: orderly_def split: option.split)
next
  assume "name = ''tools/call'' \<and> st = Ready"
  then have st: "st = Ready" by blast
  show "orderly mid st ch (case Option.bind (Option.bind params parse_call) (work_message (sv_decode sv)) of
      None \<Rightarrow> (rpc_error mid (- 32602) ''Invalid params'', st, ch)
    | Some request \<Rightarrow> (case call_owner (sv_text sv) xc ch request of
        (response, ch') \<Rightarrow> (rpc_result mid (tool_result (sv_text sv) response), st, ch')))"
    unfolding st by (simp add: orderly_def split: option.split prod.split)
qed (rule orderly_stay, simp)+

text \<open>
  The front end follows the protocol. Every message with an identifier gets exactly one answer, which
  carries that identifier if the message is well formed, and a notification gets none. The state only
  moves from the start over the accepted initialisation to ready, the last step by a notification, and
  nothing is exchanged with the owner before the front end is ready.
\<close>

theorem mcp_follows_protocol:
  "(fst (dispatch sv xc v st ch) = None \<longleftrightarrow> (\<exists>m. v = JObject m \<and> map_of m ''id'' = None))
   \<and> (v = JObject m \<and> valid_message m \<and> map_of m ''id'' = Some mid \<longrightarrow>
        (\<exists>response. fst (dispatch sv xc v st ch) = Some response \<and> answers response mid))
   \<and> fst (snd (dispatch sv xc v st ch)) \<in> mcp_next st
   \<and> (fst (snd (dispatch sv xc v st ch)) = Ready \<longrightarrow> st = Ready \<or> fst (dispatch sv xc v st ch) = None)
   \<and> (snd (snd (dispatch sv xc v st ch)) = ch \<or> st = Ready)"
proof (cases v)
  case (JObject m')
  have stay: "st \<in> mcp_next st" by (cases st) auto
  have step: "notified name params st \<in> mcp_next st" for name params by (cases st) (auto simp: notified_def)
  show ?thesis
  proof (cases "map_of m' ''id''")
    case None
    then show ?thesis
      using JObject stay step by (auto simp: dispatch_def split: option.splits)
  next
    case (Some i)
    show ?thesis
    proof (cases "valid_message m'")
      case False
      then show ?thesis using JObject Some stay by (auto simp: dispatch_def)
    next
      case valid: True
      show ?thesis
      proof (cases "strip_meta (message_params m')")
        case None
        then show ?thesis using JObject Some stay valid by (auto simp: dispatch_def invalid_params_def)
      next
        case (Some params)
        obtain response st' ch' where r: "run_method sv xc (method_name m') i params st ch = (response, st', ch')"
          by (metis prod_cases3)
        then have "answers response i \<and> st' \<in> mcp_next st \<and> (st' = Ready \<longrightarrow> st = Ready) \<and> (ch' = ch \<or> st = Ready)"
          using orderly_run [of i st ch sv xc "method_name m'" params] by (simp add: orderly_def)
        then show ?thesis using JObject \<open>map_of m' ''id'' = Some i\<close> valid Some r by (auto simp: dispatch_def)
      qed
    qed
  qed
qed (cases st; simp add: dispatch_def)+

section \<open>Tool calls\<close>

lemma write_until_prefix: "write_until bs es sent = (r, es', sent') \<Longrightarrow> \<exists>n. sent' = sent @ take n bs"
proof (induction bs es sent rule: write_until.induct)
  case (6 b bs k es sent)
  then show ?case
  proof (cases "k = 0")
    case False
    then obtain n where "sent' = (sent @ take k (b # bs)) @ take n (drop k (b # bs))" using 6 by auto
    then show ?thesis by (intro exI [of _ "k + n"]) (simp add: take_add)
  qed (auto intro: exI [of _ 0])
qed (auto intro: exI [of _ 0])

lemma send_prefix:
  assumes "send jt v es ch = (r, ch')"
  shows "\<exists>n. ch_sent ch' = ch_sent ch @ take n (frame jt v)"
proof (cases "ch_poisoned ch \<or> (\<exists>e. encode_frame jt v = Inl e)")
  case True
  then have "ch_sent ch' = ch_sent ch" using assms by (auto simp: send_def fail_def split: if_splits)
  then show ?thesis by (intro exI [of _ 0]) simp
next
  case False
  then obtain bytes where "encode_frame jt v = Inr bytes" by (cases "encode_frame jt v") auto
  then have bytes: "encode_frame jt v = Inr (concat (jt_chunks jt v))" using encode_frame_Inr by metis
  let ?h = "to_be32 (word_of_nat (length (concat (jt_chunks jt v))))"
  obtain r1 es1 s1 where w1: "write_until ?h es (ch_sent ch) = (r1, es1, s1)" by (metis prod_cases3)
  obtain r2 es2 s2 where w2: "write_until (concat (jt_chunks jt v)) es1 s1 = (r2, es2, s2)" by (metis prod_cases3)
  obtain n1 where n1: "s1 = ch_sent ch @ take n1 ?h" using write_until_prefix [OF w1] by blast
  obtain n2 where n2: "s2 = s1 @ take n2 (concat (jt_chunks jt v))" using write_until_prefix [OF w2] by blast
  show ?thesis
  proof (cases r1)
    case (Inl e)
    then have "ch_sent ch' = s1" using assms False bytes w1 by (auto simp: send_def fail_def)
    then show ?thesis using n1 by (intro exI [of _ "min n1 (length ?h)"]) (simp add: frame_def min_def)
  next
    case (Inr u)
    then have "s1 = ch_sent ch @ ?h" using write_until_Inr [of ?h es "ch_sent ch" es1 s1] w1 by simp
    moreover have "ch_sent ch' = s2" using assms False bytes w1 w2 Inr by (auto simp: send_def fail_def split: sum.splits)
    ultimately show ?thesis using n2 by (intro exI [of _ "length ?h + n2"]) (simp add: frame_def)
  qed
qed

lemma receive_sent: "receive jt es ch = (r, ch') \<Longrightarrow> ch_sent ch' = ch_sent ch"
  by (auto simp: receive_def fail_def split: if_splits prod.splits sum.splits)

lemma call_owner_sent:
  assumes "call_owner jt xc ch request = (response, ch')"
  shows "\<exists>n. ch_sent ch' = ch_sent ch @ take n (frame jt request)"
proof (cases "fits_frame jt request")
  case True
  obtain r ch1 where s: "send jt request (xc_writes xc) ch = (r, ch1)" by (metis surj_pair)
  have "ch_sent ch' = ch_sent ch1"
    using assms True s by (auto simp: call_owner_def dest!: receive_sent split: sum.splits prod.splits)
  then show ?thesis using send_prefix [OF s] by simp
qed (use assms in \<open>auto simp: call_owner_def intro: exI [of _ 0]\<close>)

lemma work_message_Some:
  assumes "work_message de call = Some request"
  shows "\<exists>op args w. tool_op (fst call) = Some op \<and> map_of args ''op'' = None
    \<and> request = JObject (bt_insert ''op'' (JString op) args) \<and> de_work de request = Some w"
  using assms
  by (auto simp: work_message_def Let_def bt_contains_def split: prod.splits option.splits if_splits)

lemma tool_op_cases: "tool_op name = Some op \<Longrightarrow> op \<in> {''generate'', ''mutate'', ''metadata'', ''use''}"
  by (auto simp: tool_op_def split: if_splits)

text \<open>
  A message to the front end sends the owner at most one work request. If a byte goes out, the bytes
  are the start of one frame of a request that decodes as a work request, whose operation is fixed by
  the tool and is one of the four for workloads, so no message reaches an administration control and
  none is sent twice.
\<close>

theorem tool_call_sends_one_work_request:
  assumes "dispatch sv xc v st ch = (r, st', ch')" and "ch_sent ch' \<noteq> ch_sent ch"
  shows "\<exists>request members op w n. ch_sent ch' = ch_sent ch @ take n (frame (sv_text sv) request)
    \<and> request = JObject members \<and> map_of members ''op'' = Some (JString op)
    \<and> op \<in> {''generate'', ''mutate'', ''metadata'', ''use''} \<and> de_work (sv_decode sv) request = Some w"
proof -
  obtain m i params where "run_method sv xc (method_name m) i params st ch = (the r, st', ch')"
    using assms by (auto simp: dispatch_def split: json.splits option.splits if_splits prod.splits)
  then obtain call request response where c: "work_message (sv_decode sv) call = Some request"
      "call_owner (sv_text sv) xc ch request = (response, ch')"
    using assms(2) by (auto simp: run_method_def bind_eq_Some_conv split: if_splits option.splits prod.splits)
  obtain op args w where w: "tool_op (fst call) = Some op" "request = JObject (bt_insert ''op'' (JString op) args)"
      "de_work (sv_decode sv) request = Some w"
    using work_message_Some [OF c(1)] by blast
  obtain n where "ch_sent ch' = ch_sent ch @ take n (frame (sv_text sv) request)" using call_owner_sent [OF c(2)] by blast
  then show ?thesis using w tool_op_cases [OF w(1)] by auto
qed

section \<open>Lines\<close>

lemma takeWhile_line: "10 \<notin> set xs \<Longrightarrow> takeWhile (\<lambda>b. b \<noteq> 10) (xs @ 10 # ys) = xs" for xs :: "u8 list"
  by (induction xs) auto

text \<open>
  A line is read as it was sent. However the input is cut into pieces, a line of at most a frame's
  length comes back whole and what follows it stays to be read.
\<close>

theorem read_line_returns_line:
  assumes "concat pieces = body @ 10 # rest" and "10 \<notin> set body" and "[] \<notin> set pieces"
    and "length (bytes @ body) \<le> max_frame_bytes"
  shows "\<exists>pieces'. read_line bytes pieces = (Line (bytes @ body), pieces') \<and> concat pieces' = rest"
  using assms
proof (induction pieces arbitrary: bytes body)
  case (Cons piece pieces)
  let ?before = "takeWhile (\<lambda>b. b \<noteq> 10) piece"
  have piece: "piece \<noteq> []" using Cons.prems(3) by auto
  show ?case
  proof (cases "10 \<in> set piece")
    case True
    then obtain xs ys where xy: "piece = xs @ 10 # ys" "10 \<notin> set xs" by (meson split_list_first)
    have "xs = body \<and> ys @ concat pieces = rest"
    proof -
      have e: "xs @ 10 # (ys @ concat pieces) = body @ 10 # rest" using Cons.prems(1) xy(1) by simp
      then have "xs = body"
        using takeWhile_line [OF xy(2), of "ys @ concat pieces"] takeWhile_line [OF Cons.prems(2), of rest] by simp
      then show ?thesis using e by simp
    qed
    then show ?thesis
      using xy Cons.prems(4) piece takeWhile_line [OF xy(2), of ys] by (auto simp: Let_def)
  next
    case False
    then have w: "?before = piece" by (auto simp: takeWhile_eq_all_conv)
    obtain body' where t: "body = piece @ body'" "concat pieces = body' @ 10 # rest"
    proof -
      have e: "piece @ concat pieces = body @ 10 # rest" using Cons.prems(1) by simp
      have "length piece \<le> length body"
      proof (rule ccontr)
        assume "\<not> length piece \<le> length body"
        then have "piece ! length body = 10" using e by (metis le_less_linear nth_append nth_append_length)
        then show False using False \<open>\<not> length piece \<le> length body\<close> by (metis le_less_linear nth_mem)
      qed
      then show ?thesis using e by (metis append_eq_append_conv_if append_take_drop_id that)
    qed
    then have "\<exists>pieces'. read_line (bytes @ piece) pieces = (Line ((bytes @ piece) @ body'), pieces') \<and> concat pieces' = rest"
      using Cons.prems by (intro Cons.IH) auto
    moreover have "read_line bytes (piece # pieces) = read_line (bytes @ piece) pieces"
      unfolding read_line.simps Let_def w using piece t Cons.prems(4) by simp
    ultimately show ?thesis using t(1) by simp
  qed
qed simp

section \<open>Witnesses\<close>

definition demo_ping :: members where
  "demo_ping = [(''id'', JNumber (NInt 1)), (''jsonrpc'', JString ''2.0''), (''method'', JString ''ping'')]"

definition demo_exchange :: exchange where
  "demo_exchange = \<lparr>xc_writes = [Move 10, Move 10], xc_arrived = [], xc_reads = []\<rparr>"

theorem mcp_follows_protocol_witness:
  "\<exists>response. fst (dispatch demo_services demo_exchange (JObject demo_ping) Initialize demo_channel) = Some response
     \<and> answers response (JNumber (NInt 1))"
proof -
  have "valid_message demo_ping" "map_of demo_ping ''id'' = Some (JNumber (NInt 1))"
    by (simp_all add: valid_message_def demo_ping_def valid_id_def valid_method_def bt_keys_def)
  then show ?thesis
    using mcp_follows_protocol [of demo_services demo_exchange "JObject demo_ping" Initialize demo_channel demo_ping "JNumber (NInt 1)"]
    by blast
qed

definition demo_tools :: services where
  "demo_tools = demo_services\<lparr>sv_text := demo_text\<lparr>jt_chunks := \<lambda>_. [[116]]\<rparr>,
     sv_decode := \<lparr>de_work = (\<lambda>_. Some (WMetadata 1 2 {Label})), de_control = (\<lambda>_. None)\<rparr>\<rparr>"

definition demo_call :: json where
  "demo_call = JObject [(''id'', JNumber (NInt 1)), (''jsonrpc'', JString ''2.0''), (''method'', JString ''tools/call''),
     (''params'', JObject [(''arguments'', JObject []), (''name'', JString ''credman_metadata'')])]"

lemma demo_call_sends:
  "\<exists>r st' ch'. dispatch demo_tools demo_exchange demo_call Ready demo_channel = (r, st', ch') \<and> ch_sent ch' \<noteq> ch_sent demo_channel"
proof -
  let ?request = "JObject [(''op'', JString ''metadata'')]"
  obtain hd tl where h: "to_be32 1 = hd # tl"
    by (metis be32.length_enc length_0_conv list.exhaust zero_neq_numeral)
  have f: "fits_frame (sv_text demo_tools) ?request" "encode_frame (sv_text demo_tools) ?request = Inr [116]"
    by (simp_all add: demo_tools_def fits_frame_def encode_frame_def max_nesting_def max_frame_bytes_def)
  obtain response ch' where c: "call_owner (sv_text demo_tools) demo_exchange demo_channel ?request = (response, ch')"
    by (metis surj_pair)
  have len: "length (hd # tl) = 4" unfolding h [symmetric] by (rule be32.length_enc)
  have "send (sv_text demo_tools) ?request [Move 10, Move 10] demo_channel = (Inr (), demo_channel\<lparr>ch_sent := hd # tl @ [116]\<rparr>)"
    using len by (simp add: send_def f h demo_channel_def)
  then have "ch_sent ch' \<noteq> ch_sent demo_channel"
    using c f by (auto simp: call_owner_def demo_exchange_def demo_channel_def dest!: receive_sent split: prod.splits sum.splits)
  moreover have "dispatch demo_tools demo_exchange demo_call Ready demo_channel =
      (Some (rpc_result (JNumber (NInt 1)) (tool_result (sv_text demo_tools) response)), Ready, ch')"
    using c by (simp add: dispatch_def demo_call_def valid_message_def valid_id_def valid_method_def bt_keys_def message_params_def
        strip_meta_def method_name_def run_method_def parse_call_def work_message_def tool_op_def bt_contains_def demo_tools_def)
  ultimately show ?thesis by blast
qed

theorem tool_call_sends_one_work_request_witness:
  "\<exists>(ch' :: channel) request n. ch_sent ch' = ch_sent demo_channel @ take n (frame (sv_text demo_tools) request) \<and> ch_sent ch' \<noteq> []
     \<and> de_work (sv_decode demo_tools) request = Some (WMetadata 1 2 {Label})"
proof -
  obtain r st' ch' where d: "dispatch demo_tools demo_exchange demo_call Ready demo_channel = (r, st', ch')"
      "ch_sent ch' \<noteq> ch_sent demo_channel"
    using demo_call_sends by blast
  obtain request n where "ch_sent ch' = ch_sent demo_channel @ take n (frame (sv_text demo_tools) request)"
    using tool_call_sends_one_work_request [OF d] by blast
  moreover have "ch_sent ch' \<noteq> []" using d(2) by (simp add: demo_channel_def)
  moreover have "de_work (sv_decode demo_tools) request = Some (WMetadata 1 2 {Label})" by (simp add: demo_tools_def)
  ultimately show ?thesis by blast
qed

theorem read_line_returns_line_witness:
  "\<exists>pieces'. read_line [] [[104], [105, 10, 106]] = (Line [104, 105], pieces') \<and> concat pieces' = [106]"
  using read_line_returns_line [of "[[104], [105, 10, 106]]" "[104, 105]" "[106]" "[]"] by (simp add: max_frame_bytes_def)

end
