(* ===== verification/Admin.thy ===== *)
theory Admin
  imports Startup Backup Recovery
begin

text \<open>
  Offline administration (\<^verbatim>\<open>src/src/agent_admin.rs\<close>) and the process status of the command line
  (\<^verbatim>\<open>src/src/cli.rs\<close>), over the process and the vault directory; the descriptors are those of
  \<open>Descriptors\<close> and the vault operations those of the durable owner.
\<close>

section \<open>Descriptors\<close>

datatype operation =
    OpBackup int bool int
  | OpRestore int bool int
  | OpRecover
  | OpRekey int

record options =
  ao_seed_fd :: int
  ao_identity_fd :: int
  ao_operation :: operation

record identity =
  id_owner :: string
  id_principal :: string
  id_workspace :: string

definition input_fds :: "options \<Rightarrow> int list" where
  "input_fds opts = [ao_seed_fd opts, ao_identity_fd opts] @
     (case ao_operation opts of
        OpBackup secret_fd _ _ \<Rightarrow> [secret_fd]
      | OpRestore secret_fd _ backup_fd \<Rightarrow> [secret_fd, backup_fd]
      | OpRecover \<Rightarrow> []
      | OpRekey new_seed_fd \<Rightarrow> [new_seed_fd])"

definition output_fd :: "options \<Rightarrow> int option" where
  "output_fd opts = (case ao_operation opts of OpBackup _ _ fd \<Rightarrow> Some fd | _ \<Rightarrow> None)"

text \<open>
  The output becomes a file of the process: open for writing, owned and private, an empty file at its
  start or a pipe, and none of the inputs.
\<close>

definition check_output :: "nat \<Rightarrow> descriptors \<Rightarrow> int \<Rightarrow> int list \<Rightarrow> error + unit" where
  "check_output euid fds fd inputs =
     (let d = fds fd; m = fd_metadata d in
      if \<not> fd_writable d \<or> fm_uid m \<noteq> euid \<or> and (fm_mode m) 63 \<noteq> 0 \<or> 1 < fd_nlink d then Inl Invalid
      else if (if fm_is_file m then fm_len m \<noteq> 0 \<or> fd_offset d \<noteq> 0 else \<not> fd_fifo d) then Inl Invalid
      else if list_ex (\<lambda>input. \<not> fd_open (fds input) \<or> fd_identity (fds input) = fd_identity d) inputs then Inl Invalid
      else Inr ())"

definition output_file :: "fd_calls \<Rightarrow> nat \<Rightarrow> int \<Rightarrow> int list \<Rightarrow> descriptors \<Rightarrow> (error + unit) \<times> descriptors" where
  "output_file k euid fd inputs fds =
     (case open_fd k fd fds of
        (Inl e, fds) \<Rightarrow> (Inl e, fds)
      | (Inr _, fds) \<Rightarrow>
          (case check_output euid fds fd inputs of
             Inl e \<Rightarrow> (Inl e, close_fd fd fds)
           | Inr _ \<Rightarrow> (Inr (), fds)))"

section \<open>The operations\<close>

record admin_io =
  ai_calls :: fd_calls
  ai_euid :: nat
  ai_identity :: "u8 list \<Rightarrow> identity option"
  ai_lock :: lock_result
  ai_gate_failed :: bool
  ai_salt :: "u8 list"
  ai_nonce :: "u8 list"
  ai_now :: time
  ai_publish :: publish_io
  ai_recover :: recover_io
  ai_write_ok :: bool
  ai_stat_ok :: bool
  ai_sync_ok :: bool

definition identity_context :: "identity \<Rightarrow> error + auth_context" where
  "identity_context i =
     (if list_ex (\<lambda>s. blank s \<or> 2048 < length s) [id_owner i, id_principal i, id_workspace i] then Inl Invalid
      else Inr (from_authenticated_admin (id_owner i) (id_principal i) (id_workspace i)))"

definition parse_identity :: "admin_io \<Rightarrow> u8 list \<Rightarrow> error + auth_context" where
  "parse_identity io bytes =
     (case ai_identity io bytes of None \<Rightarrow> Inl Invalid | Some i \<Rightarrow> identity_context i)"

definition backup_kind :: "bool \<Rightarrow> string \<Rightarrow> backup_secret" where
  "backup_kind passphrase s = (if passphrase then Passphrase s else Seed s)"

definition write_output :: "admin_io \<Rightarrow> descriptor \<Rightarrow> error + unit" where
  "write_output io d =
     (if \<not> ai_write_ok io \<or> \<not> ai_stat_ok io then Inl InteractionRequired
      else if fm_is_file (fd_metadata d) \<and> \<not> ai_sync_ok io then Inl InteractionRequired
      else Inr ())"

text \<open>What is written to the output, with the result.\<close>

type_synonym run_outcome = "(error + u8 list option) \<times> host"

definition run_backup ::
    "environment \<Rightarrow> admin_io \<Rightarrow> string \<Rightarrow> auth_context \<Rightarrow> int \<Rightarrow> bool \<Rightarrow> int \<Rightarrow> host \<Rightarrow> run_outcome" where
  "run_backup env io seed ctx secret_fd passphrase out_fd h =
     and_then (on_fds (read_text (ai_calls io) secret_fd) h) (\<lambda>s h.
     and_then (open_vault env (ho_directory h) (ai_lock io) (ai_gate_failed io) seed, h) (\<lambda>v h.
     and_then (export_backup env v ctx (backup_kind passphrase s) (ai_salt io) (ai_nonce io), h) (\<lambda>bytes h.
     and_then (write_output io (host_fds h out_fd), h) (\<lambda>_ h.
       (Inr (Some bytes), h)))))"

definition run_restore ::
    "environment \<Rightarrow> admin_io \<Rightarrow> string \<Rightarrow> auth_context \<Rightarrow> int \<Rightarrow> bool \<Rightarrow> int \<Rightarrow> host \<Rightarrow> run_outcome" where
  "run_restore env io seed ctx secret_fd passphrase backup_fd h =
     and_then (on_fds (read_text (ai_calls io) secret_fd) h) (\<lambda>s h.
     and_then (on_fds (read_fd (ai_calls io) backup_fd (32 * 1024 * 1024)) h) (\<lambda>bytes h.
       case restore_backup env (ho_directory h) (ai_lock io) (ai_gate_failed io) seed ctx bytes (backup_kind passphrase s)
              (ai_now io) (ai_salt io) (ai_publish io) of
         (Inl e, dir) \<Rightarrow> (Inl e, h\<lparr>ho_directory := dir\<rparr>)
       | (Inr _, dir) \<Rightarrow> (Inr None, h\<lparr>ho_directory := dir\<rparr>)))"

definition run_recover :: "environment \<Rightarrow> admin_io \<Rightarrow> string \<Rightarrow> auth_context \<Rightarrow> host \<Rightarrow> run_outcome" where
  "run_recover env io seed ctx h =
     (case recover_at env (ho_directory h) (ai_lock io) seed ctx (ai_now io) (ai_recover io) of
        (Inl e, dir) \<Rightarrow> (Inl e, h\<lparr>ho_directory := dir\<rparr>)
      | (Inr _, dir) \<Rightarrow> (Inr None, h\<lparr>ho_directory := dir\<rparr>))"

definition run_rekey ::
    "environment \<Rightarrow> admin_io \<Rightarrow> string \<Rightarrow> auth_context \<Rightarrow> int \<Rightarrow> host \<Rightarrow> run_outcome" where
  "run_rekey env io seed ctx new_seed_fd h =
     and_then (on_fds (read_text (ai_calls io) new_seed_fd) h) (\<lambda>new_seed h.
     and_then (open_vault env (ho_directory h) (ai_lock io) (ai_gate_failed io) seed, h) (\<lambda>v h.
       case rekey env v ctx new_seed (ai_salt io) (ai_publish io) of
         (Inl e, v') \<Rightarrow> (Inl e, h\<lparr>ho_directory := dv_dir v'\<rparr>)
       | (Inr _, v') \<Rightarrow> (Inr None, h\<lparr>ho_directory := dv_dir v'\<rparr>)))"

definition run_operation ::
    "environment \<Rightarrow> admin_io \<Rightarrow> string \<Rightarrow> auth_context \<Rightarrow> operation \<Rightarrow> host \<Rightarrow> run_outcome" where
  "run_operation env io seed ctx op h =
     (case op of
        OpBackup secret_fd passphrase out_fd \<Rightarrow> run_backup env io seed ctx secret_fd passphrase out_fd h
      | OpRestore secret_fd passphrase backup_fd \<Rightarrow> run_restore env io seed ctx secret_fd passphrase backup_fd h
      | OpRecover \<Rightarrow> run_recover env io seed ctx h
      | OpRekey new_seed_fd \<Rightarrow> run_rekey env io seed ctx new_seed_fd h)"

text \<open>Everything before the operation: the output is checked before any input is read.\<close>

definition prepare_run :: "admin_io \<Rightarrow> options \<Rightarrow> host \<Rightarrow> (error + auth_context \<times> string) \<times> host" where
  "prepare_run io opts h =
     and_then (on_process (harden (ai_calls io)) h) (\<lambda>_ h.
     and_then (on_fds (open_distinct (ai_calls io) []
         (input_fds opts @ (case output_fd opts of None \<Rightarrow> [] | Some fd \<Rightarrow> [fd]))) h) (\<lambda>unique h.
     and_then (on_fds (close_unlisted (ai_calls io) unique) h) (\<lambda>_ h.
     and_then (on_fds (\<lambda>fds. case output_fd opts of
         None \<Rightarrow> (Inr (), fds)
       | Some fd \<Rightarrow> output_file (ai_calls io) (ai_euid io) fd (input_fds opts) fds) h) (\<lambda>_ h.
     and_then (on_fds (read_fd (ai_calls io) (ao_identity_fd opts) 65536) h) (\<lambda>bytes h.
     and_then (parse_identity io bytes, h) (\<lambda>ctx h.
     and_then (on_fds (read_text (ai_calls io) (ao_seed_fd opts)) h) (\<lambda>seed h.
       (Inr (ctx, seed), h))))))))"

definition run :: "environment \<Rightarrow> admin_io \<Rightarrow> options \<Rightarrow> host \<Rightarrow> run_outcome" where
  "run env io opts h =
     and_then (prepare_run io opts h) (\<lambda>(ctx, seed) h. run_operation env io seed ctx (ao_operation opts) h)"

section \<open>Process status\<close>

fun exit_code :: "error \<Rightarrow> int" where
  "exit_code Denied = 10"
| "exit_code Invalid = 11"
| "exit_code Conflict = 12"
| "exit_code ReplayConflict = 13"
| "exit_code ClockRecoveryRequired = 14"
| "exit_code Capacity = 15"
| "exit_code InteractionRequired = 16"
| "exit_code GenerationUnavailable = 17"
| "exit_code NotPublished = 18"
| "exit_code RecoveryRequired = 19"
| "exit_code InvalidStorage = 20"
| "exit_code InUse = 21"

record startup_failure =
  sfl_command :: string
  sfl_error :: error

definition report :: "startup_failure \<Rightarrow> string" where
  "report f = ''credman '' @ sfl_command f @ '': '' @ error_text (sfl_error f)"

definition main_status :: "string \<Rightarrow> error + unit \<Rightarrow> int \<times> string option" where
  "main_status command result =
     (case result of
        Inr _ \<Rightarrow> (0, None)
      | Inl e \<Rightarrow> let f = \<lparr>sfl_command = command, sfl_error = e\<rparr> in (exit_code (sfl_error f), Some (report f)))"

end
