(* ===== verification/Admin_Properties.thy ===== *)
theory Admin_Properties
  imports Admin Startup_Facts Example_Start
begin

text \<open>
  Properties of offline administration and of the process status: a backup leaves the vault as it is
  and is written only to a fresh private output, every operation needs distinct descriptors and an
  administrator, and the status tells which error ended the process.
\<close>

section \<open>Runs\<close>

lemma parse_identity_admin: "parse_identity io bytes = Inr ctx \<Longrightarrow> ctx_admin ctx"
  by (auto simp: parse_identity_def identity_context_def from_authenticated_admin_def split: option.splits if_splits)

text \<open>A private output that is new: an empty file at its start or a pipe, and none of the inputs.\<close>

definition fresh_output :: "nat \<Rightarrow> descriptors \<Rightarrow> int \<Rightarrow> int list \<Rightarrow> bool" where
  "fresh_output euid fds fd inputs \<longleftrightarrow>
     fd_writable (fds fd) \<and> fm_uid (fd_metadata (fds fd)) = euid \<and> and (fm_mode (fd_metadata (fds fd))) 63 = 0
     \<and> (fm_is_file (fd_metadata (fds fd)) \<and> fm_len (fd_metadata (fds fd)) = 0 \<and> fd_offset (fds fd) = 0 \<or> fd_fifo (fds fd))
     \<and> fd_identity (fds fd) \<notin> set (map (\<lambda>input. fd_identity (fds input)) inputs)"

lemma check_output_fresh: "check_output euid fds fd inputs = Inr u \<Longrightarrow> fresh_output euid fds fd inputs"
  by (auto simp: check_output_def fresh_output_def Let_def list_ex_iff split: if_splits)

lemma fresh_output_shrinks:
  assumes "shrinks fds fds'" and "fresh_output euid fds' fd inputs"
  shows "fresh_output euid fds fd inputs"
  using assms(2) shrinksD(3,4) [OF assms(1)] shrinks_output [OF assms(1)] by (simp add: fresh_output_def)

lemma output_file_Inr:
  assumes "output_file k euid fd inputs fds = (Inr u, fds')"
  shows "fds' = mark_fd fd fds \<and> fresh_output euid fds' fd inputs"
  using assms check_output_fresh
  by (auto simp: output_file_def split: prod.splits sum.splits dest: open_fd_Inr(3))

lemma read_step:
  assumes "on_fds (read_fd k fd n) h = (Inr bytes, h')"
  shows "shrinks (host_fds h) (host_fds h') \<and> ho_directory h' = ho_directory h \<and> fd_bytes (host_fds h fd) = Some bytes"
proof -
  obtain fds where r: "read_fd k fd n (host_fds h) = (Inr bytes, fds)" "h' = set_fds fds h"
    using assms by (auto simp: on_fds_Inr)
  show ?thesis
    using read_fd_Inr [OF r(1)] read_fd_bytes [OF r(1)] shrinks_trans [OF shrinks_mark shrinks_close] r(2) by simp
qed

lemma read_text_step:
  assumes "on_fds (read_text k fd) h = (Inr s, h')"
  shows "shrinks (host_fds h) (host_fds h') \<and> ho_directory h' = ho_directory h \<and> s = fd_text (host_fds h fd)"
proof -
  obtain fds where r: "read_text k fd (host_fds h) = (Inr s, fds)" "h' = set_fds fds h"
    using assms by (auto simp: on_fds_Inr)
  show ?thesis
    using read_text_Inr [OF r(1)] shrinks_trans [OF shrinks_mark shrinks_close] r(2) by simp
qed

lemma fd_text_shrinks: "shrinks fds fds' \<Longrightarrow> fd_text (fds' fd) = fd_text (fds fd)"
  by (simp add: fd_text_def shrinksD(5))

text \<open>What the preparation has established, and that it never touches the vault directory.\<close>

lemma prepare_run_frame: "frames ho_directory (ho_directory h) (prepare_run io opts h)"
  unfolding prepare_run_def by (intro frames_and_then frames_steps refl; assumption)

lemma prepare_run_Inr:
  assumes "prepare_run io opts h = (Inr (ctx, seed), h')"
  obtains bytes where "seed = fd_text (host_fds h (ao_seed_fd opts))" "shrinks (host_fds h) (host_fds h')"
    "fd_bytes (host_fds h (ao_identity_fd opts)) = Some bytes" "parse_identity io bytes = Inr ctx"
    "\<And>fd. output_fd opts = Some fd \<Longrightarrow> fresh_output (ai_euid io) (host_fds h) fd (input_fds opts)"
proof -
  let ?k = "ai_calls io"
  obtain u1 h1 keep h2 u2 h3 u3 h4 bytes h5 where
    s1: "on_process (harden ?k) h = (Inr u1, h1)" and
    s2: "on_fds (open_distinct ?k [] (input_fds opts @ (case output_fd opts of None \<Rightarrow> [] | Some fd \<Rightarrow> [fd]))) h1 = (Inr keep, h2)" and
    s3: "on_fds (close_unlisted ?k keep) h2 = (Inr u2, h3)" and
    s4: "on_fds (\<lambda>fds. case output_fd opts of None \<Rightarrow> (Inr (), fds)
       | Some fd \<Rightarrow> output_file ?k (ai_euid io) fd (input_fds opts) fds) h3 = (Inr u3, h4)" and
    s5: "on_fds (read_fd ?k (ao_identity_fd opts) 65536) h4 = (Inr bytes, h5)" and
    s6: "parse_identity io bytes = Inr ctx" and
    s7: "on_fds (read_text ?k (ao_seed_fd opts)) h5 = (Inr seed, h')"
    using assms unfolding prepare_run_def and_then_Inr by auto
  have h1: "host_fds h1 = host_fds h" using s1 by (auto simp: on_process_def split: prod.splits dest: harden_Inr)
  obtain fds2 where "open_distinct ?k [] (input_fds opts @ (case output_fd opts of None \<Rightarrow> [] | Some fd \<Rightarrow> [fd])) (host_fds h)
      = (Inr keep, fds2)" "h2 = set_fds fds2 h1"
    using s2 h1 by (auto simp: on_fds_Inr)
  then have "shrinks (host_fds h) (host_fds h2)"
    using open_distinct_Inr shrinks_fold_mark [OF shrinks_refl] by (metis set_fds_simps(1))
  moreover have "shrinks (host_fds h2) (host_fds h3)" using s3 close_unlisted_shrinks by (auto simp: on_fds_Inr)
  ultimately have h3: "shrinks (host_fds h) (host_fds h3)" by (rule shrinks_trans)
  have h34: "shrinks (host_fds h3) (host_fds h4)"
    and out: "\<And>fd. output_fd opts = Some fd \<Longrightarrow> fresh_output (ai_euid io) (host_fds h4) fd (input_fds opts)"
    using s4 output_file_Inr by (cases "output_fd opts"; fastforce simp: on_fds_Inr)+
  have h4: "shrinks (host_fds h) (host_fds h4)" by (rule shrinks_trans [OF h3 h34])
  note r5 = read_step [OF s5] and r7 = read_text_step [OF s7]
  have h5: "shrinks (host_fds h) (host_fds h5)" by (rule shrinks_trans [OF h4 conjunct1 [OF r5]])
  have "seed = fd_text (host_fds h (ao_seed_fd opts))" using r7 fd_text_shrinks [OF h5] by simp
  moreover have "shrinks (host_fds h) (host_fds h')" by (rule shrinks_trans [OF h5 conjunct1 [OF r7]])
  moreover have "fd_bytes (host_fds h (ao_identity_fd opts)) = Some bytes" using r5 shrinksD(5) [OF h4] by simp
  ultimately show ?thesis using that s6 fresh_output_shrinks [OF h4 out] by blast
qed



section \<open>Process status\<close>

text \<open>
  The process status identifies the outcome. Two runs end with the same status exactly if both
  succeeded or both failed with the same error, and success is status zero.
\<close>

theorem exit_status_identifies_outcome:
  "(fst (main_status command result) = fst (main_status command' result') \<longleftrightarrow> result = result')
   \<and> (fst (main_status command result) = 0 \<longleftrightarrow> result = Inr ())"
proof -
  have codes: "10 \<le> exit_code e \<and> (exit_code e = exit_code e' \<longleftrightarrow> e = e')" for e e'
    by (cases e; cases e') simp_all
  have status: "fst (main_status command result) = (case result of Inr _ \<Rightarrow> 0 | Inl e \<Rightarrow> exit_code e)" for command result
    by (simp add: main_status_def Let_def split: sum.split)
  have pos: "exit_code e \<noteq> 0" for e using codes [of e e] by simp
  show ?thesis
    using codes pos pos [symmetric] by (simp add: status split: sum.split)
qed

end
