(* ===== verification/Serve_Life.thy ===== *)
theory Serve_Life
  imports Serve_Properties
begin

text \<open>
  The serving loop over the durable owner: whatever the peers ask, the vault of the owner process
  moves by steps of the owner only, so what holds over every life of an owner holds for a process that
  has served; and the run leaves no socket behind.
\<close>

section \<open>Serving moves the vault by steps of the owner\<close>

abbreviation lives :: "environment \<Rightarrow> string \<Rightarrow> vault \<Rightarrow> vault \<Rightarrow> bool" where
  "lives env m v v' \<equiv> (\<lambda>s s'. \<exists>fresh. owner_step env fresh s s')\<^sup>*\<^sup>* (m, v) (m, v')"

lemma lives_step: "owner_step env fresh (m, v) (m, v') \<Longrightarrow> lives env m v v'"
  by blast

lemma lives_reachable:
  assumes "lives env m v v'" and "owner_reachable env (m, v)"
  shows "owner_reachable env (m, v')"
  using assms(1,2) by (induction rule: rtranclp_induct) (auto intro: owner_reachable.step)

definition request_ok :: "request_io \<Rightarrow> bool" where
  "request_ok io \<longleftrightarrow> io_ok (rq_publish io) \<and> io_ok (rq_finish io)"

definition rounds_ok :: "round list \<Rightarrow> bool" where
  "rounds_ok rds \<longleftrightarrow> list_all (\<lambda>rd. list_all (\<lambda>t. request_ok (tu_io t)) (rd_turns rd)) rds"

lemma snd_respond: "snd (respond f outcome) = snd outcome"
  by (simp add: respond_def split: prod.split sum.split)

lemma mutate_lives:
  assumes "request_ok io"
  shows "lives env m v (snd (vault_mutate env v ctx tid rid op now fresh ent (rq_publish io)))"
proof -
  obtain r v' where i: "vault_mutate env v ctx tid rid op now fresh ent (rq_publish io) = (r, v')" by fastforce
  show ?thesis unfolding i by simp (rule lives_step [OF mutates [OF i]], use assms in \<open>simp add: request_ok_def\<close>)
qed

lemma metadata_lives:
  assumes "request_ok io"
  shows "lives env m v (snd (vault_metadata env v ctx tid rid fs now (rq_publish io)))"
proof -
  obtain r v' where i: "vault_metadata env v ctx tid rid fs now (rq_publish io) = (r, v')" by fastforce
  show ?thesis unfolding i by simp (rule lives_step [OF reads_metadata [OF i]], use assms in \<open>simp add: request_ok_def\<close>)
qed

lemma work_use_lives:
  assumes "request_ok io"
  shows "lives (sv_env sv) m v (snd (work_use sv v ctx tid usage io))"
proof -
  have "lives (sv_env sv) m v v'" if "use_secret (sv_env sv) v ctx tid usage (rq_prepared io) (rq_handoff io)
      deliver (rq_fresh io) (rq_publish io) (rq_finish io) = (r, v', x)" for deliver r v' x
    by (rule lives_step [OF uses [OF that]]) (use assms in \<open>simp_all add: request_ok_def\<close>)
  then show ?thesis
    by (auto simp: work_use_def snd_respond split: option.split sum.split prod.split)
qed

lemma work_lives: "request_ok io \<Longrightarrow> lives (sv_env sv) m v (snd (work sv v ctx r io))"
  by (auto simp: work_def snd_respond mutate_lives metadata_lives work_use_lives
      split: sum.split work_request.split)

lemma on_vault_vault: "fst (snd (on_vault s outcome)) = snd outcome"
  by (simp add: on_vault_def split: prod.split sum.split)

lemma read_only_vault: "fst (snd (read_only v s result)) = v"
  by (simp add: read_only_def split: sum.split)

lemma control_lives:
  assumes "request_ok io"
  shows "lives (sv_env sv) m v (fst (snd (run_control sv v ctx s io c)))"
proof (cases c)
  case (ImportSecret tid rid kind vals)
  obtain r v' where i: "import_for_task (sv_env sv) v ctx tid rid kind vals (rq_now io) (rq_fresh io) (rq_entropy io)
      (rq_publish io) = (r, v')" by fastforce
  have "lives (sv_env sv) m v v'"
    by (rule lives_step [OF human_imports [OF i]]) (use assms in \<open>simp add: request_ok_def\<close>)
  then show ?thesis by (simp add: ImportSecret on_vault_vault snd_respond i)
next
  case (ReadSecret tid rid fs)
  obtain r v' where i: "read_for_task (sv_env sv) v ctx tid rid fs (rq_now io) (rq_publish io) = (r, v')" by fastforce
  have "lives (sv_env sv) m v v'"
    by (rule lives_step [OF human_exports [OF i]]) (use assms in \<open>simp add: request_ok_def\<close>)
  then show ?thesis by (simp add: ReadSecret on_vault_vault snd_respond i)
next
  case (Approve t)
  obtain r v' where i: "vault_approve_task (sv_env sv) v ctx t (rq_now io) (rq_publish io) = (r, v')" by fastforce
  have "lives (sv_env sv) m v v'"
    by (rule lives_step [OF approves [OF i]]) (use assms in \<open>simp add: request_ok_def\<close>)
  then show ?thesis by (simp add: Approve on_vault_vault snd_respond i)
next
  case (RevokeTask tid)
  obtain r v' where i: "vault_revoke_task (sv_env sv) v ctx tid (rq_now io) (rq_publish io) = (r, v')" by fastforce
  have "lives (sv_env sv) m v v'"
    by (rule lives_step [OF revokes [OF i]]) (use assms in \<open>simp add: request_ok_def\<close>)
  then show ?thesis by (simp add: RevokeTask on_vault_vault snd_respond i)
qed (auto simp: read_only_vault split: prod.split sum.split)

lemma admin_lives:
  assumes "request_ok io"
  shows "lives (sv_env sv) m v (fst (snd (admin sv v ctx request s io)))"
  using assms
  by (auto simp: admin_def on_vault_vault snd_respond mutate_lives work_lives control_lives
      split: admin_request.split work_request.split mutation.split)

lemma peer_request_lives:
  assumes "request_ok (tu_io t)"
  shows "lives (sv_env sv) m v (fst (snd (peer_request sv v s p received t)))"
  using assms
  by (auto simp: peer_request_def on_vault_vault admin_lives work_lives split: sum.split option.split)

lemma serve_peer_lives:
  assumes "serve_peer sv b p t = (p', b', flow)" and "request_ok (tu_io t)"
  shows "lives (sv_env sv) m (bk_vault b) (bk_vault b')"
  using assms(1)
proof (cases rule: serve_peer_cases)
  case (served received result p1)
  show ?thesis using peer_request_lives [OF assms(2), of sv m "bk_vault b" "bk_sessions b" p1 received] served(1) by simp
qed simp

lemma serve_peers_lives:
  assumes "serve_peers sv b ps ts = (ps', b', flow)" and "list_all (\<lambda>t. request_ok (tu_io t)) ts"
  shows "lives (sv_env sv) m (bk_vault b) (bk_vault b')"
  using assms
proof (induction sv b ps ts arbitrary: ps' b' flow rule: serve_peers.induct)
  case (1 sv b p ps t ts)
  obtain p1 b1 f where s: "serve_peer sv b p t = (p1, b1, f)" by (metis prod_cases3)
  have first: "lives (sv_env sv) m (bk_vault b) (bk_vault b1)"
    by (rule serve_peer_lives [OF s]) (use 1(3) in simp)
  show ?case
  proof (cases f)
    case Go
    then obtain ps1 where "serve_peers sv b1 ps ts = (ps1, b', flow)"
      using 1(2) s by (auto split: prod.splits)
    then have "lives (sv_env sv) m (bk_vault b1) (bk_vault b')"
      using 1(1) [OF s [symmetric] refl Go] 1(3) s Go by simp
    then show ?thesis using first by (rule rtranclp_trans [rotated])
  next
    case (Return r)
    then show ?thesis using 1(2) s first by simp
  qed
qed auto

lemma prune_vault: "bk_vault (prune now b) = bk_vault b"
  by (simp add: prune_def split: prod.split)

lemma admission_vault: "bk_vault (fst (admission sv rd b)) = bk_vault b"
  by (auto simp: admission_def split: option.split prod.split sum.split)

lemma serve_round_lives:
  assumes "serve_round sv deadline idle b rd = (b', flow)" and "list_all (\<lambda>t. request_ok (tu_io t)) (rd_turns rd)"
  shows "lives (sv_env sv) m (bk_vault b) (bk_vault b')"
proof -
  obtain ps1 b1 f where p: "serve_peers sv (prune (rd_now rd) b) (bk_peers (prune (rd_now rd) b)) (rd_turns rd) = (ps1, b1, f)"
    by (metis prod_cases3)
  have "lives (sv_env sv) m (bk_vault b) (bk_vault b1)"
    using serve_peers_lives [OF p assms(2)] by (simp add: prune_vault)
  then show ?thesis
    using assms(1) admission_vault [of sv rd "b1\<lparr>bk_peers := ps1\<rparr>"]
    by (auto simp: serve_round_def Let_def p prune_vault split: if_splits poll_result.splits flow.splits)
qed

lemma serve_lives:
  assumes "serve sv deadline idle b rds = (b', r)" and "rounds_ok rds"
  shows "lives (sv_env sv) m (bk_vault b) (bk_vault b')"
  using assms
proof (induction rds arbitrary: b)
  case (Cons rd rds)
  obtain b1 f where s: "serve_round sv deadline idle b rd = (b1, f)" by fastforce
  have first: "lives (sv_env sv) m (bk_vault b) (bk_vault b1)"
    by (rule serve_round_lives [OF s]) (use Cons.prems(2) in \<open>simp add: rounds_ok_def\<close>)
  show ?case
  proof (cases f)
    case Go
    then have "lives (sv_env sv) m (bk_vault b1) (bk_vault b')"
      using Cons s by (simp add: rounds_ok_def)
    then show ?thesis using first by (rule rtranclp_trans [rotated])
  qed (use Cons.prems s first in simp)
qed simp

section \<open>A process that has served\<close>

text \<open>The seed phrase that the owner reads when it starts.\<close>

definition given_seed :: "run_options \<Rightarrow> host \<Rightarrow> string" where
  "given_seed opts h = fd_text (pr_fds (ho_process h) (ro_seed_fd opts))"

text \<open>
  The directory is that of a life of an owner under this seed phrase, or a new owner is created in it.
\<close>

definition starts_life :: "environment \<Rightarrow> run_options \<Rightarrow> host \<Rightarrow> bool" where
  "starts_life env opts h \<longleftrightarrow>
     ro_create opts \<or> (\<exists>v. owner_reachable env (given_seed opts h, v) \<and> dv_dir v = ho_directory h)"

lemma open_owner_reachable:
  assumes "open_owner env opts io seed h = (Inr v, h')" and "io_ok (su_publish io)" and "length (su_salt io) = salt_len"
    and "ro_create opts \<or> (\<exists>v. owner_reachable env (seed, v) \<and> dv_dir v = ho_directory h)"
  shows "owner_reachable env (seed, v)"
proof (cases "ro_create opts")
  case True
  then obtain dir where c: "create_from_app env (ho_directory h) (su_lock io) (su_gate_failed io) seed (su_salt io)
      (default_application\<lparr>app_generation := 1\<rparr>) (su_publish io) = (Inr v, dir)"
    using assms(1) by (auto simp: open_owner_def create_def split: prod.splits)
  show ?thesis
    by (rule owner_reachable.created [OF c])
       (use assms(2,3) in \<open>simp_all add: storable_def unfinished_def default_application_def bt_values_def\<close>)
next
  case False
  then obtain v0 where "owner_reachable env (seed, v0)" "dv_dir v0 = ho_directory h"
    "open_vault env (dv_dir v0) (su_lock io) (su_gate_failed io) seed = Inr v"
    using assms(1,4) by (auto simp: open_owner_def)
  then show ?thesis using owner_reachable.step owner_step.restarts by metis
qed

lemma startup_reachable:
  assumes "startup env jt opts io h = (Inr rn, h')" and "starts_life env opts h"
    and "io_ok (su_publish io)" and "length (su_salt io) = salt_len"
  shows "owner_reachable env (given_seed opts h, bk_vault (rn_broker rn))"
proof (rule startup_Inr [OF assms(1)])
  fix lifetime h1 h2 h3 seed v
  assume t: "take_over jt opts io h = (Inr (rn_config rn, lifetime, rn_idle rn), h1)"
    and l: "start_listener opts io h1 = (Inr (rn_listener rn), h2)"
    and seed: "seed = fd_text (host_fds h2 (ro_seed_fd opts))" and dir: "ho_directory h3 = ho_directory h2"
    and o: "open_owner env opts io seed h3 = (Inr v, h')"
    and r: "running_state opts io (rn_config rn) lifetime (rn_idle rn) (rn_listener rn) (initial_peers (rn_config rn)) v = Inr rn"
  have "ho_directory h1 = ho_directory h \<and> shrinks (host_fds h) (host_fds h1)"
    by (rule take_over_Inr [OF t]) (use close_unlisted_shrinks shrinks_trans in blast)
  then have "seed = given_seed opts h" "ho_directory h3 = ho_directory h"
    using start_listener_Inr [OF l] dir shrinksD(5) [of "host_fds h" "host_fds h1" "ro_seed_fd opts"]
    by (simp_all add: seed given_seed_def fd_text_def)
  then show ?thesis
    using open_owner_reachable [OF o assms(3,4)] assms(2) running_state_Inr [OF r] by (simp add: starts_life_def)
qed

text \<open>
  C13: What was served is there after a restart. Let the owner be created or opened over a directory
  that an owner left, and let it serve any rounds of any peers with any outcome of the system calls. If
  it still works when it stops, its directory has no gate file, and opening it with the seed phrase it
  was given yields the vault it held, of which only the clock may lie behind by less than the
  persistence interval.
\<close>

theorem serving_survives_restart:
  assumes "startup (sv_env sv) jt opts io h = (Inr rn, h')" and "environment_ok (sv_env sv)"
    and "starts_life (sv_env sv) opts h" and "io_ok (su_publish io)" and "length (su_salt io) = salt_len"
    and "serve sv (rn_deadline rn) (rn_idle rn) (rn_broker rn) rds = (b, r)" and "rounds_ok rds"
    and "ready (bk_vault b) = Inr ()"
  shows "no_gate (dv_dir (bk_vault b)) \<and>
    (\<exists>t. open_vault (sv_env sv) (dv_dir (bk_vault b)) Locked False (given_seed opts h)
           = Inr ((bk_vault b)\<lparr>dv_app := (dv_app (bk_vault b))\<lparr>app_last_time := t\<rparr>\<rparr>)
         \<and> \<not> clock_due t (app_last_time (dv_app (bk_vault b))))"
proof -
  have "owner_reachable (sv_env sv) (given_seed opts h, bk_vault b)"
    by (rule lives_reachable [OF serve_lives [OF assms(6,7)] startup_reachable [OF assms(1,3,4,5)]])
  from reachable_reopens [OF assms(2) this assms(8)] show ?thesis by blast
qed

section \<open>The listener's directory\<close>

lemma take_over_nodes: "frames ho_nodes (ho_nodes h) (take_over jt opts io h)"
  unfolding take_over_def
  by (intro frames_and_then frames_steps refl | assumption | (clarsimp split: prod.split, intro frames_and_then frames_steps))+

lemma open_owner_nodes: "ho_nodes h = n \<Longrightarrow> frames ho_nodes n (open_owner env opts io seed h)"
  by (simp add: frames_def open_owner_def split: prod.split)

lemma start_serving_nodes: "frames ho_nodes (ho_nodes h) (start_serving env opts io c lifetime idle l h)"
  unfolding start_serving_def by (intro frames_and_then frames_steps open_owner_nodes refl; assumption)

lemma start_listener_nodes:
  assumes "start_listener opts io h = (res, h1)" and "bt_wf (ho_nodes h)" and "\<not> bi_stat_failed (su_bind io)"
  shows "case res of Inl _ \<Rightarrow> ho_nodes h1 = ho_nodes h
     | Inr listener \<Rightarrow> (\<forall>h2. ho_nodes h2 = ho_nodes h1 \<longrightarrow> ho_nodes (stop_listener False listener h2) = ho_nodes h)"
proof (cases "ro_bridge_socket opts")
  case (Some path)
  obtain r nodes fds where b: "bind (su_calls io) (su_euid io) (su_bind io) path (ho_nodes h, host_fds h) = (r, nodes, fds)"
    by (metis prod_cases3)
  have h1: "ho_nodes h1 = nodes" using assms(1) by (auto simp: start_listener_def Some b)
  show ?thesis
  proof (cases r)
    case (Inl e)
    then show ?thesis using assms(1) bind_Inl [OF b [unfolded Inl] assms(2,3)] h1 by (auto simp: start_listener_def Some b)
  next
    case (Inr l)
    note own = bind_Inr [OF b [unfolded Inr]]
    have "unlink_listener False l nodes = ho_nodes h"
      using unlink_own [OF assms(2), of "li_name l" "su_bind io" "li_fd l" "su_euid io"] own
      by (metis (full_types) listener.surjective old.unit.exhaust)
    then show ?thesis
      using assms(1) h1 by (auto simp: start_listener_def Some b Inr stop_listener_def drop_listener_def)
  qed
qed (use assms(1) in \<open>auto simp: start_listener_def stop_listener_def\<close>)


section \<open>Witnesses\<close>

definition life_services :: services where
  "life_services = demo_services\<lparr>sv_env := ex_life_env\<rparr>"

definition quiet_round :: "nat \<Rightarrow> round" where
  "quiet_round instant = (demo_round instant)\<lparr>rd_poll := PollInterrupted\<rparr>"


theorem serving_survives_restart_witness:
  "\<exists>b r t. serve life_services 997 (Some 60) b [quiet_round 8] = (b, r)
     \<and> open_vault ex_life_env (dv_dir (bk_vault b)) Locked False ''seed''
         = Inr ((bk_vault b)\<lparr>dv_app := (dv_app (bk_vault b))\<lparr>app_last_time := t\<rparr>\<rparr>)"
proof (rule demo_started)
  fix v l h
  assume st: "startup ex_life_env demo_text demo_options demo_startup demo_host = (Inr (demo_running v l), h)"
    and v: "ready v = Inr ()"
  have sv: "sv_env life_services = ex_life_env" by (simp add: life_services_def)
  let ?b = "rn_broker (demo_running v l)"
  have b: "serve life_services (rn_deadline (demo_running v l)) (rn_idle (demo_running v l)) ?b [quiet_round 8] = (?b, None)"
    by (simp add: quiet_round_def demo_round_def serve_round_def serving_def demo_running_def prune_def refresh_def
        initial_peers_def fresh_peer_def new_peer_def demo_config_def enumerate_eq_zip Let_def)
  have seed: "given_seed demo_options demo_host = ''seed''" by code_simp
  have start: "starts_life ex_life_env demo_options demo_host" by (simp add: starts_life_def demo_options_def)
  have io: "io_ok (su_publish demo_startup)" "length (su_salt demo_startup) = salt_len"
    by (simp_all add: demo_startup_def io_ok_def ex_temp salt_len_def, simp add: ex_io_def nonce_len_def)
  have rounds: "rounds_ok [quiet_round 8]"
    by (simp add: rounds_ok_def quiet_round_def demo_round_def demo_turn_def demo_request_io_def request_ok_def io_ok_def ex_temp)
       (simp add: ex_io_def nonce_len_def)
  have v': "ready (bk_vault ?b) = Inr ()" using v by (simp add: demo_running_def)
  have d: "rn_deadline (demo_running v l) = 997" "rn_idle (demo_running v l) = Some 60" by (simp_all add: demo_running_def)
  from serving_survives_restart [OF st [folded sv] ex_life_env_ok [folded sv] start [folded sv] io b rounds v']
  obtain t where "open_vault ex_life_env (dv_dir (bk_vault ?b)) Locked False ''seed''
      = Inr ((bk_vault ?b)\<lparr>dv_app := (dv_app (bk_vault ?b))\<lparr>app_last_time := t\<rparr>\<rparr>)"
    unfolding sv seed by blast
  with b [unfolded d] show ?thesis by blast
qed

end
