(* ===== verification/Session_Handshake.thy ===== *)
theory Session_Handshake
  imports Session_Properties Ipc_Properties
begin

text \<open>
  The two ends of session admission together: a front end that reads the session file of an issued
  session and the owner that admits it, over one stream.
\<close>

section \<open>The two ends\<close>

text \<open>A value that the channels can carry, by the documented behaviour of the JSON library.\<close>

definition carries :: "json_text \<Rightarrow> json \<Rightarrow> bool" where
  "carries jt v \<longleftrightarrow> reads_back jt v \<and> wf_json v \<and> (\<exists>bytes. encode_frame jt v = Inr bytes)"

text \<open>A schedule that moves at least the given number of bytes.\<close>

definition delivers :: "io_event list \<Rightarrow> u8 list \<Rightarrow> bool" where
  "delivers es bytes \<longleftrightarrow> steady es \<and> length bytes \<le> moves es"

definition fresh_channel :: "u8 list \<Rightarrow> channel" where
  "fresh_channel arrived = \<lparr>ch_poisoned = False, ch_pending = arrived, ch_sent = []\<rparr>"

text \<open>The checks on sockets that an honest front end of the same user passes.\<close>

definition socket_reached :: "nat \<Rightarrow> connect_io \<Rightarrow> session_file \<Rightarrow> bool" where
  "socket_reached euid io file \<longleftrightarrow> co_blocking_ok io \<and> check_uid euid (co_cred io) = Inr () \<and>
     (case parent euid (co_dir io) (sf_socket file) of
        Inl _ \<Rightarrow> False
      | Inr (_, name) \<Rightarrow>
          connect_bounded (anchored (co_dir_fd io) name) (co_dial io) = Inr () \<and>
          (case stat_at (co_stat_failed io) (co_nodes io) name of
             Inl _ \<Rightarrow> False
           | Inr nd \<Rightarrow> file_type (nd_mode nd) = s_ifsock \<and> and (nd_mode nd) 4095 = 384 \<and> nd_uid nd = euid))"

lemma parse_attach_message: "parse_attach (attach_message token) = Some (''attach'', token)"
  by (simp add: parse_attach_def attach_message_def json_object_def bt_keys_def)

lemma channel_carries:
  assumes "carries jt v" and "delivers es (frame jt v)"
  shows "\<not> ch_poisoned ch \<Longrightarrow> send jt v es ch = (Inr (), ch\<lparr>ch_sent := ch_sent ch @ frame jt v\<rparr>)"
    and "\<not> ch_poisoned ch \<Longrightarrow> ch_pending ch = frame jt v \<Longrightarrow> receive jt es ch = (Inr v, ch\<lparr>ch_pending := []\<rparr>)"
  using assms send_frame [of jt v _ ch es] receive_frame [of jt v _ ch "[]" es]
  by (auto simp: carries_def delivers_def)

text \<open>The owner's side.\<close>

lemma admit_attached:
  assumes "check_uid (ad_euid io) (ad_cred io) = Inr ()" and "ad_blocking_ok io"
    and "carries jt (attach_message token)" and "carries jt attach_accepted"
    and "ad_pending io = frame jt (attach_message token)"
    and "delivers (ad_reads io) (frame jt (attach_message token))" and "delivers (ad_writes io) (frame jt attach_accepted)"
    and "attach ex s token (max now (ad_wall io)) = (Inr (sid, ctx), s')"
  shows "admit ex jt s io now = (Inr (sid, ctx, (fresh_channel [])\<lparr>ch_sent := frame jt attach_accepted\<rparr>), s')"
  using assms channel_carries(2) [OF assms(3,6), of "fresh_channel (ad_pending io)"]
    channel_carries(1) [OF assms(4,7), of "fresh_channel []"]
  by (simp add: admit_def new_channel_def fresh_channel_def attach_request_def parse_attach_message)

text \<open>The front end's side.\<close>

lemma connect_attached:
  assumes "read_session_file jt session_of euid io path = Inr file" and "sf_id file \<noteq> nil_uuid"
    and "frontend_deadline (sf_expires_at file) now = Inr secs" and "socket_reached euid io file"
    and "carries jt (attach_message (sf_token file))" and "carries jt attach_accepted"
    and "delivers (co_writes io) (frame jt (attach_message (sf_token file)))"
    and "co_pending io = frame jt attach_accepted" and "delivers (co_reads io) (frame jt attach_accepted)"
  shows "connect jt session_of euid io path now
    = Inr ((fresh_channel [])\<lparr>ch_sent := frame jt (attach_message (sf_token file))\<rparr>, sf_expires_at file)"
proof -
  obtain dir name nd where p: "parent euid (co_dir io) (sf_socket file) = Inr (dir, name)"
      "stat_at (co_stat_failed io) (co_nodes io) name = Inr nd"
      "file_type (nd_mode nd) = s_ifsock" "and (nd_mode nd) 4095 = 384" "nd_uid nd = euid"
      "connect_bounded (anchored (co_dir_fd io) name) (co_dial io) = Inr ()"
      "check_uid euid (co_cred io) = Inr ()" "co_blocking_ok io"
  proof (cases "parent euid (co_dir io) (sf_socket file)")
    case (Inr place)
    show ?thesis
      using assms(4) Inr that
      by (cases place; cases "stat_at (co_stat_failed io) (co_nodes io) (snd place)") (auto simp: socket_reached_def)
  qed (use assms(4) in \<open>simp add: socket_reached_def\<close>)
  let ?m = "attach_message (sf_token file)"
  have new: "new_channel 5000 5000 True (co_blocking_ok io) (co_pending io) = Inr (fresh_channel (co_pending io))"
    using p(8) by (simp add: new_channel_def fresh_channel_def)
  have out: "send jt ?m (co_writes io) (fresh_channel (co_pending io))
      = (Inr (), (fresh_channel (co_pending io))\<lparr>ch_sent := frame jt ?m\<rparr>)"
    using channel_carries(1) [OF assms(5,7), of "fresh_channel (co_pending io)"] by (simp add: fresh_channel_def)
  have answer: "receive jt (co_reads io) ((fresh_channel (co_pending io))\<lparr>ch_sent := frame jt ?m\<rparr>)
      = (Inr attach_accepted, (fresh_channel [])\<lparr>ch_sent := frame jt ?m\<rparr>)"
    using channel_carries(2) [OF assms(6,9), of "(fresh_channel (co_pending io))\<lparr>ch_sent := frame jt ?m\<rparr>"] assms(8)
    by (simp add: fresh_channel_def)
  show ?thesis by (simp add: connect_def assms(1-3) p(1-7) new out answer)
qed

section \<open>The handshake\<close>

text \<open>
  C22: An issued session connects. Let the owner issue a session and a front end of the same user read
  its session file before the session expires. If the stream between them keeps moving and no other
  waiting session has the token's digest, then the owner admits what the front end sends as exactly
  the issued session, for its principal, workspace and expiry, without administration authority and
  for exactly the issued tasks, and the front end takes the owner's answer as its connection, with the
  expiry of the session as its deadline.
\<close>

theorem issued_session_connects:
  assumes "digest_length ex" and "sessions_ok s"
    and iss: "issue ex ut s princ tasks expires_at now valid (Some bytes) sid = (Inr response, s1)"
    and "length bytes = 32" and "\<not> pending s (token_digest ex (session_token bytes))"
    and stored: "read_session_file jt session_of euid fio path = Inr file" "sf_id file \<noteq> nil_uuid"
      "sf_token file = session_token bytes" "sf_expires_at file = expires_at"
    and front: "frontend_deadline expires_at front_now = Inr secs" "socket_reached euid fio file"
      "delivers (co_writes fio) (frame jt (attach_message (session_token bytes)))"
      "co_pending fio = frame jt attach_accepted" "delivers (co_reads fio) (frame jt attach_accepted)"
    and owner: "check_uid (ad_euid oio) (ad_cred oio) = Inr ()" "ad_blocking_ok oio" "max later (ad_wall oio) < expires_at"
      "ad_pending oio = frame jt (attach_message (session_token bytes))"
      "delivers (ad_reads oio) (frame jt (attach_message (session_token bytes)))"
      "delivers (ad_writes oio) (frame jt attach_accepted)"
    and wire: "carries jt (attach_message (session_token bytes))" "carries jt attach_accepted"
  shows "\<exists>owner_end front_end s2.
      admit ex jt s1 oio later = (Inr (sid, \<lparr>ctx_owner = ss_owner s, ctx_principal = princ, ctx_workspace = ss_workspace s,
         ctx_admin = False, ctx_session_deadline = Some expires_at\<rparr>, owner_end), s2)
    \<and> (\<forall>tid. permits s2 sid tid (max later (ad_wall oio)) \<longleftrightarrow> tid \<in> set tasks)
    \<and> connect jt session_of euid fio path front_now = Inr (front_end, expires_at)
    \<and> ch_sent front_end = ad_pending oio \<and> ch_sent owner_end = co_pending fio
    \<and> \<not> ch_poisoned front_end \<and> \<not> ch_poisoned owner_end"
proof -
  obtain s2 where att: "attach ex s1 (session_token bytes) (max later (ad_wall oio)) =
      (Inr (sid, \<lparr>ctx_owner = ss_owner s, ctx_principal = princ, ctx_workspace = ss_workspace s, ctx_admin = False,
         ctx_session_deadline = Some expires_at\<rparr>), s2)"
      "\<forall>tid. permits s2 sid tid (max later (ad_wall oio)) \<longleftrightarrow> tid \<in> set tasks"
    using attach_issued [OF assms(1,2) iss assms(4,5) owner(3)] by blast
  note adm = admit_attached [OF owner(1,2) wire owner(4,5,6) att(1)]
  have con: "connect jt session_of euid fio path front_now
      = Inr ((fresh_channel [])\<lparr>ch_sent := frame jt (attach_message (session_token bytes))\<rparr>, expires_at)"
    using connect_attached [OF stored(1,2) _ front(2) _ wire(2) _ front(4,5)] stored(3,4) front(1,3) wire(1) by simp
  show ?thesis
    using adm att(2) con owner(4) front(4) by (simp add: fresh_channel_def)
qed

section \<open>Witness\<close>

text \<open>A text of JSON that reads three bytes, and whatever else is wanted; numbers of bytes are all that counts.\<close>

definition demo_wire_with :: "(u8 list \<Rightarrow> raw option) \<Rightarrow> json_text" where
  "demo_wire_with extra = \<lparr>jt_parse = (\<lambda>bytes. if bytes = [1] then Some (raw_of (attach_message (session_token demo_random)))
       else if bytes = [2] then Some (raw_of attach_accepted) else if bytes = [3] then Some RUnit else extra bytes),
     jt_chunks = (\<lambda>v. if v = attach_accepted then [[2]] else [[1]])\<rparr>"

definition demo_wire :: json_text where "demo_wire = demo_wire_with (\<lambda>_. None)"

lemma demo_wire_frames:
  "frame (demo_wire_with extra) attach_accepted = to_be32 1 @ [2]"
  "frame (demo_wire_with extra) (attach_message token) = to_be32 1 @ [1]"
  by (simp_all add: frame_def demo_wire_with_def attach_message_def attach_accepted_def json_object_def)

lemma demo_wire_carries:
  "carries (demo_wire_with extra) (attach_message (session_token demo_random))" "carries (demo_wire_with extra) attach_accepted"
  by (auto simp: carries_def reads_back_def encode_frame_Inr demo_wire_with_def attach_message_def attach_accepted_def
      json_object_def max_frame_bytes_def max_nesting_def bt_wf_def)

lemma demo_delivers [simplified]: "delivers (replicate 5 (Move 1)) (to_be32 1 @ [b])"
  by (simp add: delivers_def steady_def be32.length_enc numeral_eq_Suc)

definition demo_file :: session_file where
  "demo_file = \<lparr>sf_id = 5, sf_socket = ''/s'', sf_token = session_token demo_random, sf_expires_at = 500\<rparr>"

definition demo_private :: "nat \<Rightarrow> file_metadata" where
  "demo_private mode = \<lparr>fm_uid = 0, fm_symlink = False, fm_mode = of_nat mode, fm_is_file = mode = 384, fm_is_dir = mode = 448, fm_len = 1\<rparr>"

definition demo_connect :: connect_io where
  "demo_connect = \<lparr>co_dir = (\<lambda>_. Some (demo_private 448)), co_file = Some (demo_private 384), co_nlink = 1, co_bytes = Some [3],
     co_stat_failed = False, co_nodes = [(''s'', \<lparr>nd_identity = (1, 1), nd_mode = 0xC180, nd_uid = 0\<rparr>)], co_dir_fd = 4,
     co_dial = \<lparr>di_socket_ok = True, di_connect = InProgress, di_poll = 1, di_pending_error = False\<rparr>,
     co_cred = Some (True, 0), co_blocking_ok = True, co_pending = to_be32 1 @ [2],
     co_writes = replicate 5 (Move 1), co_reads = replicate 5 (Move 1)\<rparr>"

definition demo_admission :: admission_io where
  "demo_admission = \<lparr>ad_euid = 0, ad_cred = Some (True, 0), ad_blocking_ok = True, ad_pending = to_be32 1 @ [1],
     ad_reads = replicate 5 (Move 1), ad_writes = replicate 5 (Move 1), ad_wall = 21\<rparr>"

lemma demo_path: "parent 0 (co_dir demo_connect) ''/s'' = Inr ([], ''s'')"
  by (simp add: parent_def path_components_def demo_connect_def demo_private_def Let_def)

lemma demo_read: "read_session_file (demo_wire_with extra) (\<lambda>_. Some demo_file) 0 demo_connect ''/s'' = Inr demo_file"
  by (simp add: read_session_file_def demo_path)
     (simp add: demo_connect_def demo_private_def strict_json_def demo_wire_with_def)

lemma demo_reached: "socket_reached 0 demo_connect demo_file"
proof -
  have "length (anchored 4 ''s'') < 108" by code_simp
  then have dial: "connect_bounded (anchored (co_dir_fd demo_connect) ''s'') (co_dial demo_connect) = Inr ()"
    by (simp add: connect_bounded_def sun_path_len_def demo_connect_def)
  show ?thesis
    using dial demo_path
    by (simp add: socket_reached_def demo_file_def)
       (simp add: demo_connect_def check_uid_def stat_at_def file_type_def s_ifsock_def)
qed

lemma demo_deadline: "frontend_deadline 500 20 = Inr 480"
  by (simp add: frontend_deadline_def Let_def time_min_def time_max_def max_lifetime_secs_def)

lemma demo_exchange_ok:
  "delivers (co_writes demo_connect) (frame (demo_wire_with extra) (attach_message (session_token demo_random)))"
  "co_pending demo_connect = frame (demo_wire_with extra) attach_accepted"
  "delivers (co_reads demo_connect) (frame (demo_wire_with extra) attach_accepted)"
  by (simp_all only: demo_wire_frames) (simp_all add: demo_connect_def demo_delivers del: replicate.simps)

lemma demo_file_fields:
  "sf_id demo_file \<noteq> nil_uuid" "sf_token demo_file = session_token demo_random" "sf_expires_at demo_file = 500"
  by (simp_all add: demo_file_def)

lemma demo_connects: "connect (demo_wire_with extra) (\<lambda>_. Some demo_file) 0 demo_connect ''/s'' 20
    = Inr ((fresh_channel [])\<lparr>ch_sent := to_be32 1 @ [1]\<rparr>, 500)"
  using connect_attached [OF demo_read demo_file_fields(1) _ demo_reached _ demo_wire_carries(2), of 20 480 extra]
    demo_deadline demo_exchange_ok [of extra] demo_wire_carries(1) [of extra]
  by (simp add: demo_file_fields demo_wire_frames)

theorem issued_session_connects_witness:
  "\<exists>owner_end front_end ctx s2. admit demo_ex demo_wire demo_issued demo_admission 20 = (Inr (5, ctx, owner_end), s2)
     \<and> ctx_principal ctx = ''agent'' \<and> permits s2 5 3 21 \<and> \<not> permits s2 5 4 21
     \<and> connect demo_wire (\<lambda>_. Some demo_file) 0 demo_connect ''/s'' 20 = Inr (front_end, 500)"
proof -
  obtain response where i: "issue demo_ex (\<lambda>_. []) demo_table ''agent'' [3] 500 10 (\<lambda>_ _. Inr ()) (Some demo_random) 5
     = (Inr response, demo_issued)"
    using demo_issue by blast
  have ok: "sessions_ok demo_table" "length demo_random = 32" by (simp_all add: demo_table_def new_sessions_ok demo_random_def)
  have np: "\<not> pending demo_table d" for d by (simp add: pending_def demo_table_def new_sessions_def)
  note demo = demo_exchange_ok [of "\<lambda>_. None", folded demo_wire_def] demo_wire_carries [of "\<lambda>_. None", folded demo_wire_def]
    demo_read [of "\<lambda>_. None", folded demo_wire_def] demo_wire_frames [of "\<lambda>_. None", folded demo_wire_def]
  have io: "check_uid (ad_euid demo_admission) (ad_cred demo_admission) = Inr ()" "ad_blocking_ok demo_admission"
      "max 20 (ad_wall demo_admission) < 500"
      "ad_pending demo_admission = frame demo_wire (attach_message (session_token demo_random))"
      "delivers (ad_reads demo_admission) (frame demo_wire (attach_message (session_token demo_random)))"
      "delivers (ad_writes demo_admission) (frame demo_wire attach_accepted)"
    by (simp_all only: demo(7,8)) (simp_all add: demo_admission_def demo_delivers check_uid_def del: replicate.simps)
  from issued_session_connects [OF demo_digest_length ok(1) i ok(2) np demo(6) demo_file_fields demo_deadline demo_reached demo(1-3) io demo(4,5)]
  show ?thesis by (fastforce simp: demo_admission_def)
qed

end
