(* ===== verification/Files.thy ===== *)
theory Files
  imports Store Https
begin

text \<open>
  The files under the durable owner (\<^verbatim>\<open>directory\<close>, \<^verbatim>\<open>open_file\<close>, \<^verbatim>\<open>read_image\<close> and the lock of
  \<^verbatim>\<open>src/src/agent/storage.rs\<close>): a private directory reached without following links, and files that are
  refused unless they are regular, owned, private and have one name. A folder keeps the metadata of its
  entries; its contents are the directory of \<open>Store\<close>.
\<close>

section \<open>Folders\<close>

record inode =
  in_metadata :: file_metadata
  in_nlink :: nat
  in_bytes :: "u8 list"

type_synonym folder = "(string, inode) btmap"

definition contents :: "folder \<Rightarrow> directory" where "contents fo = bt_map (\<lambda>_ ino. in_bytes ino) fo"

definition lock_name :: string where "lock_name = ''owner.lock''"

section \<open>The directory\<close>

text \<open>
  The walk from the root: \<open>opened\<close> gives the metadata of a path that could be opened as a directory
  without following its last component.
\<close>

fun walk :: "(string list \<Rightarrow> file_metadata option) \<Rightarrow> string list \<Rightarrow> string list \<Rightarrow> error + file_metadata" where
  "walk opened here [] = (case opened here of None \<Rightarrow> Inl InvalidStorage | Some m \<Rightarrow> Inr m)"
| "walk opened here (part # parts) =
     (if opened here = None \<or> part = ''..'' \<or> CHR 0x00 \<in> set part then Inl InvalidStorage
      else walk opened (here @ [part]) parts)"

definition open_directory :: "nat \<Rightarrow> (string list \<Rightarrow> file_metadata option) \<Rightarrow> string \<Rightarrow> error + unit" where
  "open_directory euid opened path =
     (if path = [] \<or> hd path \<noteq> CHR ''/'' then Inl InvalidStorage
      else case walk opened [] (path_components path) of
        Inl e \<Rightarrow> Inl e
      | Inr m \<Rightarrow> if fm_uid m \<noteq> euid \<or> and (fm_mode m) 4095 \<noteq> 448 then Inl InvalidStorage else Inr ())"

section \<open>Files\<close>

datatype access = ReadOnly | ReadWriteCreate | WriteNew
datatype open_error = Missing | Refused

text \<open>What opening observes: the mode mask, and whether creating, opening and examining succeed.\<close>

record file_io =
  fo_umask :: "32 word"
  fo_create_ok :: bool
  fo_open_ok :: bool
  fo_stat_ok :: bool

definition private_file :: "nat \<Rightarrow> inode \<Rightarrow> bool" where
  "private_file euid ino \<longleftrightarrow> fm_is_file (in_metadata ino) \<and> fm_uid (in_metadata ino) = euid \<and> in_nlink ino = 1
     \<and> and (fm_mode (in_metadata ino)) 4095 = 384"

definition check_file :: "nat \<Rightarrow> file_io \<Rightarrow> inode \<Rightarrow> open_error + inode" where
  "check_file euid io ino = (if \<not> fo_stat_ok io \<or> \<not> private_file euid ino then Inl Refused else Inr ino)"

definition new_inode :: "nat \<Rightarrow> file_io \<Rightarrow> inode" where
  "new_inode euid io =
     \<lparr>in_metadata = \<lparr>fm_uid = euid, fm_symlink = False, fm_mode = or 0x8000 (and 384 (not (fo_umask io))),
        fm_is_file = True, fm_is_dir = False, fm_len = 0\<rparr>,
      in_nlink = 1, in_bytes = []\<rparr>"

definition open_file :: "nat \<Rightarrow> file_io \<Rightarrow> access \<Rightarrow> string \<Rightarrow> folder \<Rightarrow> (open_error + inode) \<times> folder" where
  "open_file euid io access name fo =
     (if CHR 0x00 \<in> set name then (Inl Refused, fo)
      else case map_of fo name of
        None \<Rightarrow>
          if access = ReadOnly then (Inl Missing, fo)
          else if \<not> fo_create_ok io then (Inl Refused, fo)
          else (check_file euid io (new_inode euid io), bt_insert name (new_inode euid io) fo)
      | Some ino \<Rightarrow>
          if access = WriteNew \<or> fm_symlink (in_metadata ino) \<or> \<not> fo_open_ok io then (Inl Refused, fo)
          else (check_file euid io ino, fo))"

definition read_image_file :: "nat \<Rightarrow> file_io \<Rightarrow> bool \<Rightarrow> string \<Rightarrow> folder \<Rightarrow> error + u8 list option" where
  "read_image_file euid io read_ok name fo =
     (case fst (open_file euid io ReadOnly name fo) of
        Inl Missing \<Rightarrow> Inr None
      | Inl Refused \<Rightarrow> Inl InvalidStorage
      | Inr ino \<Rightarrow>
          if \<not> read_ok \<or> max_image < length (in_bytes ino) then Inl InvalidStorage else Inr (Some (in_bytes ino)))"

section \<open>Acquiring\<close>

record open_io =
  oo_euid :: nat
  oo_directory :: "string list \<Rightarrow> file_metadata option"
  oo_lock_file :: file_io
  oo_lock :: lock_result
  oo_gate_failed :: bool
  oo_image :: file_io
  oo_read_ok :: bool

definition acquire_recovery_files :: "open_io \<Rightarrow> string \<Rightarrow> folder \<Rightarrow> (error + unit) \<times> folder" where
  "acquire_recovery_files io path fo =
     (case open_directory (oo_euid io) (oo_directory io) path of
        Inl e \<Rightarrow> (Inl e, fo)
      | Inr _ \<Rightarrow>
        (case open_file (oo_euid io) (oo_lock_file io) ReadWriteCreate lock_name fo of
           (Inl _, fo) \<Rightarrow> (Inl InvalidStorage, fo)
         | (Inr _, fo) \<Rightarrow> (acquire_recovery (oo_lock io), fo)))"

definition acquire_files :: "open_io \<Rightarrow> string \<Rightarrow> folder \<Rightarrow> (error + unit) \<times> folder" where
  "acquire_files io path fo =
     (case acquire_recovery_files io path fo of
        (Inl e, fo) \<Rightarrow> (Inl e, fo)
      | (Inr _, fo) \<Rightarrow>
        (case pending_exists (contents fo) (oo_gate_failed io) of
           Inl e \<Rightarrow> (Inl e, fo)
         | Inr gate \<Rightarrow> (if gate then Inl RecoveryRequired else Inr (), fo)))"

text \<open>Opening an existing vault, from the path on.\<close>

definition open_vault_files ::
    "environment \<Rightarrow> open_io \<Rightarrow> string \<Rightarrow> string \<Rightarrow> folder \<Rightarrow> (error + vault) \<times> folder" where
  "open_vault_files env io path mnemonic fo =
     (case acquire_files io path fo of
        (Inl e, fo) \<Rightarrow> (Inl e, fo)
      | (Inr _, fo) \<Rightarrow>
        (case read_image_file (oo_euid io) (oo_image io) (oo_read_ok io) state_name fo of
           Inl e \<Rightarrow> (Inl e, fo)
         | Inr None \<Rightarrow> (Inl InvalidStorage, fo)
         | Inr (Some img) \<Rightarrow> (open_image env (contents fo) img mnemonic, fo)))"

end
