(* ===== verification/Files_Properties.thy ===== *)
theory Files_Properties
  imports Files Store_Properties
begin

text \<open>
  Opening from files: what a successful opening has checked, and that on private files it is the
  opening of \<open>Store\<close>.
\<close>

section \<open>Directories and files\<close>

lemma walk_Inr:
  assumes "walk opened here parts = Inr m"
  shows "opened (here @ parts) = Some m \<and> ''..'' \<notin> set parts \<and> (\<forall>n. opened (here @ take n parts) \<noteq> None)"
  using assms
proof (induction opened here parts rule: walk.induct)
  case (2 opened here part parts)
  then have h: "opened here \<noteq> None" "part \<noteq> ''..''" "CHR 0x00 \<notin> set part" and w: "walk opened (here @ [part]) parts = Inr m"
    by (auto split: if_splits)
  have i: "opened (here @ part # parts) = Some m \<and> ''..'' \<notin> set parts \<and> (\<forall>n. opened (here @ part # take n parts) \<noteq> None)"
    using 2(1) [OF _ w] h w by (auto split: if_splits)
  have "opened (here @ take n (part # parts)) \<noteq> None" for n
    using i h(1) by (cases n) auto
  then show ?case using i h(2) by auto
qed (auto split: option.splits)

definition private_directory :: "nat \<Rightarrow> (string list \<Rightarrow> file_metadata option) \<Rightarrow> string \<Rightarrow> bool" where
  "private_directory euid opened path \<longleftrightarrow> path \<noteq> [] \<and> hd path = CHR ''/'' \<and> ''..'' \<notin> set (path_components path)
     \<and> (\<forall>n. opened (take n (path_components path)) \<noteq> None)
     \<and> (\<exists>m. opened (path_components path) = Some m \<and> fm_uid m = euid \<and> and (fm_mode m) 4095 = 448)"

lemma open_directory_private: "open_directory euid opened path = Inr u \<Longrightarrow> private_directory euid opened path"
  using walk_Inr [of opened "[]" "path_components path"]
  by (auto simp: open_directory_def private_directory_def split: if_splits sum.splits)

lemma check_file_Inr: "check_file euid io ino = Inr ino' \<Longrightarrow> ino' = ino \<and> private_file euid ino"
  by (auto simp: check_file_def split: if_splits)

lemma open_file_Inr:
  assumes "open_file euid io access name fo = (Inr ino, fo')"
  shows "private_file euid ino \<and> map_of fo' name = Some ino \<and> (access = ReadOnly \<longrightarrow> fo' = fo \<and> \<not> fm_symlink (in_metadata ino))"
  using assms by (auto simp: open_file_def split: if_splits option.splits dest!: check_file_Inr)

lemma open_file_others:
  assumes "open_file euid io access name fo = (r, fo')"
  shows "other \<noteq> name \<Longrightarrow> map_of fo' other = map_of fo other" "bt_wf fo \<Longrightarrow> bt_wf fo'"
  using assms by (auto simp: open_file_def bt_wf_insert split: if_splits option.splits)

lemma map_of_contents [simp]: "map_of (contents fo) name = map_option in_bytes (map_of fo name)"
  by (simp add: contents_def)

lemma read_image_file_Inr:
  assumes "read_image_file euid io read_ok name fo = Inr (Some img)"
  shows "read_image (contents fo) name = Inr (Some img)
    \<and> (\<exists>ino. map_of fo name = Some ino \<and> private_file euid ino \<and> \<not> fm_symlink (in_metadata ino) \<and> in_bytes ino = img)"
proof -
  obtain ino where o: "open_file euid io ReadOnly name fo = (Inr ino, fo)" "in_bytes ino = img" "length img \<le> max_image"
    using assms open_file_Inr [of euid io ReadOnly name fo] unfolding read_image_file_def
    by (cases "open_file euid io ReadOnly name fo") (auto split: sum.splits open_error.splits if_splits)
  then show ?thesis using open_file_Inr [OF o(1)] by (auto simp: read_image_def)
qed

lemma gate_contents: "gate_exists (contents fo) name \<longleftrightarrow> map_of fo name \<noteq> None"
  by (auto simp: gate_exists_def bt_contains_iff contents_def bt_map_def image_image map_of_eq_None_iff)

section \<open>Opening\<close>

lemma acquire_files_Inr:
  assumes "acquire_files io path fo = (Inr u, fo')"
  shows "private_directory (oo_euid io) (oo_directory io) path \<and> oo_lock io = Locked
    \<and> (\<exists>l. map_of fo' lock_name = Some l \<and> private_file (oo_euid io) l)
    \<and> (\<forall>name. name \<noteq> lock_name \<longrightarrow> map_of fo' name = map_of fo name)
    \<and> acquire (contents fo') Locked (oo_gate_failed io) = Inr ()"
proof -
  obtain l where d: "open_directory (oo_euid io) (oo_directory io) path = Inr ()"
    and l: "open_file (oo_euid io) (oo_lock_file io) ReadWriteCreate lock_name fo = (Inr l, fo')"
    and k: "acquire_recovery (oo_lock io) = Inr ()" "pending_exists (contents fo') (oo_gate_failed io) = Inr False"
    using assms by (auto simp: acquire_files_def acquire_recovery_files_def split: sum.splits prod.splits if_splits)
  have "oo_lock io = Locked" using k(1) by (auto simp: acquire_recovery_def split: lock_result.splits)
  then show ?thesis
    using open_directory_private [OF d] open_file_Inr [OF l] open_file_others(1) [OF l] k by (auto simp: acquire_def)
qed

text \<open>
  C17: A vault is opened only from private files. If opening from a path succeeds, the path is absolute
  and was walked without following a link to a directory that the owner has to itself, the lock file
  and the state file are regular files of the owner with one name and no access for others, the lock
  is held, no gate is there, and the vault is exactly what the contents of the folder open to; nothing
  in the folder has changed but the lock file, which may be new.
\<close>

theorem opening_needs_private_files:
  assumes "open_vault_files env io path mnemonic fo = (Inr v, fo')"
  shows "private_directory (oo_euid io) (oo_directory io) path \<and> oo_lock io = Locked
    \<and> (\<exists>l. map_of fo' lock_name = Some l \<and> private_file (oo_euid io) l)
    \<and> (\<exists>ino. map_of fo state_name = Some ino \<and> private_file (oo_euid io) ino \<and> \<not> fm_symlink (in_metadata ino))
    \<and> map_of fo pending_name = None \<and> map_of fo recovery_name = None
    \<and> (\<forall>name. name \<noteq> lock_name \<longrightarrow> map_of fo' name = map_of fo name)
    \<and> open_vault env (contents fo') Locked False mnemonic = Inr v"
proof -
  obtain img where a: "acquire_files io path fo = (Inr (), fo')"
    and r: "read_image_file (oo_euid io) (oo_image io) (oo_read_ok io) state_name fo' = Inr (Some img)"
    and i: "open_image env (contents fo') img mnemonic = Inr v"
    using assms by (auto simp: open_vault_files_def split: sum.splits prod.splits option.splits)
  note acq = acquire_files_Inr [OF a] and img = read_image_file_Inr [OF r]
  have names: "state_name \<noteq> lock_name" "pending_name \<noteq> lock_name" "recovery_name \<noteq> lock_name"
    by (simp_all add: state_name_def pending_name_def recovery_name_def lock_name_def)
  have gates: "oo_gate_failed io = False" "map_of fo' pending_name = None" "map_of fo' recovery_name = None"
    using acq by (auto simp: acquire_def acquire_recovery_def pending_exists_def gate_contents split: if_splits)
  have "open_vault env (contents fo') Locked False mnemonic = Inr v"
    using acq gates(1) img i by (simp add: open_vault_def)
  then show ?thesis using acq img gates names by metis
qed

text \<open>On private files that can be opened and read, opening from a path is the opening of the contents, errors included.\<close>

lemma open_vault_files_refines:
  assumes "open_directory (oo_euid io) (oo_directory io) path = Inr ()"
    and "open_file (oo_euid io) (oo_lock_file io) ReadWriteCreate lock_name fo = (Inr l, fo')"
    and "fo_open_ok (oo_image io)" "fo_stat_ok (oo_image io)" "oo_read_ok io"
    and "\<And>ino. map_of fo' state_name = Some ino \<Longrightarrow> private_file (oo_euid io) ino \<and> \<not> fm_symlink (in_metadata ino)"
  shows "open_vault_files env io path mnemonic fo
    = (open_vault env (contents fo') (oo_lock io) (oo_gate_failed io) mnemonic, fo')"
proof -
  have plain: "CHR 0x00 \<notin> set state_name" by (simp add: state_name_def)
  have "read_image_file (oo_euid io) (oo_image io) (oo_read_ok io) state_name fo' = read_image (contents fo') state_name"
    using assms(3-6) plain
    by (cases "map_of fo' state_name") (simp_all add: read_image_file_def open_file_def check_file_def read_image_def)
  then show ?thesis
    using assms(1,2)
    by (auto simp: open_vault_files_def acquire_files_def acquire_recovery_files_def open_vault_def acquire_def
        split: sum.splits option.splits)
qed

section \<open>Witness\<close>

definition ex_file :: "u8 list \<Rightarrow> inode" where
  "ex_file bytes = \<lparr>in_metadata = \<lparr>fm_uid = 5, fm_symlink = False, fm_mode = 0x8180, fm_is_file = True, fm_is_dir = False,
     fm_len = length bytes\<rparr>, in_nlink = 1, in_bytes = bytes\<rparr>"

definition ex_open_io :: open_io where
  "ex_open_io = \<lparr>oo_euid = 5,
     oo_directory = (\<lambda>_. Some \<lparr>fm_uid = 5, fm_symlink = False, fm_mode = 0x41C0, fm_is_file = False, fm_is_dir = True, fm_len = 0\<rparr>),
     oo_lock_file = \<lparr>fo_umask = 63, fo_create_ok = True, fo_open_ok = True, fo_stat_ok = True\<rparr>, oo_lock = Locked,
     oo_gate_failed = False, oo_image = \<lparr>fo_umask = 63, fo_create_ok = True, fo_open_ok = True, fo_stat_ok = True\<rparr>,
     oo_read_ok = True\<rparr>"

lemma ex_opened: "\<exists>v fo. open_vault_files ex_env ex_open_io ''/vault'' ''seed'' [(state_name, ex_file ex_image)] = (Inr v, fo)"
proof -
  let ?fo = "[(state_name, ex_file ex_image)]"
  have d: "open_directory 5 (oo_directory ex_open_io) ''/vault'' = Inr ()"
    by (simp add: open_directory_def path_components_def ex_open_io_def)
  have l: "open_file 5 (oo_lock_file ex_open_io) ReadWriteCreate lock_name ?fo
      = (Inr (new_inode 5 (oo_lock_file ex_open_io)), bt_insert lock_name (new_inode 5 (oo_lock_file ex_open_io)) ?fo)"
    by (simp add: open_file_def lock_name_def state_name_def check_file_def private_file_def new_inode_def ex_open_io_def)
  let ?fo' = "bt_insert lock_name (new_inode 5 (oo_lock_file ex_open_io)) ?fo"
  have "open_vault_files ex_env ex_open_io ''/vault'' ''seed'' ?fo
      = (open_vault ex_env (contents ?fo') (oo_lock ex_open_io) (oo_gate_failed ex_open_io) ''seed'', ?fo')"
  proof (rule open_vault_files_refines)
    show "open_file (oo_euid ex_open_io) (oo_lock_file ex_open_io) ReadWriteCreate lock_name ?fo
        = (Inr (new_inode 5 (oo_lock_file ex_open_io)), ?fo')"
      using l by (simp add: ex_open_io_def)
  qed (use d in \<open>auto simp: ex_open_io_def ex_file_def private_file_def lock_name_def state_name_def\<close>)
  moreover have "acquire (contents ?fo') Locked False = Inr ()"
    by (simp add: acquire_def acquire_recovery_def pending_exists_def gate_contents lock_name_def state_name_def
        pending_name_def recovery_name_def)
  moreover have "read_image (contents ?fo') state_name = Inr (Some ex_image)"
    by (simp add: read_image_def lock_name_def state_name_def ex_file_def length_ex_image max_image_def)
  moreover have "\<not> unfinished ex_fresh_app" by (simp add: unfinished_def ex_fresh_app_def default_application_def bt_values_def)
  ultimately show ?thesis using ex_unseal by (simp add: open_vault_def open_image_def ex_open_io_def)
qed

theorem opening_needs_private_files_witness:
  "\<exists>v fo. open_vault_files ex_env ex_open_io ''/vault'' ''seed'' [(state_name, ex_file ex_image)] = (Inr v, fo)
     \<and> open_vault ex_env (contents fo) Locked False ''seed'' = Inr v \<and> map_of fo lock_name \<noteq> None"
proof -
  obtain v fo where o: "open_vault_files ex_env ex_open_io ''/vault'' ''seed'' [(state_name, ex_file ex_image)] = (Inr v, fo)"
    using ex_opened by blast
  then show ?thesis using opening_needs_private_files [OF o] by auto
qed

end
