(* ===== verification/Curl.thy ===== *)
theory Curl
  imports Descriptors
begin

text \<open>
  The child process of a delivery (\<^verbatim>\<open>PreparedHttps\<close> of \<^verbatim>\<open>src/src/agent_https.rs\<close>): its command line, what
  the closure between fork and exec does, the pipes the owner keeps, and what dropping the delivery
  does to them. A child starts as a copy of the owner with the standard streams replaced, and executing
  the program closes what is marked; \<open>Https\<close> has the validation, the configuration and the loop.
\<close>

section \<open>The command\<close>

definition curl_program :: string where "curl_program = ''/usr/bin/curl''"

definition curl_args :: "string list" where
  "curl_args = [''-q'', ''--config'', ''-'', ''--silent'', ''--globoff'', ''--path-as-is'', ''--request'', ''GET'',
     ''--proto'', ''=https'', ''--proto-redir'', ''=https'', ''--no-location'', ''--no-location-trusted'',
     ''--max-redirs'', ''0'', ''--proxy'', '''', ''--noproxy'', ''*'', ''--no-netrc'', ''--retry'', ''0'',
     ''--no-insecure'', ''--no-proxy-insecure'', ''--tlsv1.2'', ''--basic'', ''--output'', ''/dev/null'',
     ''--write-out'', ''%{http_code}'']"

section \<open>The child\<close>

record child =
  cd_program :: string
  cd_args :: "string list"
  cd_env :: "(string \<times> string) list"
  cd_fds :: descriptors
  cd_core_limit :: "nat option"
  cd_no_new_privs :: bool
  cd_death_signal :: "nat option"

text \<open>
  What spawning observes: whether the pipes and the process could be made, the entries of their ends,
  the outcome of each call of the closure, the parent it sees, whether the program is executed, and the
  calls on the ends that the owner keeps.
\<close>

record spawn_io =
  sp_forked :: bool
  sp_input_fd :: int
  sp_output_fd :: int
  sp_entry :: descriptor
  sp_close_range_ok :: bool
  sp_rlimit_ok :: bool
  sp_privs_ok :: bool
  sp_signal_ok :: bool
  sp_parent_pid :: nat
  sp_executed :: bool
  sp_flags_ok :: "int \<Rightarrow> bool"
  sp_cloexec_ok :: "int \<Rightarrow> bool"

definition sigkill :: nat where "sigkill = 9"

definition open_entry :: "descriptor \<Rightarrow> bool \<Rightarrow> descriptor" where
  "open_entry d cloexec = d\<lparr>fd_open := True, fd_cloexec := cloexec\<rparr>"

text \<open>After the fork, with pipes and the null device as standard streams and no environment.\<close>

definition forked :: "spawn_io \<Rightarrow> process \<Rightarrow> child" where
  "forked io p =
     \<lparr>cd_program = curl_program, cd_args = curl_args, cd_env = [],
      cd_fds = (pr_fds p)(0 := open_entry (sp_entry io) False, 1 := open_entry (sp_entry io) False,
        2 := open_entry (sp_entry io) False),
      cd_core_limit = None, cd_no_new_privs = pr_no_new_privs p, cd_death_signal = None\<rparr>"

text \<open>\<^verbatim>\<open>close_range\<close> from 3 on with \<^verbatim>\<open>CLOSE_RANGE_CLOEXEC\<close>.\<close>

definition mark_from :: "int \<Rightarrow> descriptors \<Rightarrow> descriptors" where
  "mark_from first fds = (\<lambda>fd. if first \<le> fd then (fds fd)\<lparr>fd_cloexec := True\<rparr> else fds fd)"

text \<open>The closure; a failed call leaves the child without the program.\<close>

definition pre_exec :: "spawn_io \<Rightarrow> nat \<Rightarrow> child \<Rightarrow> child option" where
  "pre_exec io owner_pid c =
     (if \<not> sp_close_range_ok io then None
      else
        let c = c\<lparr>cd_fds := mark_from 3 (cd_fds c)\<rparr> in
        if \<not> sp_rlimit_ok io then None
        else
          let c = c\<lparr>cd_core_limit := Some 0\<rparr> in
          if \<not> sp_privs_ok io then None
          else
            let c = c\<lparr>cd_no_new_privs := True\<rparr> in
            if \<not> sp_signal_ok io then None
            else
              let c = c\<lparr>cd_death_signal := Some sigkill\<rparr> in
              if sp_parent_pid io \<noteq> owner_pid then None else Some c)"

text \<open>Executing a program closes the marked descriptors.\<close>

definition exec_fds :: "descriptors \<Rightarrow> descriptors" where
  "exec_fds fds = (\<lambda>fd. (fds fd)\<lparr>fd_open := fd_open (fds fd) \<and> \<not> fd_cloexec (fds fd)\<rparr>)"

definition spawn :: "spawn_io \<Rightarrow> nat \<Rightarrow> process \<Rightarrow> child option \<times> process" where
  "spawn io owner_pid p =
     (if \<not> sp_forked io then (None, p)
      else case pre_exec io owner_pid (forked io p) of
        None \<Rightarrow> (None, p)
      | Some c \<Rightarrow>
          if \<not> sp_executed io then (None, p)
          else (Some (c\<lparr>cd_fds := exec_fds (cd_fds c)\<rparr>),
                p\<lparr>pr_fds := (pr_fds p)(sp_input_fd io := open_entry (sp_entry io) True,
                   sp_output_fd io := open_entry (sp_entry io) True)\<rparr>))"

section \<open>The prepared delivery\<close>

text \<open>The handles the owner holds: the child until it has been waited for, and the ends of its pipes.\<close>

record transfer =
  tf_https :: prepared_https
  tf_child :: "child option"
  tf_input :: "int option"
  tf_output :: "int option"

definition close_handle :: "int option \<Rightarrow> process \<Rightarrow> process" where
  "close_handle handle p = (case handle of None \<Rightarrow> p | Some fd \<Rightarrow> p\<lparr>pr_fds := close_fd fd (pr_fds p)\<rparr>)"

text \<open>
  Dropping: both pipes are closed, and a child that is still held is killed and waited for. What is
  left is the handles, all empty, and the process.
\<close>

definition drop_transfer :: "transfer \<Rightarrow> process \<Rightarrow> transfer \<times> process" where
  "drop_transfer t p =
     (t\<lparr>tf_input := None, tf_output := None, tf_child := None\<rparr>, close_handle (tf_output t) (close_handle (tf_input t) p))"

definition nonblocking_cloexec :: "spawn_io \<Rightarrow> int \<Rightarrow> process \<Rightarrow> (error + unit) \<times> process" where
  "nonblocking_cloexec io fd p =
     (if \<not> sp_flags_ok io fd \<or> \<not> sp_cloexec_ok io fd then (Inl InteractionRequired, p)
      else (Inr (), p\<lparr>pr_fds := mark_fd fd (pr_fds p)\<rparr>))"

definition prepare_transfer ::
    "nat \<Rightarrow> (string list \<Rightarrow> file_metadata option) \<Rightarrow> spawn_io \<Rightarrow> nat \<Rightarrow> destination \<Rightarrow> process
       \<Rightarrow> (error + transfer) \<times> process" where
  "prepare_transfer euid stat io owner_pid d p =
     (case validate_destination euid stat d of
        Inl e \<Rightarrow> (Inl e, p)
      | Inr _ \<Rightarrow>
        (case spawn io owner_pid p of
           (None, p) \<Rightarrow> (Inl InteractionRequired, p)
         | (Some c, p) \<Rightarrow>
           let t = \<lparr>tf_https = \<lparr>ph_prefix = config_prefix d, ph_auth = ds_auth d, ph_wall = wall (ds_timeouts d)\<rparr>,
                    tf_child = Some c, tf_input = Some (sp_input_fd io), tf_output = Some (sp_output_fd io)\<rparr> in
           (case nonblocking_cloexec io (sp_input_fd io) p of
              (Inl e, p) \<Rightarrow> (Inl e, snd (drop_transfer t p))
            | (Inr _, p) \<Rightarrow>
              (case nonblocking_cloexec io (sp_output_fd io) p of
                 (Inl e, p) \<Rightarrow> (Inl e, snd (drop_transfer t p))
               | (Inr _, p) \<Rightarrow> (Inr t, p)))))"

text \<open>
  The callback consumes the delivery: when its loop has returned, or the credentials do not fit the
  destination, it is dropped. That the loop closes its input earlier makes no difference then.
\<close>

definition deliver_transfer ::
    "transfer \<Rightarrow> tick list \<Rightarrow> secret_input \<Rightarrow> process \<Rightarrow> (error + delivery_status) option \<times> transfer \<times> process" where
  "deliver_transfer t ticks v p =
     (case deliver (tf_https t) ticks v of
        None \<Rightarrow> (None, t, p)
      | Some r \<Rightarrow> (Some r, drop_transfer t p))"

end
