(* ===== verification/Curl_Properties.thy ===== *)
theory Curl_Properties
  imports Curl Https_Properties
begin

text \<open>
  What the transfer program can reach and what a delivery leaves behind in the owner.
\<close>

definition same_open :: "process \<Rightarrow> process \<Rightarrow> bool" where
  "same_open p p' \<longleftrightarrow> (\<forall>fd. fd_open (pr_fds p' fd) = fd_open (pr_fds p fd))"

lemma open_entry_simps [simp]: "fd_open (open_entry d m)" "fd_cloexec (open_entry d m) = m"
  by (simp_all add: open_entry_def)

lemma pre_exec_Some:
  assumes "pre_exec io owner_pid c = Some c'"
  shows "c' = c\<lparr>cd_fds := mark_from 3 (cd_fds c), cd_core_limit := Some 0, cd_no_new_privs := True,
    cd_death_signal := Some sigkill\<rparr> \<and> sp_parent_pid io = owner_pid"
  using assms by (auto simp: pre_exec_def Let_def split: if_splits)

lemma executed_open: "fd_open (exec_fds (mark_from 3 fds) fd) \<Longrightarrow> fd < 3"
  by (auto simp: exec_fds_def mark_from_def split: if_splits)

text \<open>The ends of the pipes have numbers that were free.\<close>

definition fresh_pipes :: "spawn_io \<Rightarrow> process \<Rightarrow> bool" where
  "fresh_pipes io p \<longleftrightarrow> \<not> fd_open (pr_fds p (sp_input_fd io)) \<and> \<not> fd_open (pr_fds p (sp_output_fd io))"

lemma spawn_Some:
  assumes "spawn io owner_pid p = (Some c, p')"
  shows "cd_program c = curl_program \<and> cd_args c = curl_args \<and> cd_env c = [] \<and> cd_core_limit c = Some 0
      \<and> cd_no_new_privs c \<and> cd_death_signal c = Some sigkill \<and> (\<forall>fd. fd_open (cd_fds c fd) \<longrightarrow> fd < 3)"
    and "fd_open (pr_fds p' fd) \<longleftrightarrow> fd = sp_input_fd io \<or> fd = sp_output_fd io \<or> fd_open (pr_fds p fd)"
    and "fd \<in> {sp_input_fd io, sp_output_fd io} \<Longrightarrow> fd_cloexec (pr_fds p' fd)"
proof -
  obtain c0 where c: "pre_exec io owner_pid (forked io p) = Some c0" "c = c0\<lparr>cd_fds := exec_fds (cd_fds c0)\<rparr>"
      "p' = p\<lparr>pr_fds := (pr_fds p)(sp_input_fd io := open_entry (sp_entry io) True,
         sp_output_fd io := open_entry (sp_entry io) True)\<rparr>"
    using assms by (auto simp: spawn_def split: if_splits option.splits)
  note e = pre_exec_Some [OF c(1), THEN conjunct1]
  show "cd_program c = curl_program \<and> cd_args c = curl_args \<and> cd_env c = [] \<and> cd_core_limit c = Some 0
      \<and> cd_no_new_privs c \<and> cd_death_signal c = Some sigkill \<and> (\<forall>fd. fd_open (cd_fds c fd) \<longrightarrow> fd < 3)"
    using executed_open by (auto simp: c(2) e forked_def)
  show "fd_open (pr_fds p' fd) \<longleftrightarrow> fd = sp_input_fd io \<or> fd = sp_output_fd io \<or> fd_open (pr_fds p fd)"
    "fd \<in> {sp_input_fd io, sp_output_fd io} \<Longrightarrow> fd_cloexec (pr_fds p' fd)"
    by (auto simp: c(3))
qed

lemma spawn_None: "spawn io owner_pid p = (None, p') \<Longrightarrow> p' = p"
  by (auto simp: spawn_def split: if_splits option.splits)

lemma nonblocking_open: "nonblocking_cloexec io fd p = (r, p') \<Longrightarrow> same_open p p'"
  by (auto simp: nonblocking_cloexec_def same_open_def split: if_splits)

lemma drop_open:
  "fd_open (pr_fds (snd (drop_transfer t p)) fd) \<longleftrightarrow> fd_open (pr_fds p fd) \<and> Some fd \<noteq> tf_input t \<and> Some fd \<noteq> tf_output t"
  by (auto simp: drop_transfer_def close_handle_def split: option.splits)

text \<open>Up to the process this is the preparation of \<open>Https\<close>.\<close>

lemma prepare_transfer_cases:
  assumes "prepare_transfer euid stat io owner_pid d p = (r, p')"
  obtains (refused) e where "validate_destination euid stat d = Inl e" "r = Inl e" "p' = p"
    | (failed) "validate_destination euid stat d = Inr ()" "r = Inl InteractionRequired" "fresh_pipes io p \<Longrightarrow> same_open p p'"
    | (started) c p1 t where "validate_destination euid stat d = Inr ()" "spawn io owner_pid p = (Some c, p1)" "r = Inr t"
        "same_open p1 p'" "tf_child t = Some c" "tf_input t = Some (sp_input_fd io)" "tf_output t = Some (sp_output_fd io)"
        "tf_https t = \<lparr>ph_prefix = config_prefix d, ph_auth = ds_auth d, ph_wall = wall (ds_timeouts d)\<rparr>"
proof (cases "validate_destination euid stat d")
  case (Inl e)
  then show ?thesis using assms refused by (simp add: prepare_transfer_def)
next
  case (Inr u)
  obtain child p1 where s: "spawn io owner_pid p = (child, p1)" by (metis surj_pair)
  show ?thesis
  proof (cases child)
    case None
    then have "p1 = p" using spawn_None s by blast
    then show ?thesis using assms Inr s None by (intro failed) (simp_all add: prepare_transfer_def same_open_def)
  next
    case (Some c)
    let ?t = "\<lparr>tf_https = \<lparr>ph_prefix = config_prefix d, ph_auth = ds_auth d, ph_wall = wall (ds_timeouts d)\<rparr>,
      tf_child = Some c, tf_input = Some (sp_input_fd io), tf_output = Some (sp_output_fd io)\<rparr>"
    obtain r1 p2 where a: "nonblocking_cloexec io (sp_input_fd io) p1 = (r1, p2)" by (metis surj_pair)
    obtain r2 p3 where b: "nonblocking_cloexec io (sp_output_fd io) p2 = (r2, p3)" by (metis surj_pair)
    have dropped: "same_open p (snd (drop_transfer ?t q))" if "same_open p1 q" "fresh_pipes io p" for q
      using that spawn_Some(2) [OF s [unfolded Some]] by (auto simp: same_open_def drop_open fresh_pipes_def)
    have marked: "same_open p1 p2" "same_open p1 p3"
      using nonblocking_open [OF a] nonblocking_open [OF b] by (simp_all add: same_open_def)
    have e: "q = InteractionRequired" if "nonblocking_cloexec io fd q1 = (Inl q, q2)" for fd q q1 q2
      using that by (auto simp: nonblocking_cloexec_def split: if_splits)
    show ?thesis
    proof (cases r1)
      case (Inl x)
      then show ?thesis
        using assms Inr s Some a e marked dropped by (intro failed) (auto simp: prepare_transfer_def Let_def)
    next
      case r1: (Inr u1)
      show ?thesis
      proof (cases r2)
        case (Inl x)
        then show ?thesis
          using assms Inr s Some a b r1 e marked dropped by (intro failed) (auto simp: prepare_transfer_def Let_def)
      next
        case r2: (Inr u2)
        have "r = Inr ?t" "p' = p3" using assms Inr s Some a b r1 r2 by (simp_all add: prepare_transfer_def Let_def)
        then show ?thesis using Inr s Some marked by (intro started [of c p1 ?t]) simp_all
      qed
    qed
  qed
qed

lemma prepare_transfer_refines:
  "\<exists>ok. map_sum id tf_https (fst (prepare_transfer euid stat io owner_pid d p)) = prepare euid stat ok d"
proof -
  obtain r p' where r: "prepare_transfer euid stat io owner_pid d p = (r, p')" by (metis surj_pair)
  then show ?thesis
  proof (cases rule: prepare_transfer_cases)
    case failed
    then show ?thesis using r by (intro exI [of _ False]) (simp add: prepare_def)
  next
    case (started c p1 t)
    then show ?thesis using r by (intro exI [of _ True]) (simp add: prepare_def)
  qed (use r in \<open>simp add: prepare_def\<close>)
qed

text \<open>
  C19: A delivery is confined. The transfer program runs with its fixed arguments, the first of which
  disables every ambient configuration, with no environment, no new privileges and no core dump, dies
  with the owner, and inherits no descriptor of the owner: only its three standard streams are open. A
  preparation that fails and a delivery that ends, with whatever result, leave the owner with exactly
  the open descriptors it had before and with no child to wait for.
\<close>

theorem delivery_is_confined:
  assumes "prepare_transfer euid stat io owner_pid d p = (r, p')" and "fresh_pipes io p"
  shows "case r of
      Inl e \<Rightarrow> same_open p p'
    | Inr t \<Rightarrow> (\<exists>c. tf_child t = Some c \<and> cd_program c = ''/usr/bin/curl'' \<and> take 3 (cd_args c) = [''-q'', ''--config'', ''-'']
          \<and> cd_args c = curl_args \<and> cd_env c = [] \<and> cd_no_new_privs c \<and> cd_core_limit c = Some 0
          \<and> cd_death_signal c = Some 9 \<and> (\<forall>fd. fd_open (cd_fds c fd) \<longrightarrow> fd < 3))
        \<and> validate_destination euid stat d = Inr ()
        \<and> (\<forall>ticks v result t' p''. deliver_transfer t ticks v p' = (Some result, t', p'') \<longrightarrow>
             same_open p p'' \<and> tf_child t' = None)"
  using assms(1)
proof (cases rule: prepare_transfer_cases)
  case (started c p1 t)
  note c = spawn_Some(1) [OF started(2)] and own = spawn_Some(2) [OF started(2)]
  have "same_open p (snd (drop_transfer t p'))"
    using started(4,6,7) own assms(2) by (auto simp: same_open_def drop_open fresh_pipes_def)
  moreover have "tf_child (fst (drop_transfer t q)) = None" for q by (simp add: drop_transfer_def)
  ultimately have "same_open p p'' \<and> tf_child t' = None" if "deliver_transfer t ticks v p' = (Some result, t', p'')" for ticks v result t' p''
    using that by (auto simp: deliver_transfer_def split: option.splits) (metis fst_conv snd_conv)+
  then show ?thesis using started(1,3,5) c by (simp add: curl_program_def curl_args_def sigkill_def)
qed (use assms(2) in \<open>simp_all add: same_open_def\<close>)

definition ex_spawn :: spawn_io where
  "ex_spawn = \<lparr>sp_forked = True, sp_input_fd = 7, sp_output_fd = 8,
     sp_entry = \<lparr>fd_open = False, fd_cloexec = False, fd_identity = (0, 0),
       fd_metadata = \<lparr>fm_uid = 0, fm_symlink = False, fm_mode = 0, fm_is_file = False, fm_is_dir = False, fm_len = 0\<rparr>,
       fd_nlink = 1, fd_writable = True, fd_fifo = True, fd_offset = 0, fd_bytes = None, fd_utf8 = False,
       fd_socket = None, fd_connected = False, fd_blocking_ok = True\<rparr>,
     sp_close_range_ok = True, sp_rlimit_ok = True, sp_privs_ok = True, sp_signal_ok = True, sp_parent_pid = 4,
     sp_executed = True, sp_flags_ok = (\<lambda>_. True), sp_cloexec_ok = (\<lambda>_. True)\<rparr>"

definition ex_owner :: process where
  "ex_owner = \<lparr>pr_fds = (\<lambda>fd. (sp_entry ex_spawn)\<lparr>fd_open := 0 \<le> fd \<and> fd \<le> 6\<rparr>), pr_no_new_privs = True, pr_dumpable = False\<rparr>"

theorem delivery_is_confined_witness:
  "\<exists>t c p'. prepare_transfer 0 (\<lambda>_. None) ex_spawn 4 ex_destination ex_owner = (Inr t, p') \<and> tf_child t = Some c
     \<and> \<not> fd_open (cd_fds c 5) \<and> fd_open (pr_fds ex_owner 5) \<and> cd_args c = curl_args"
proof -
  have f: "fresh_pipes ex_spawn ex_owner" by (simp add: fresh_pipes_def ex_owner_def ex_spawn_def)
  obtain t p' where t: "prepare_transfer 0 (\<lambda>_. None) ex_spawn 4 ex_destination ex_owner = (Inr t, p')"
    using ex_destination_valid
    by (simp add: prepare_transfer_def spawn_def pre_exec_def ex_spawn_def Let_def nonblocking_cloexec_def)
  obtain c where c: "tf_child t = Some c" "\<forall>fd. fd_open (cd_fds c fd) \<longrightarrow> fd < 3" "cd_args c = curl_args"
    using delivery_is_confined [OF t f] by auto
  have "\<not> fd_open (cd_fds c 5)" using c(2) by fastforce
  then show ?thesis using t c(1,3) by (simp add: ex_owner_def)
qed

end
