(* ===== verification/Frontend.thy ===== *)
theory Frontend
  imports Mcp
begin

text \<open>
  The process of the front end (\<^verbatim>\<open>run\<close>, \<^verbatim>\<open>line\<close>, \<^verbatim>\<open>ready\<close> and \<^verbatim>\<open>output\<close> of \<^verbatim>\<open>src/src/agent_mcp.rs\<close>):
  hardening and closing of descriptors, the connection to the owner, and the loop that reads a line,
  answers it and writes the answer, over the polls and calls of the standard streams. Instants are
  counted in milliseconds.
\<close>

section \<open>Waiting\<close>

text \<open>
  One turn of the loop of \<^verbatim>\<open>ready\<close>: the instant it starts at and what \<^verbatim>\<open>poll\<close> returns for the timeout
  it is given. An exhausted list stands for an expired deadline.
\<close>

datatype stream_poll = StreamReady | StreamTimeout | StreamInterrupted | StreamFailed

record poll_turn =
  pt_now :: nat
  pt_poll :: "nat \<Rightarrow> stream_poll"

definition poll_timeout :: "nat \<Rightarrow> nat" where
  "poll_timeout remaining = min remaining (2 ^ 31 - 1)"

fun poll_ready :: "nat \<Rightarrow> poll_turn list \<Rightarrow> error + unit" where
  "poll_ready deadline [] = Inl Invalid"
| "poll_ready deadline (t # ts) =
     (if deadline < pt_now t then Inl Invalid
      else case pt_poll t (poll_timeout (deadline - pt_now t)) of
        StreamReady \<Rightarrow> Inr ()
      | StreamInterrupted \<Rightarrow> poll_ready deadline ts
      | StreamTimeout \<Rightarrow> Inl Invalid
      | StreamFailed \<Rightarrow> Inl Invalid)"

section \<open>Reading a line\<close>

text \<open>
  One filling of the empty buffer: the polls before it, what the read gives, and the instant after it.
  The reader keeps what follows a line.
\<close>

record fill =
  fl_polls :: "poll_turn list"
  fl_data :: "u8 list option"
  fl_now :: nat

record reader =
  rd_buffer :: "u8 list"
  rd_fills :: "fill list"

datatype piece = TooLong | Whole "u8 list" "u8 list" | Partial "u8 list"

definition add_piece :: "u8 list \<Rightarrow> u8 list \<Rightarrow> piece" where
  "add_piece bytes buffer =
     (let before = takeWhile (\<lambda>b. b \<noteq> 10) buffer;
          complete = length before < length buffer;
          count = (if complete then length before + 1 else length buffer) in
      if max_frame_bytes + 1 < length bytes + count then TooLong
      else if complete then Whole (bytes @ before) (drop count buffer)
      else Partial (bytes @ buffer))"

definition frame_deadline :: "nat \<Rightarrow> nat \<Rightarrow> nat" where
  "frame_deadline deadline now = min deadline (now + 5000)"

fun fill_line :: "nat \<Rightarrow> nat \<Rightarrow> u8 list \<Rightarrow> fill list \<Rightarrow> line_result \<times> reader" where
  "fill_line deadline until bytes [] = (LineError, \<lparr>rd_buffer = [], rd_fills = []\<rparr>)"
| "fill_line deadline until bytes (f # fs) =
     (case poll_ready until (fl_polls f) of
        Inl _ \<Rightarrow> (LineError, \<lparr>rd_buffer = [], rd_fills = fs\<rparr>)
      | Inr _ \<Rightarrow>
        (case fl_data f of
           None \<Rightarrow> (LineError, \<lparr>rd_buffer = [], rd_fills = fs\<rparr>)
         | Some buffer \<Rightarrow>
             if buffer = [] then (if bytes = [] then EndOfInput else LineError, \<lparr>rd_buffer = [], rd_fills = fs\<rparr>)
             else
               let until' = (if bytes = [] then frame_deadline deadline (fl_now f) else until) in
               case add_piece bytes buffer of
                 TooLong \<Rightarrow> (LineError, \<lparr>rd_buffer = buffer, rd_fills = fs\<rparr>)
               | Whole found rest \<Rightarrow> (Line found, \<lparr>rd_buffer = rest, rd_fills = fs\<rparr>)
               | Partial bytes' \<Rightarrow> fill_line deadline until' bytes' fs))"

definition next_line :: "nat \<Rightarrow> nat \<Rightarrow> reader \<Rightarrow> line_result \<times> reader" where
  "next_line deadline now r =
     (if rd_buffer r = [] then fill_line deadline deadline [] (rd_fills r)
      else case add_piece [] (rd_buffer r) of
        TooLong \<Rightarrow> (LineError, r)
      | Whole found rest \<Rightarrow> (Line found, r\<lparr>rd_buffer := rest\<rparr>)
      | Partial bytes \<Rightarrow> fill_line deadline (frame_deadline deadline now) bytes (rd_fills r))"

section \<open>Writing an answer\<close>

text \<open>A write that was interrupted or would block is tried again.\<close>

datatype stdout_result = Put nat | PutAgain | PutFailed

record write_turn =
  wt_polls :: "poll_turn list"
  wt_write :: stdout_result

fun write_out :: "nat \<Rightarrow> u8 list \<Rightarrow> write_turn list \<Rightarrow> u8 list \<Rightarrow> (error + unit) \<times> u8 list" where
  "write_out deadline [] ts out = (Inr (), out)"
| "write_out deadline (b # bs) [] out = (Inl Invalid, out)"
| "write_out deadline (b # bs) (t # ts) out =
     (case poll_ready deadline (wt_polls t) of
        Inl e \<Rightarrow> (Inl e, out)
      | Inr _ \<Rightarrow>
        (case wt_write t of
           PutFailed \<Rightarrow> (Inl Invalid, out)
         | PutAgain \<Rightarrow> write_out deadline (b # bs) ts out
         | Put count \<Rightarrow>
             if count = 0 then (Inl Invalid, out)
             else write_out deadline (drop count (b # bs)) ts (out @ take count (b # bs))))"

definition put_output :: "json_text \<Rightarrow> nat \<Rightarrow> write_turn list \<Rightarrow> json \<Rightarrow> u8 list \<Rightarrow> (error + unit) \<times> u8 list" where
  "put_output jt now ts response out = write_out (now + 5000) (output_bytes jt response) ts out"

section \<open>The loop\<close>

record frontend =
  fn_state :: mcp_state
  fn_channel :: channel
  fn_input :: reader
  fn_output :: "u8 list"

text \<open>What one turn of the loop observes: the instants of reading and writing, and the calls.\<close>

record frontend_turn =
  ft_now :: nat
  ft_exchange :: exchange
  ft_written_at :: nat
  ft_writes :: "write_turn list"

text \<open>No result while the loop is still running after the turns listed.\<close>

fun serve_lines :: "services \<Rightarrow> nat \<Rightarrow> frontend_turn list \<Rightarrow> frontend \<Rightarrow> (error + unit) option \<times> frontend" where
  "serve_lines sv deadline [] fe = (None, fe)"
| "serve_lines sv deadline (t # ts) fe =
     (case next_line deadline (ft_now t) (fn_input fe) of
        (LineError, input) \<Rightarrow> (Some (Inl Invalid), fe\<lparr>fn_input := input\<rparr>)
      | (EndOfInput, input) \<Rightarrow> (Some (Inr ()), fe\<lparr>fn_input := input\<rparr>)
      | (Line bytes, input) \<Rightarrow>
        (case answer_line sv (ft_exchange t) bytes (fn_state fe) (fn_channel fe) of
           (None, st, ch) \<Rightarrow>
             serve_lines sv deadline ts (fe\<lparr>fn_state := st, fn_channel := ch, fn_input := input\<rparr>)
         | (Some response, st, ch) \<Rightarrow>
             (case put_output (sv_text sv) (ft_written_at t) (ft_writes t) response (fn_output fe) of
                (Inl e, out) \<Rightarrow>
                  (Some (Inl e), fe\<lparr>fn_state := st, fn_channel := ch, fn_input := input, fn_output := out\<rparr>)
              | (Inr _, out) \<Rightarrow>
                  serve_lines sv deadline ts
                    (fe\<lparr>fn_state := st, fn_channel := ch, fn_input := input, fn_output := out\<rparr>))))"

section \<open>The process\<close>

text \<open>
  What the start observes: the calls on descriptors, whether the flags of the standard output can be
  read and set, the connection, two readings of the clock, the instant of the second and the input.
\<close>

record frontend_io =
  fi_calls :: fd_calls
  fi_nonblocking_ok :: bool
  fi_euid :: nat
  fi_session_of :: "json \<Rightarrow> session_file option"
  fi_connect :: connect_io
  fi_now :: time
  fi_later :: time
  fi_instant :: nat
  fi_input :: "fill list"

definition start_frontend ::
    "services \<Rightarrow> frontend_io \<Rightarrow> string \<Rightarrow> process \<Rightarrow> (error + frontend \<times> nat) \<times> process" where
  "start_frontend sv io path p =
     (case harden (fi_calls io) p of
        (Inl e, p) \<Rightarrow> (Inl e, p)
      | (Inr _, p) \<Rightarrow>
        (case close_unlisted (fi_calls io) [] (pr_fds p) of
           (Inl e, fds) \<Rightarrow> (Inl e, p\<lparr>pr_fds := fds\<rparr>)
         | (Inr _, fds) \<Rightarrow>
           let p = p\<lparr>pr_fds := fds\<rparr> in
           if \<not> fi_nonblocking_ok io then (Inl Invalid, p)
           else case connect (sv_text sv) (fi_session_of io) (fi_euid io) (fi_connect io) path (fi_now io) of
             Inl e \<Rightarrow> (Inl e, p)
           | Inr (ch, expires_at) \<Rightarrow>
             (case frontend_deadline expires_at (fi_later io) of
                Inl e \<Rightarrow> (Inl e, p)
              | Inr secs \<Rightarrow>
                  (Inr (\<lparr>fn_state = Initialize, fn_channel = ch,
                         fn_input = \<lparr>rd_buffer = [], rd_fills = fi_input io\<rparr>, fn_output = []\<rparr>,
                        fi_instant io + 1000 * secs), p))))"

definition run_frontend ::
    "services \<Rightarrow> frontend_io \<Rightarrow> frontend_turn list \<Rightarrow> string \<Rightarrow> process
       \<Rightarrow> (error + unit) option \<times> frontend option \<times> process" where
  "run_frontend sv io turns path p =
     (case start_frontend sv io path p of
        (Inl e, p) \<Rightarrow> (Some (Inl e), None, p)
      | (Inr (fe, deadline), p) \<Rightarrow>
        (case serve_lines sv deadline turns fe of (r, fe') \<Rightarrow> (r, Some fe', p)))"

end
