(* ===== verification/Program.thy ===== *)
theory Program
  imports Serve Frontend Admin
begin

text \<open>
  The program as a whole (\<^verbatim>\<open>src/src/cli.rs\<close> and \<^verbatim>\<open>src/src/main.rs\<close>): its commands, what each of them
  runs, and the status and message the process ends with. The command line is parsed by its crate, so
  a command is given. The path of the vault directory is not repeated in the options of the commands:
  the host has that directory.
\<close>

datatype admin_command =
    BackupCommand int bool int
  | RestoreCommand int bool int
  | RecoverCommand
  | RekeyCommand int

datatype command =
    ServeCommand int int int bool "string option"
  | McpCommand string
  | AdminCommand int int admin_command

text \<open>What the environment does to each of the three parts.\<close>

record program_io =
  pg_serve :: startup_io
  pg_rounds :: "round list"
  pg_unlink_failed :: bool
  pg_frontend :: frontend_io
  pg_turns :: "frontend_turn list"
  pg_admin :: admin_io

fun admin_operation :: "admin_command \<Rightarrow> operation" where
  "admin_operation (BackupCommand secret_fd passphrase out_fd) = OpBackup secret_fd passphrase out_fd"
| "admin_operation (RestoreCommand secret_fd passphrase backup_fd) = OpRestore secret_fd passphrase backup_fd"
| "admin_operation RecoverCommand = OpRecover"
| "admin_operation (RekeyCommand new_seed_fd) = OpRekey new_seed_fd"

definition failed_as :: "string \<Rightarrow> error \<Rightarrow> startup_failure" where
  "failed_as name e = \<lparr>sfl_command = name, sfl_error = e\<rparr>"

text \<open>No result while a command that serves has not returned yet.\<close>

fun run_command ::
    "services \<Rightarrow> program_io \<Rightarrow> command \<Rightarrow> host \<Rightarrow> (startup_failure + unit) option \<times> host" where
  "run_command sv io (AdminCommand seed_fd identity_fd op) h =
     (case run (sv_env sv) (pg_admin io)
             \<lparr>ao_seed_fd = seed_fd, ao_identity_fd = identity_fd, ao_operation = admin_operation op\<rparr> h of
        (Inl e, h) \<Rightarrow> (Some (Inl (failed_as ''admin'' e)), h)
      | (Inr _, h) \<Rightarrow> (Some (Inr ()), h))"
| "run_command sv io (ServeCommand seed_fd config_fd admin_fd create_new bridge_socket) h =
     (case serve_owner sv
             \<lparr>ro_seed_fd = seed_fd, ro_config_fd = config_fd, ro_admin_fd = admin_fd, ro_create = create_new,
              ro_bridge_socket = bridge_socket\<rparr> (pg_serve io) (pg_rounds io) (pg_unlink_failed io) h of
        (r, h) \<Rightarrow> (map_option (map_sum (failed_as ''serve'') id) r, h))"
| "run_command sv io (McpCommand session_file) h =
     (case run_frontend sv (pg_frontend io) (pg_turns io) session_file (ho_process h) of
        (r, _, p) \<Rightarrow> (map_option (map_sum (failed_as ''mcp'') id) r, h\<lparr>ho_process := p\<rparr>))"

text \<open>The status of the process and the line it prints.\<close>

definition main_run ::
    "services \<Rightarrow> program_io \<Rightarrow> command \<Rightarrow> host \<Rightarrow> (int \<times> string option) option \<times> host" where
  "main_run sv io command h =
     (case run_command sv io command h of
        (r, h) \<Rightarrow>
          (map_option (case_sum (\<lambda>f. (exit_code (sfl_error f), Some (report f))) (\<lambda>_. (0, None))) r, h))"

end
