(* ===== verification/Frontend_Properties.thy ===== *)
theory Frontend_Properties
  imports Frontend Mcp_Properties Session_Handshake Example_Start
begin

text \<open>
  Properties of the front end as a process: what it reads and writes over all of its turns is the
  conversation of the state machine, what it sends to the owner, and that it ends.
\<close>

section \<open>Lines of the input\<close>

text \<open>What a reader still has to give, as far as its calls succeed.\<close>

definition fill_bytes :: "fill \<Rightarrow> u8 list" where
  "fill_bytes f = (case fl_data f of None \<Rightarrow> [] | Some buffer \<Rightarrow> buffer)"

definition input_bytes :: "reader \<Rightarrow> u8 list" where
  "input_bytes r = rd_buffer r @ concat (map fill_bytes (rd_fills r))"

definition line_form :: "u8 list \<Rightarrow> bool" where
  "line_form bytes \<longleftrightarrow> 10 \<notin> set bytes \<and> length bytes \<le> max_frame_bytes"

definition on_wire :: "u8 list list \<Rightarrow> u8 list" where
  "on_wire found = concat (map (\<lambda>bytes. bytes @ [10]) found)"

lemma on_wire_simps [simp]: "on_wire [] = []" "on_wire (bytes # found) = bytes @ 10 # on_wire found"
  by (simp_all add: on_wire_def)

lemma add_piece_Partial:
  assumes "add_piece bytes buffer = Partial bytes'"
  shows "bytes' = bytes @ buffer" "10 \<notin> set buffer"
proof -
  have whole: "takeWhile (\<lambda>b. b \<noteq> 10) buffer = buffer" if "\<not> length (takeWhile (\<lambda>b. b \<noteq> 10) buffer) < length buffer"
    using that by (metis append_take_drop_id le_antisym length_takeWhile_le not_less take_all takeWhile_eq_take)
  show "bytes' = bytes @ buffer" "10 \<notin> set buffer"
    using assms whole by (auto simp: add_piece_def Let_def takeWhile_eq_all_conv split: if_splits)
qed

lemma line_split: "length (takeWhile (\<lambda>b. b \<noteq> 10) xs) < length xs
    \<Longrightarrow> xs = takeWhile (\<lambda>b. b \<noteq> 10) xs @ 10 # drop (Suc (length (takeWhile (\<lambda>b. b \<noteq> 10) xs))) xs" for xs :: "u8 list"
  by (induction xs) auto

lemma add_piece_Whole:
  assumes "add_piece bytes buffer = Whole found rest" and "10 \<notin> set bytes"
  shows "found @ 10 # rest = bytes @ buffer" "line_form found"
proof -
  let ?before = "takeWhile (\<lambda>b. b \<noteq> 10) buffer"
  have w: "length ?before < length buffer" "found = bytes @ ?before" "rest = drop (Suc (length ?before)) buffer"
      "length bytes + (length ?before + 1) \<le> max_frame_bytes + 1"
    using assms(1) by (auto simp: add_piece_def Let_def split: if_splits)
  show "found @ 10 # rest = bytes @ buffer" using line_split [OF w(1)] w(2,3) by simp
  show "line_form found" using w(2,4) assms(2) by (auto simp: line_form_def dest: set_takeWhileD)
qed

lemma fill_line_Line:
  assumes "fill_line deadline until bytes fs = (Line found, r)" and "10 \<notin> set bytes"
  shows "bytes @ concat (map fill_bytes fs) = found @ 10 # input_bytes r \<and> line_form found"
  using assms
proof (induction deadline until bytes fs rule: fill_line.induct)
  case (2 deadline until bytes f fs)
  obtain u buffer where f: "poll_ready until (fl_polls f) = Inr u" "fl_data f = Some buffer" "buffer \<noteq> []"
    using 2(2) by (auto split: sum.splits option.splits if_splits)
  show ?case
  proof (cases "add_piece bytes buffer")
    case (Partial bytes')
    have "10 \<notin> set bytes'" using add_piece_Partial [OF Partial] 2(3) by simp
    then show ?thesis
      using 2(1) [OF f(1,2,3) refl Partial] 2(2) f Partial add_piece_Partial(1) [OF Partial]
      by (simp add: fill_bytes_def Let_def)
  next
    case (Whole x rest)
    then have x: "found = x" "r = \<lparr>rd_buffer = rest, rd_fills = fs\<rparr>" using 2(2) f by (auto simp: Let_def)
    have b: "fill_bytes f = buffer" by (simp add: fill_bytes_def f(2))
    show ?thesis using add_piece_Whole [OF Whole 2(3)] b x by (simp add: input_bytes_def)
  qed (use 2(2) f in \<open>simp add: Let_def\<close>)
qed simp

lemma next_line_Line:
  assumes "next_line deadline now r = (Line found, r')"
  shows "input_bytes r = found @ 10 # input_bytes r' \<and> line_form found"
proof (cases "rd_buffer r = []")
  case True
  then show ?thesis using assms fill_line_Line [of deadline deadline "[]"] by (simp add: next_line_def input_bytes_def)
next
  case False
  show ?thesis
  proof (cases "add_piece [] (rd_buffer r)")
    case (Whole x rest)
    then have x: "found = x" "r' = r\<lparr>rd_buffer := rest\<rparr>" using assms False by (auto simp: next_line_def)
    show ?thesis using add_piece_Whole [OF Whole] x by (simp add: input_bytes_def)
  next
    case (Partial bytes)
    then show ?thesis
      using assms False add_piece_Partial [OF Partial] fill_line_Line [of deadline _ bytes]
      by (auto simp: next_line_def input_bytes_def)
  qed (use assms False in \<open>simp add: next_line_def\<close>)
qed

text \<open>Where every call is in time, this is the plain splitting of what arrives.\<close>

lemma fill_line_read_line:
  assumes "fill_line deadline until bytes fs = (Line found, r)"
  shows "\<exists>pieces. read_line bytes (map fill_bytes fs) = (Line found, pieces) \<and> concat pieces = input_bytes r"
  using assms
proof (induction deadline until bytes fs rule: fill_line.induct)
  case (2 deadline until bytes f fs)
  obtain u buffer where f: "poll_ready until (fl_polls f) = Inr u" "fl_data f = Some buffer" "buffer \<noteq> []"
    using 2(2) by (auto split: sum.splits option.splits if_splits)
  have b: "fill_bytes f = buffer" by (simp add: fill_bytes_def f(2))
  let ?before = "takeWhile (\<lambda>b. b \<noteq> 10) buffer"
  show ?case
  proof (cases "add_piece bytes buffer")
    case (Partial bytes')
    then have p: "\<not> length ?before < length buffer" "length bytes + length buffer \<le> max_frame_bytes + 1" "bytes' = bytes @ buffer"
      by (auto simp: add_piece_def Let_def split: if_splits)
    show ?thesis using 2(1) [OF f(1,2,3) refl Partial] 2(2) f Partial p b by (simp add: Let_def)
  next
    case (Whole x rest)
    then have p: "length ?before < length buffer" "length bytes + (length ?before + 1) \<le> max_frame_bytes + 1"
        "x = bytes @ ?before" "rest = drop (Suc (length ?before)) buffer"
      by (auto simp: add_piece_def Let_def split: if_splits)
    have "found = x" "r = \<lparr>rd_buffer = rest, rd_fills = fs\<rparr>" using 2(2) f Whole by (auto simp: Let_def)
    then show ?thesis using p b f(3) by (simp add: Let_def input_bytes_def)
  qed (use 2(2) f in \<open>simp add: Let_def\<close>)
qed simp

section \<open>Answers on the output\<close>

lemma write_out_prefix:
  assumes "write_out deadline bytes ts out = (r, out')"
  shows "\<exists>n. out' = out @ take n bytes \<and> (r = Inr () \<longrightarrow> out' = out @ bytes) \<and> (r \<noteq> Inr () \<longrightarrow> n < length bytes)"
  using assms
proof (induction deadline bytes ts out rule: write_out.induct)
  case (3 deadline b bs t ts out)
  show ?case
  proof (cases "poll_ready deadline (wt_polls t)")
    case (Inr u)
    show ?thesis
    proof (cases "wt_write t")
      case (Put count)
      show ?thesis
      proof (cases "count = 0")
        case False
        obtain n where n: "out' = (out @ take count (b # bs)) @ take n (drop count (b # bs))"
            "r = Inr () \<longrightarrow> out' = (out @ take count (b # bs)) @ drop count (b # bs)"
            "r \<noteq> Inr () \<longrightarrow> n < length (drop count (b # bs))"
          using 3(1) [OF Inr Put False] 3(3) Inr Put False by auto
        have "out' = out @ take (count + n) (b # bs)" using n(1) by (simp add: take_add)
        moreover have "r = Inr () \<longrightarrow> out' = out @ (b # bs)" using n(2) by (metis append_assoc append_take_drop_id)
        moreover have "r \<noteq> Inr () \<longrightarrow> count + n < length (b # bs)" using n(3) by auto
        ultimately show ?thesis by blast
      qed (use 3(3) Inr Put in \<open>auto intro!: exI [of _ 0]\<close>)
    qed (use 3 Inr in \<open>auto intro!: exI [of _ 0]\<close>)
  qed (use 3 in \<open>auto intro!: exI [of _ 0]\<close>)
qed (auto intro!: exI [of _ 0])

section \<open>The conversation\<close>

text \<open>
  The specification of a run: the lines that were read, each with the exchange its answer needs, are
  answered one after the other.
\<close>

fun conversation ::
    "services \<Rightarrow> (exchange \<times> u8 list) list \<Rightarrow> mcp_state \<Rightarrow> channel \<Rightarrow> json list \<times> mcp_state \<times> channel" where
  "conversation sv [] st ch = ([], st, ch)"
| "conversation sv ((xc, bytes) # later) st ch =
     (case answer_line sv xc bytes st ch of
        (response, st', ch') \<Rightarrow>
          (case conversation sv later st' ch' of
             (responses, fin) \<Rightarrow> (case response of None \<Rightarrow> responses | Some v \<Rightarrow> v # responses, fin)))"

text \<open>
  What has been written is the answers given, each on a line of its own; only the last one may be cut,
  and then the run has failed.
\<close>

definition printed :: "json_text \<Rightarrow> json list \<Rightarrow> u8 list" where
  "printed jt responses = concat (map (output_bytes jt) responses)"

lemma printed_simps [simp]: "printed jt [] = []" "printed jt (v # responses) = output_bytes jt v @ printed jt responses"
  by (simp_all add: printed_def)

definition written :: "json_text \<Rightarrow> (error + unit) option \<Rightarrow> json list \<Rightarrow> u8 list \<Rightarrow> bool" where
  "written jt r responses bytes \<longleftrightarrow> bytes = printed jt responses
     \<or> (\<exists>e shown last n. r = Some (Inl e) \<and> responses = shown @ [last] \<and> n < length (output_bytes jt last)
          \<and> bytes = printed jt shown @ take n (output_bytes jt last))"

lemma written_Cons: "written jt r responses bytes \<Longrightarrow> written jt r (v # responses) (output_bytes jt v @ bytes)"
  unfolding written_def by (auto intro!: exI [of _ "v # _"])

lemma put_output_written:
  assumes "put_output jt now ts response out = (r, out')"
  shows "\<exists>bytes. out' = out @ bytes \<and> (r = Inr () \<longrightarrow> bytes = output_bytes jt response)
    \<and> (\<forall>e. r = Inl e \<longrightarrow> written jt (Some (Inl e)) [response] bytes)"
proof -
  obtain n where n: "out' = out @ take n (output_bytes jt response)"
      "r = Inr () \<longrightarrow> out' = out @ output_bytes jt response" "r \<noteq> Inr () \<longrightarrow> n < length (output_bytes jt response)"
    using assms write_out_prefix unfolding put_output_def by blast
  have "written jt (Some (Inl e)) [response] (take n (output_bytes jt response))" if "r = Inl e" for e
    using n(3) that unfolding written_def
    by (intro disjI2 exI [of _ e] exI [of _ "[]"] exI [of _ response] exI [of _ n]) simp
  then show ?thesis using n by auto
qed

lemma fill_line_End:
  assumes "fill_line deadline until bytes fs = (EndOfInput, r)"
  shows "bytes = [] \<and> concat (map fill_bytes fs) = input_bytes r"
  using assms
proof (induction deadline until bytes fs rule: fill_line.induct)
  case (2 deadline until bytes f fs)
  obtain u buffer where f: "poll_ready until (fl_polls f) = Inr u" "fl_data f = Some buffer"
    using 2(2) by (auto split: sum.splits option.splits)
  show ?case
  proof (cases "buffer = []")
    case True
    then have "fill_bytes f = []" by (simp add: fill_bytes_def f(2))
    then show ?thesis using 2(2) f True by (auto simp: input_bytes_def split: if_splits)
  next
    case False
    obtain bytes' where p: "add_piece bytes buffer = Partial bytes'"
      using 2(2) f False by (cases "add_piece bytes buffer") (auto simp: Let_def)
    have "bytes' = []" using 2(1) [OF f False refl p] 2(2) f False p by (simp add: Let_def)
    then show ?thesis using add_piece_Partial(1) [OF p] False by simp
  qed
qed simp

lemma next_line_End:
  assumes "next_line deadline now r = (EndOfInput, r')"
  shows "input_bytes r = input_bytes r'"
proof (cases "rd_buffer r = []")
  case True
  then show ?thesis using assms fill_line_End [of deadline deadline "[]"] by (simp add: next_line_def input_bytes_def)
next
  case False
  then obtain bytes where p: "add_piece [] (rd_buffer r) = Partial bytes"
      "fill_line deadline (frame_deadline deadline now) bytes (rd_fills r) = (EndOfInput, r')"
    using assms by (cases "add_piece [] (rd_buffer r)") (auto simp: next_line_def)
  then show ?thesis using fill_line_End [OF p(2)] add_piece_Partial(1) [OF p(1)] False by simp
qed

definition turns_into ::
    "services \<Rightarrow> frontend_turn list \<Rightarrow> frontend \<Rightarrow> (error + unit) option \<Rightarrow> frontend \<Rightarrow> u8 list list \<Rightarrow> json list \<Rightarrow> bool" where
  "turns_into sv turns fe r fe' found responses \<longleftrightarrow>
     length found \<le> length turns \<and> (r = None \<longrightarrow> length found = length turns) \<and> list_all line_form found
     \<and> (\<exists>rest. input_bytes (fn_input fe) = on_wire found @ rest
          \<and> (r \<in> {None, Some (Inr ())} \<longrightarrow> rest = input_bytes (fn_input fe')))
     \<and> conversation sv (zip (map ft_exchange turns) found) (fn_state fe) (fn_channel fe)
         = (responses, fn_state fe', fn_channel fe')
     \<and> (\<exists>bytes. fn_output fe' = fn_output fe @ bytes \<and> written (sv_text sv) r responses bytes)"

lemma turns_into_Nil: "fe' = fe\<lparr>fn_input := input\<rparr> \<Longrightarrow> (r = None \<Longrightarrow> turns = []) \<Longrightarrow> (r \<in> {None, Some (Inr ())} \<Longrightarrow> input_bytes (fn_input fe) = input_bytes input)
    \<Longrightarrow> turns_into sv turns fe r fe' [] []"
  by (simp add: turns_into_def written_def)

lemma serve_lines_run:
  assumes "serve_lines sv deadline turns fe = (r, fe')"
  shows "\<exists>found responses. turns_into sv turns fe r fe' found responses"
  using assms
proof (induction turns arbitrary: fe)
  case Nil
  have "turns_into sv [] fe r fe' [] []" by (rule turns_into_Nil [where input = "fn_input fe"]) (use Nil in auto)
  then show ?case by blast
next
  case (Cons t ts)
  obtain res input where n: "next_line deadline (ft_now t) (fn_input fe) = (res, input)" by (metis surj_pair)
  show ?case
  proof (cases res)
    case EndOfInput
    have "turns_into sv (t # ts) fe r fe' [] []"
      by (rule turns_into_Nil [where input = input]) (use Cons.prems n next_line_End EndOfInput in auto)
    then show ?thesis by blast
  next
    case LineError
    have "turns_into sv (t # ts) fe r fe' [] []"
      by (rule turns_into_Nil [where input = input]) (use Cons.prems n LineError in auto)
    then show ?thesis by blast
  next
    case (Line bytes)
    note l = next_line_Line [OF n [unfolded Line]]
    obtain answer st ch where a: "answer_line sv (ft_exchange t) bytes (fn_state fe) (fn_channel fe) = (answer, st, ch)"
      by (metis prod_cases3)
    let ?fe = "fe\<lparr>fn_state := st, fn_channel := ch, fn_input := input\<rparr>"
    show ?thesis
    proof (cases answer)
      case None
      then obtain found responses where i: "turns_into sv ts ?fe r fe' found responses"
        using Cons.IH [of ?fe] Cons.prems n Line a None by auto
      then have "turns_into sv (t # ts) fe r fe' (bytes # found) responses"
        using l a None unfolding turns_into_def by auto
      then show ?thesis by blast
    next
      case (Some response)
      obtain w out where w: "put_output (sv_text sv) (ft_written_at t) (ft_writes t) response (fn_output fe) = (w, out)"
        by (metis surj_pair)
      obtain later where later: "out = fn_output fe @ later" "w = Inr () \<longrightarrow> later = output_bytes (sv_text sv) response"
          "\<forall>e. w = Inl e \<longrightarrow> written (sv_text sv) (Some (Inl e)) [response] later"
        using put_output_written [OF w] by blast
      show ?thesis
      proof (cases w)
        case (Inl e)
        then have "r = Some (Inl e)" "fe' = ?fe\<lparr>fn_output := out\<rparr>" using Cons.prems n Line a Some w by auto
        then have "turns_into sv (t # ts) fe r fe' [bytes] [response]"
          using l a Some later Inl by (auto simp: turns_into_def)
        then show ?thesis by blast
      next
        case (Inr u)
        then obtain found responses where i: "turns_into sv ts (?fe\<lparr>fn_output := out\<rparr>) r fe' found responses"
          using Cons.IH [of "?fe\<lparr>fn_output := out\<rparr>"] Cons.prems n Line a Some w Inr by auto
        then obtain tail where tail: "fn_output fe' = out @ tail" "written (sv_text sv) r responses tail"
          unfolding turns_into_def by auto
        have "turns_into sv (t # ts) fe r fe' (bytes # found) (response # responses)"
          using i l a Some later Inr tail written_Cons [OF tail(2)] unfolding turns_into_def by auto
        then show ?thesis by blast
      qed
    qed
  qed
qed

section \<open>Traffic to the owner\<close>

text \<open>A work request whose operation is one of the four for workloads.\<close>

definition work_value :: "services \<Rightarrow> json \<Rightarrow> bool" where
  "work_value sv request \<longleftrightarrow> (\<exists>members op. request = JObject members \<and> map_of members ''op'' = Some (JString op)
     \<and> op \<in> {''generate'', ''mutate'', ''metadata'', ''use''} \<and> de_work (sv_decode sv) request \<noteq> None)"

text \<open>
  After a base, at most so many requests have gone out, each whole and once; only the last one may be
  cut, and then the channel is closed for good.
\<close>

definition owner_traffic :: "services \<Rightarrow> u8 list \<Rightarrow> channel \<Rightarrow> nat \<Rightarrow> bool" where
  "owner_traffic sv base ch n \<longleftrightarrow> (\<exists>requests cut.
     list_all (work_value sv) requests \<and> length requests + (if cut = [] then 0 else 1) \<le> n
     \<and> ch_sent ch = base @ concat (map (frame (sv_text sv)) requests) @ cut
     \<and> (cut \<noteq> [] \<longrightarrow> ch_poisoned ch \<and> (\<exists>request k. work_value sv request \<and> cut = take k (frame (sv_text sv) request))))"

definition sends_at_most_one :: "services \<Rightarrow> channel \<Rightarrow> channel \<Rightarrow> bool" where
  "sends_at_most_one sv ch ch' \<longleftrightarrow> ch_sent ch' = ch_sent ch \<and> (ch_poisoned ch \<longrightarrow> ch_poisoned ch')
     \<or> \<not> ch_poisoned ch \<and> (\<exists>request. work_value sv request
          \<and> (ch_sent ch' = ch_sent ch @ frame (sv_text sv) request
             \<or> ch_poisoned ch' \<and> (\<exists>k. ch_sent ch' = ch_sent ch @ take k (frame (sv_text sv) request))))"

lemma send_cases:
  assumes "send jt v es ch = (r, ch')"
  shows "ch_poisoned ch \<and> ch' = ch \<or> \<not> ch_poisoned ch \<and>
     (ch_sent ch' = ch_sent ch @ frame jt v \<or> ch_poisoned ch' \<and> (\<exists>k. ch_sent ch' = ch_sent ch @ take k (frame jt v)))"
proof (cases "ch_poisoned ch")
  case True
  then show ?thesis using assms by (simp add: send_def)
next
  case False
  show ?thesis
  proof (cases r)
    case (Inl e)
    then show ?thesis using False send_prefix [OF assms] send_Inl_poisoned assms by blast
  next
    case (Inr u)
    then obtain bytes where b: "encode_frame jt v = Inr bytes" "ch_sent ch' = ch_sent ch @ to_be32 (word_of_nat (length bytes)) @ bytes"
      using send_Inr [of jt v es ch ch'] assms by auto
    then show ?thesis using False encode_frame_bytes [OF b(1)] by (simp add: frame_def)
  qed
qed

lemma receive_poisoned: "receive jt es ch = (r, ch') \<Longrightarrow> ch_poisoned ch \<Longrightarrow> ch_poisoned ch'"
  by (auto simp: receive_def)

lemma call_owner_sends:
  assumes "call_owner (sv_text sv) xc ch request = (response, ch')" and "work_value sv request"
  shows "sends_at_most_one sv ch ch'"
proof (cases "fits_frame (sv_text sv) request")
  case True
  obtain r ch1 where s: "send (sv_text sv) request (xc_writes xc) ch = (r, ch1)" by (metis surj_pair)
  have "ch_sent ch' = ch_sent ch1 \<and> (ch_poisoned ch1 \<longrightarrow> ch_poisoned ch')"
  proof (cases r)
    case (Inr u)
    obtain q ch2 where rec: "receive (sv_text sv) (xc_reads xc) (ch1\<lparr>ch_pending := ch_pending ch1 @ xc_arrived xc\<rparr>) = (q, ch2)"
      by (metis surj_pair)
    then have "ch' = ch2" using assms(1) True s Inr by (auto simp: call_owner_def split: sum.splits)
    then show ?thesis using receive_sent [OF rec] receive_poisoned [OF rec] by auto
  qed (use assms(1) True s in \<open>simp add: call_owner_def\<close>)
  then show ?thesis using send_cases [OF s] assms(2) unfolding sends_at_most_one_def by auto
qed (use assms(1) in \<open>simp add: call_owner_def sends_at_most_one_def\<close>)

lemma answer_line_sends:
  assumes "answer_line sv xc bytes st ch = (r, st', ch')"
  shows "sends_at_most_one sv ch ch'"
proof (cases "ch' = ch")
  case False
  obtain v where v: "dispatch sv xc v st ch = (r, st', ch')"
    using assms False by (auto simp: answer_line_def split: sum.splits)
  obtain m i params where "run_method sv xc (method_name m) i params st ch = (the r, st', ch')"
    using v False by (auto simp: dispatch_def split: json.splits option.splits if_splits prod.splits)
  then obtain call request response where c: "work_message (sv_decode sv) call = Some request"
      "call_owner (sv_text sv) xc ch request = (response, ch')"
    using False by (auto simp: run_method_def bind_eq_Some_conv split: if_splits option.splits prod.splits)
  have "work_value sv request"
    using work_message_Some [OF c(1)] tool_op_cases unfolding work_value_def by fastforce
  then show ?thesis by (rule call_owner_sends [OF c(2)])
qed (simp add: sends_at_most_one_def)

lemma owner_traffic_step:
  assumes "owner_traffic sv base ch n" and "sends_at_most_one sv ch ch'"
  shows "owner_traffic sv base ch' (Suc n)"
proof -
  obtain requests cut where t: "list_all (work_value sv) requests" "length requests + (if cut = [] then 0 else 1) \<le> n"
      "ch_sent ch = base @ concat (map (frame (sv_text sv)) requests) @ cut"
      "cut \<noteq> [] \<longrightarrow> ch_poisoned ch \<and> (\<exists>request k. work_value sv request \<and> cut = take k (frame (sv_text sv) request))"
    using assms(1) unfolding owner_traffic_def by blast
  from assms(2) consider "ch_sent ch' = ch_sent ch" "ch_poisoned ch \<longrightarrow> ch_poisoned ch'"
    | request where "\<not> ch_poisoned ch" "work_value sv request" "ch_sent ch' = ch_sent ch @ frame (sv_text sv) request"
    | request k where "\<not> ch_poisoned ch" "work_value sv request" "ch_poisoned ch'"
        "ch_sent ch' = ch_sent ch @ take k (frame (sv_text sv) request)"
    unfolding sends_at_most_one_def by blast
  then show ?thesis
  proof cases
    case 1
    then show ?thesis using t unfolding owner_traffic_def by (intro exI [of _ requests] exI [of _ cut]) auto
  next
    case (2 request)
    then have "cut = []" using t(4) by blast
    then show ?thesis using 2 t unfolding owner_traffic_def by (intro exI [of _ "requests @ [request]"] exI [of _ "[]"]) auto
  next
    case (3 request k)
    then have "cut = []" using t(4) by blast
    then show ?thesis
      using 3 t unfolding owner_traffic_def
      by (intro exI [of _ requests] exI [of _ "take k (frame (sv_text sv) request)"]) auto
  qed
qed

lemma conversation_traffic:
  "conversation sv inputs st ch = (responses, st', ch') \<Longrightarrow> owner_traffic sv base ch n
    \<Longrightarrow> owner_traffic sv base ch' (n + length inputs)"
proof (induction sv inputs st ch arbitrary: n responses rule: conversation.induct)
  case (2 sv xc bytes later st ch)
  obtain r st1 ch1 where a: "answer_line sv xc bytes st ch = (r, st1, ch1)" by (metis prod_cases3)
  obtain rs where c: "conversation sv later st1 ch1 = (rs, st', ch')" using 2(2) a by (auto split: prod.splits)
  show ?case using 2(1) [OF a [symmetric] refl c owner_traffic_step [OF 2(3) answer_line_sends [OF a]]] by simp
qed simp

section \<open>The run\<close>

lemma connect_Inr:
  assumes "connect jt session_of euid io path now = Inr (ch, expires_at)"
  shows "\<exists>sfile. read_session_file jt session_of euid io path = Inr sfile \<and> expires_at = sf_expires_at sfile
    \<and> \<not> ch_poisoned ch \<and> ch_sent ch = frame jt (attach_message (sf_token sfile))"
proof -
  obtain sfile ch0 ch1 where c: "read_session_file jt session_of euid io path = Inr sfile"
      "new_channel 5000 5000 True (co_blocking_ok io) (co_pending io) = Inr ch0"
      "send jt (attach_message (sf_token sfile)) (co_writes io) ch0 = (Inr (), ch1)"
      "receive jt (co_reads io) ch1 = (Inr attach_accepted, ch)" "expires_at = sf_expires_at sfile"
    using assms by (auto simp: connect_def split: sum.splits if_splits prod.splits)
  obtain bytes where b: "encode_frame jt (attach_message (sf_token sfile)) = Inr bytes" "\<not> ch_poisoned ch1"
      "ch_sent ch1 = ch_sent ch0 @ to_be32 (word_of_nat (length bytes)) @ bytes"
    using send_Inr [OF c(3)] by metis
  have "ch_sent ch0 = []" using c(2) by (auto simp: new_channel_def split: if_splits)
  then have "ch_sent ch = frame jt (attach_message (sf_token sfile))"
    using b encode_frame_bytes [OF b(1)] receive_sent [OF c(4)] by (simp add: frame_def)
  moreover have "\<not> ch_poisoned ch" using c(4) b(2) by (auto simp: receive_def fail_def split: if_splits sum.splits prod.splits)
  ultimately show ?thesis using c by blast
qed

definition confined :: "process \<Rightarrow> bool" where
  "confined p \<longleftrightarrow> pr_no_new_privs p \<and> \<not> pr_dumpable p \<and> (\<forall>fd. fd_open (pr_fds p fd) \<longrightarrow> fd \<le> 2)"

lemma start_frontend_Inr:
  assumes "start_frontend sv io path p = (Inr (fe, deadline), p')"
  shows "\<exists>sfile. read_session_file (sv_text sv) (fi_session_of io) (fi_euid io) (fi_connect io) path = Inr sfile
      \<and> ch_sent (fn_channel fe) = frame (sv_text sv) (attach_message (sf_token sfile))"
    and "fn_state fe = Initialize" "\<not> ch_poisoned (fn_channel fe)" "fn_output fe = []"
    and "input_bytes (fn_input fe) = concat (map fill_bytes (fi_input io))"
    and "listing_complete (fi_calls io) (pr_fds p) \<Longrightarrow> confined p'"
proof -
  obtain u fds ch expires_at where h: "harden (fi_calls io) p = (Inr u, p\<lparr>pr_no_new_privs := True, pr_dumpable := False\<rparr>)"
      "close_unlisted (fi_calls io) [] (pr_fds p) = (Inr (), fds)"
      "connect (sv_text sv) (fi_session_of io) (fi_euid io) (fi_connect io) path (fi_now io) = Inr (ch, expires_at)"
      "fe = \<lparr>fn_state = Initialize, fn_channel = ch, fn_input = \<lparr>rd_buffer = [], rd_fills = fi_input io\<rparr>, fn_output = []\<rparr>"
      "p' = p\<lparr>pr_no_new_privs := True, pr_dumpable := False, pr_fds := fds\<rparr>"
  proof -
    obtain u p1 where h: "harden (fi_calls io) p = (Inr u, p1)"
      using assms by (cases "harden (fi_calls io) p"; cases "fst (harden (fi_calls io) p)") (simp_all add: start_frontend_def)
    note p1 = harden_Inr [OF h]
    obtain fds where c: "close_unlisted (fi_calls io) [] (pr_fds p1) = (Inr (), fds)"
      using assms h by (cases "close_unlisted (fi_calls io) [] (pr_fds p1)"; cases "fst (close_unlisted (fi_calls io) [] (pr_fds p1))")
        (simp_all add: start_frontend_def)
    obtain ch expires_at where k: "fi_nonblocking_ok io"
        "connect (sv_text sv) (fi_session_of io) (fi_euid io) (fi_connect io) path (fi_now io) = Inr (ch, expires_at)"
      using assms h c
      by (cases "connect (sv_text sv) (fi_session_of io) (fi_euid io) (fi_connect io) path (fi_now io)")
        (auto simp: start_frontend_def Let_def split: if_splits)
    obtain secs where "frontend_deadline expires_at (fi_later io) = Inr secs"
      using assms h c k by (cases "frontend_deadline expires_at (fi_later io)") (simp_all add: start_frontend_def Let_def)
    with assms h c k show ?thesis
      by (intro that [of u fds ch expires_at]) (simp_all add: start_frontend_def Let_def p1)
  qed
  show "\<exists>sfile. read_session_file (sv_text sv) (fi_session_of io) (fi_euid io) (fi_connect io) path = Inr sfile
      \<and> ch_sent (fn_channel fe) = frame (sv_text sv) (attach_message (sf_token sfile))"
    and "fn_state fe = Initialize" "\<not> ch_poisoned (fn_channel fe)" "fn_output fe = []"
    and "input_bytes (fn_input fe) = concat (map fill_bytes (fi_input io))"
    using connect_Inr [OF h(3)] h(4) by (auto simp: input_bytes_def)
  show "confined p'" if "listing_complete (fi_calls io) (pr_fds p)"
    using close_unlisted_Inr [OF h(2) that] h(5) by (simp add: confined_def)
qed

lemma run_frontend_Some:
  assumes "run_frontend sv io turns path p = (r, Some fe, p')"
  obtains fe0 deadline found responses where "start_frontend sv io path p = (Inr (fe0, deadline), p')"
    "serve_lines sv deadline turns fe0 = (r, fe)" "turns_into sv turns fe0 r fe found responses"
proof -
  obtain fe0 deadline where s: "start_frontend sv io path p = (Inr (fe0, deadline), p')" "serve_lines sv deadline turns fe0 = (r, fe)"
    using assms by (auto simp: run_frontend_def split: prod.splits sum.splits)
  then show ?thesis using serve_lines_run that by blast
qed

text \<open>
  C18: The front end reaches nothing but the owner, and only with work. Once it runs it can gain no
  privileges, is not dumpable and holds no descriptor but the standard streams besides its connection.
  Whatever it is told on its input, the bytes on the connection are the attachment with the token of
  its session file and then whole frames of requests that decode as work of a workload, no more of them
  than lines were read; only the last one may be cut short, and then nothing follows it.
\<close>

theorem frontend_reaches_only_owner:
  assumes "run_frontend sv io turns path p = (r, Some fe, p')" and "listing_complete (fi_calls io) (pr_fds p)"
  shows "confined p' \<and> (\<exists>sfile found rest.
     read_session_file (sv_text sv) (fi_session_of io) (fi_euid io) (fi_connect io) path = Inr sfile
     \<and> concat (map fill_bytes (fi_input io)) = on_wire found @ rest
     \<and> owner_traffic sv (frame (sv_text sv) (attach_message (sf_token sfile))) (fn_channel fe) (length found))"
proof -
  obtain fe0 deadline found responses where s: "start_frontend sv io path p = (Inr (fe0, deadline), p')"
      and t: "turns_into sv turns fe0 r fe found responses"
    using run_frontend_Some [OF assms(1)] by metis
  note start = start_frontend_Inr [OF s]
  obtain sfile where f: "read_session_file (sv_text sv) (fi_session_of io) (fi_euid io) (fi_connect io) path = Inr sfile"
      "ch_sent (fn_channel fe0) = frame (sv_text sv) (attach_message (sf_token sfile))"
    using start(1) by blast
  let ?base = "frame (sv_text sv) (attach_message (sf_token sfile))"
  have "owner_traffic sv ?base (fn_channel fe0) 0"
    unfolding owner_traffic_def using f(2) by (intro exI [of _ "[]"]) simp
  moreover have "conversation sv (zip (map ft_exchange turns) found) (fn_state fe0) (fn_channel fe0)
      = (responses, fn_state fe, fn_channel fe)" "length found \<le> length turns"
    using t by (simp_all add: turns_into_def)
  ultimately have "owner_traffic sv ?base (fn_channel fe) (length found)"
    using conversation_traffic [of sv _ _ _ responses "fn_state fe" "fn_channel fe" ?base 0] by force
  then show ?thesis using f(1) start(5) start(6) [OF assms(2)] t unfolding turns_into_def by metis
qed

text \<open>
  C20: A run of the front end is its conversation. The input splits into lines of at most a frame, and
  the answers of the state machine to them, from its first state on and each with one exchange with the
  owner at most, are what is written, in this order and each on a line of its own; an answer is cut
  only at the end of a run that failed, and a run that ends well has written every one of them. A
  run that has not ended has taken a line in every turn, so an input that ends ends the process.
\<close>

theorem frontend_run_is_conversation:
  assumes "run_frontend sv io turns path p = (r, Some fe, p')"
  shows "\<exists>ch found rest responses. length found \<le> length turns \<and> list_all line_form found
     \<and> concat (map fill_bytes (fi_input io)) = on_wire found @ rest
     \<and> conversation sv (zip (map ft_exchange turns) found) Initialize ch = (responses, fn_state fe, fn_channel fe)
     \<and> written (sv_text sv) r responses (fn_output fe)
     \<and> (r = None \<longrightarrow> length found = length turns)
     \<and> (r = Some (Inr ()) \<longrightarrow> rest = input_bytes (fn_input fe) \<and> fn_output fe = printed (sv_text sv) responses)"
proof -
  obtain fe0 deadline found responses where s: "start_frontend sv io path p = (Inr (fe0, deadline), p')"
      and t: "turns_into sv turns fe0 r fe found responses"
    using run_frontend_Some [OF assms] by metis
  note start = start_frontend_Inr [OF s]
  obtain rest bytes where "concat (map fill_bytes (fi_input io)) = on_wire found @ rest"
      "r \<in> {None, Some (Inr ())} \<longrightarrow> rest = input_bytes (fn_input fe)" "fn_output fe = bytes" "written (sv_text sv) r responses bytes"
    using t start(4,5) unfolding turns_into_def by auto
  moreover have "length found \<le> length turns" "r = None \<longrightarrow> length found = length turns" "list_all line_form found"
    "conversation sv (zip (map ft_exchange turns) found) Initialize (fn_channel fe0) = (responses, fn_state fe, fn_channel fe)"
    using t start(2) by (simp_all add: turns_into_def)
  ultimately show ?thesis by (intro exI [of _ "fn_channel fe0"] exI [of _ found] exI [of _ rest] exI [of _ responses])
    (auto simp: written_def)
qed

lemma count_on_wire: "length (filter (\<lambda>b. b = 10) (on_wire found @ rest)) \<ge> length found"
  by (induction found) auto

text \<open>
  The front end ends. A run that is given more turns than its input has line ends has returned: the
  loop takes a line from the input in every turn, so an input that ends ends the process.
\<close>

theorem frontend_run_ends:
  assumes "length (filter (\<lambda>b. b = 10) (concat (map fill_bytes (fi_input io)))) < length turns"
  shows "\<exists>result fe p'. run_frontend sv io turns path p = (Some result, fe, p')"
proof -
  obtain r fe p' where run: "run_frontend sv io turns path p = (r, fe, p')" by (metis prod_cases3)
  have "r \<noteq> None"
  proof
    assume r: "r = None"
    then obtain fe1 where fe: "fe = Some fe1" using run by (auto simp: run_frontend_def split: prod.splits sum.splits)
    obtain fe0 deadline found responses where s: "start_frontend sv io path p = (Inr (fe0, deadline), p')"
      and t: "turns_into sv turns fe0 r fe1 found responses"
      using run_frontend_Some run fe by metis
    then obtain rest where "concat (map fill_bytes (fi_input io)) = on_wire found @ rest" "length found = length turns"
      using start_frontend_Inr(5) [OF s] r by (auto simp: turns_into_def)
    then show False using assms count_on_wire [of found rest] by simp
  qed
  then show ?thesis using run by auto
qed

section \<open>Witnesses\<close>

definition demo_initialize :: json where
  "demo_initialize = JObject [(''id'', JNumber (NInt 0)), (''jsonrpc'', JString ''2.0''), (''method'', JString ''initialize''),
     (''params'', JObject [(''capabilities'', JObject []),
        (''clientInfo'', JObject [(''name'', JString ''model''), (''version'', JString ''1'')]),
        (''protocolVersion'', JString ''2025-11-25'')])]"

definition demo_initialized :: json where
  "demo_initialized = JObject [(''jsonrpc'', JString ''2.0''), (''method'', JString ''notifications/initialized'')]"

definition demo_messages :: "u8 list \<Rightarrow> raw option" where
  "demo_messages bytes = (if bytes = [4] then Some (raw_of demo_initialize) else if bytes = [5] then Some (raw_of demo_initialized)
     else if bytes = [6] then Some (raw_of demo_call) else None)"

definition demo_frontend_services :: services where
  "demo_frontend_services = demo_tools\<lparr>sv_text := demo_wire_with demo_messages\<rparr>"

definition demo_polls :: "poll_turn list" where
  "demo_polls = [\<lparr>pt_now = 0, pt_poll = (\<lambda>_. StreamReady)\<rparr>]"

definition demo_frontend_io :: frontend_io where
  "demo_frontend_io = \<lparr>fi_calls = su_calls demo_startup, fi_nonblocking_ok = True, fi_euid = 0,
     fi_session_of = (\<lambda>_. Some demo_file), fi_connect = demo_connect, fi_now = 20, fi_later = 20, fi_instant = 0,
     fi_input = [\<lparr>fl_polls = demo_polls, fl_data = Some [4, 10, 5, 10, 6], fl_now = 0\<rparr>,
       \<lparr>fl_polls = demo_polls, fl_data = Some [10], fl_now = 0\<rparr>, \<lparr>fl_polls = demo_polls, fl_data = Some [], fl_now = 0\<rparr>]\<rparr>"

definition demo_frontend_turn :: frontend_turn where
  "demo_frontend_turn = \<lparr>ft_now = 0, ft_exchange = demo_exchange, ft_written_at = 0,
     ft_writes = [\<lparr>wt_polls = demo_polls, wt_write = PutAgain\<rparr>, \<lparr>wt_polls = demo_polls, wt_write = Put 8\<rparr>]\<rparr>"

lemma demo_front_started:
  "\<exists>p'. start_frontend demo_frontend_services demo_frontend_io ''/s'' (ho_process demo_host)
     = (Inr (\<lparr>fn_state = Initialize, fn_channel = (fresh_channel [])\<lparr>ch_sent := to_be32 1 @ [1]\<rparr>,
          fn_input = \<lparr>rd_buffer = [], rd_fills = fi_input demo_frontend_io\<rparr>, fn_output = []\<rparr>, 480000), p')"
  by (simp add: start_frontend_def demo_frontend_io_def demo_frontend_services_def demo_connects demo_deadline
      demo_steps demo_startup_def demo_calls_def demo_host_def demo_fds_def Let_def)

lemma demo_output: "output_bytes (demo_wire_with extra) (rpc_result mid v) = [1, 10]"
  by (simp add: output_bytes_def output_value_def demo_wire_with_def rpc_result_def rpc_error_def attach_accepted_def json_object_def)

lemmas demo_line_defs = answer_line_def demo_frontend_services_def demo_wire_with_def demo_messages_def strict_json_def
  max_nesting_def dispatch_def valid_message_def valid_id_def valid_method_def bt_keys_def message_params_def strip_meta_def
  method_name_def

lemma demo_answer_initialize:
  "\<exists>v. answer_line demo_frontend_services xc [4] Initialize ch = (Some (rpc_result (JNumber (NInt 0)) v), Initialized, ch)"
  by (simp add: demo_line_defs demo_initialize_def run_method_def parse_initialize_def parse_client_def acceptable_def)
    (rule exI, rule refl)

lemma demo_answer_initialized: "answer_line demo_frontend_services xc [5] Initialized ch = (None, Ready, ch)"
  by (simp add: demo_line_defs demo_initialized_def notified_def empty_params_def)

lemma demo_answer_call:
  "\<exists>v ch'. answer_line demo_frontend_services xc [6] Ready ch = (Some (rpc_result (JNumber (NInt 1)) v), Ready, ch')"
  by (simp add: demo_line_defs demo_call_def run_method_def parse_call_def work_message_def tool_op_def bt_contains_def
      demo_tools_def split: prod.split) blast

lemma demo_ready: "poll_ready deadline demo_polls = Inr ()"
  by (simp add: demo_polls_def)

lemma demo_written: "put_output (sv_text demo_frontend_services) now (ft_writes demo_frontend_turn) (rpc_result mid v) out
    = (Inr (), out @ [1, 10])"
  by (simp add: put_output_def demo_output demo_frontend_services_def demo_frontend_turn_def demo_ready)

lemma demo_frontend_run:
  "\<exists>fe p'. run_frontend demo_frontend_services demo_frontend_io (replicate 4 demo_frontend_turn) ''/s'' (ho_process demo_host)
     = (Some (Inr ()), Some fe, p') \<and> fn_output fe = [1, 10, 1, 10] \<and> fn_state fe = Ready"
proof -
  let ?t = demo_frontend_turn and ?rest = "tl (fi_input demo_frontend_io)"
  have lines: "next_line d n \<lparr>rd_buffer = [], rd_fills = fi_input demo_frontend_io\<rparr> = (Line [4], \<lparr>rd_buffer = [5, 10, 6], rd_fills = ?rest\<rparr>)"
      "next_line d n \<lparr>rd_buffer = [5, 10, 6], rd_fills = ?rest\<rparr> = (Line [5], \<lparr>rd_buffer = [6], rd_fills = ?rest\<rparr>)"
      "next_line d n \<lparr>rd_buffer = [6], rd_fills = ?rest\<rparr> = (Line [6], \<lparr>rd_buffer = [], rd_fills = tl ?rest\<rparr>)"
      "next_line d n \<lparr>rd_buffer = [], rd_fills = tl ?rest\<rparr> = (EndOfInput, \<lparr>rd_buffer = [], rd_fills = []\<rparr>)" for d n
    by (simp_all add: next_line_def demo_frontend_io_def demo_ready add_piece_def max_frame_bytes_def)
  obtain v where a1: "\<And>xc ch. answer_line demo_frontend_services xc [4] Initialize ch = (Some (rpc_result (JNumber (NInt 0)) (v xc ch)), Initialized, ch)"
    using demo_answer_initialize by metis
  obtain w ch' where a3: "\<And>xc ch. answer_line demo_frontend_services xc [6] Ready ch = (Some (rpc_result (JNumber (NInt 1)) (w xc ch)), Ready, ch' xc ch)"
    using demo_answer_call by metis
  obtain p' where s: "start_frontend demo_frontend_services demo_frontend_io ''/s'' (ho_process demo_host)
     = (Inr (\<lparr>fn_state = Initialize, fn_channel = (fresh_channel [])\<lparr>ch_sent := to_be32 1 @ [1]\<rparr>,
          fn_input = \<lparr>rd_buffer = [], rd_fills = fi_input demo_frontend_io\<rparr>, fn_output = []\<rparr>, 480000), p')"
    using demo_front_started by blast
  have four: "replicate 4 ?t = [?t, ?t, ?t, ?t]" by (simp add: numeral_eq_Suc)
  show ?thesis
    unfolding run_frontend_def s four by (simp add: lines a1 a3 demo_answer_initialized demo_written)
qed

theorem frontend_reaches_only_owner_witness:
  "\<exists>(fe :: frontend) found rest. owner_traffic demo_frontend_services (to_be32 1 @ [1]) (fn_channel fe) (length found)
     \<and> [4, 10, 5, 10, 6, 10] = on_wire found @ rest \<and> fn_output fe = [1, 10, 1, 10]"
proof -
  obtain fe p' where run: "run_frontend demo_frontend_services demo_frontend_io (replicate 4 demo_frontend_turn) ''/s'' (ho_process demo_host)
     = (Some (Inr ()), Some fe, p')" "fn_output fe = [1, 10, 1, 10]"
    using demo_frontend_run by blast
  have "listing_complete (fi_calls demo_frontend_io) (pr_fds (ho_process demo_host))"
    using demo_listing by (simp add: demo_frontend_io_def)
  moreover have "concat (map fill_bytes (fi_input demo_frontend_io)) = [4, 10, 5, 10, 6, 10]"
    by (simp add: demo_frontend_io_def fill_bytes_def)
  moreover have "frame (sv_text demo_frontend_services) (attach_message token) = to_be32 1 @ [1]" for token
    by (simp add: demo_frontend_services_def demo_wire_frames)
  ultimately obtain found rest where "[4, 10, 5, 10, 6, 10] = on_wire found @ rest"
      "owner_traffic demo_frontend_services (to_be32 1 @ [1]) (fn_channel fe) (length found)"
    using frontend_reaches_only_owner [OF run(1)] by metis
  then show ?thesis using run(2) by blast
qed

theorem frontend_run_is_conversation_witness:
  "\<exists>ch found rest responses (fe :: frontend). [4, 10, 5, 10, 6, 10] = on_wire found @ rest \<and> list_all line_form found
     \<and> conversation demo_frontend_services (zip (replicate 4 demo_exchange) found) Initialize ch
         = (responses, Ready, fn_channel fe) \<and> printed (demo_wire_with demo_messages) responses = [1, 10, 1, 10]"
proof -
  obtain fe p' where run: "run_frontend demo_frontend_services demo_frontend_io (replicate 4 demo_frontend_turn) ''/s'' (ho_process demo_host)
     = (Some (Inr ()), Some fe, p')" "fn_output fe = [1, 10, 1, 10]" "fn_state fe = Ready"
    using demo_frontend_run by blast
  have "concat (map fill_bytes (fi_input demo_frontend_io)) = [4, 10, 5, 10, 6, 10]"
    by (simp add: demo_frontend_io_def fill_bytes_def)
  moreover have "map ft_exchange (replicate 4 demo_frontend_turn) = replicate 4 demo_exchange"
    by (simp add: demo_frontend_turn_def)
  moreover have "sv_text demo_frontend_services = demo_wire_with demo_messages" by (simp add: demo_frontend_services_def)
  ultimately obtain ch found rest responses where "[4, 10, 5, 10, 6, 10] = on_wire found @ rest" "list_all line_form found"
      "conversation demo_frontend_services (zip (replicate 4 demo_exchange) found) Initialize ch = (responses, fn_state fe, fn_channel fe)"
      "fn_output fe = printed (demo_wire_with demo_messages) responses"
    using frontend_run_is_conversation [OF run(1)] by metis
  then show ?thesis using run(2,3) by metis
qed

theorem frontend_run_ends_witness:
  "\<exists>result fe p'. run_frontend demo_frontend_services demo_frontend_io (replicate 4 demo_frontend_turn) ''/s'' (ho_process demo_host)
     = (Some result, fe, p')"
proof -
  have "concat (map fill_bytes (fi_input demo_frontend_io)) = [4, 10, 5, 10, 6, 10]"
    by (simp add: demo_frontend_io_def fill_bytes_def)
  then show ?thesis by (intro frontend_run_ends) simp
qed

end
