(* ===== verification/Program_Properties.thy ===== *)
theory Program_Properties
  imports Program Startup_Facts Frontend_Properties
begin

text \<open>
  Properties of every command: what it does before anything else, and what its status says.
\<close>

section \<open>Hardening\<close>

definition armour :: "host \<Rightarrow> bool" where
  "armour h \<longleftrightarrow> pr_no_new_privs (ho_process h) \<and> \<not> pr_dumpable (ho_process h)"

lemma armour_simps [simp]:
  "armour (set_fds fds h) = armour h" "armour (h\<lparr>ho_directory := dir\<rparr>) = armour h" "armour (h\<lparr>ho_nodes := nodes\<rparr>) = armour h"
  by (simp_all add: armour_def)

text \<open>A step that never takes the armour off.\<close>

definition armoured :: "'a \<times> host \<Rightarrow> bool" where "armoured m \<longleftrightarrow> armour (snd m)"

lemma armoured_and_then:
  assumes "armoured m" and "\<And>a s. armour s \<Longrightarrow> armoured (f a s)"
  shows "armoured (and_then m f)"
  using assms by (auto simp: armoured_def and_then_def split: prod.split sum.split)

lemma armoured_on_fds: "armour h \<Longrightarrow> armoured (on_fds f h)"
  by (simp add: armoured_def on_fds_def split: prod.split)

lemma armoured_pair: "armour h \<Longrightarrow> armoured (r, h)"
  by (simp add: armoured_def)

lemmas armoured_steps = armoured_and_then armoured_on_fds armoured_pair

text \<open>A run that hardens first: afterwards the armour is on, or it has failed at once.\<close>

definition hardens_first :: "host \<Rightarrow> (error + 'a) \<times> host \<Rightarrow> bool" where
  "hardens_first h m \<longleftrightarrow> armour (snd m) \<or> fst m = Inl Invalid \<and> host_fds (snd m) = host_fds h
     \<and> ho_directory (snd m) = ho_directory h \<and> ho_nodes (snd m) = ho_nodes h"

lemma hardens_firstI:
  assumes "\<And>s. armour s \<Longrightarrow> armoured (f s)"
  shows "hardens_first h (and_then (on_process (harden k) h) (\<lambda>_. f))"
proof -
  obtain r p where r: "harden k (ho_process h) = (r, p)" by (metis surj_pair)
  show ?thesis
  proof (cases r)
    case (Inl e)
    then have "e = Invalid" "pr_fds p = pr_fds (ho_process h)"
      using r by (auto simp: harden_def Let_def split: if_splits)
    then show ?thesis using r Inl by (simp add: hardens_first_def and_then_def on_process_def)
  next
    case (Inr u)
    have "p = (ho_process h)\<lparr>pr_no_new_privs := True, pr_dumpable := False\<rparr>" using harden_Inr r Inr by blast
    then have "armour (h\<lparr>ho_process := p\<rparr>)" by (simp add: armour_def)
    then show ?thesis using assms r Inr by (simp add: hardens_first_def and_then_def on_process_def armoured_def)
  qed
qed

lemma hardens_first_and_then:
  assumes "hardens_first h m" and "\<And>a s. armour s \<Longrightarrow> armoured (f a s)" and "\<And>a. fst m = Inr a \<Longrightarrow> armour (snd m)"
  shows "hardens_first h (and_then m f)"
proof (cases "fst m")
  case (Inl e)
  then have "and_then m f = (Inl e, snd m)" by (cases m) (simp add: and_then_def)
  then show ?thesis using assms(1) Inl by (simp add: hardens_first_def)
next
  case (Inr a)
  then have "and_then m f = f a (snd m)" by (cases m) (simp add: and_then_def)
  then show ?thesis using assms(2) [OF assms(3) [OF Inr]] by (simp add: hardens_first_def armoured_def)
qed

lemma hardens_first_Inr: "hardens_first h m \<Longrightarrow> fst m = Inr a \<Longrightarrow> armour (snd m)"
  by (simp add: hardens_first_def)

subsection \<open>The owner\<close>

lemma take_over_hardens: "hardens_first h (take_over jt opts io h)"
  unfolding take_over_def
  by (rule hardens_firstI) (clarsimp split: prod.split intro!: armoured_steps | intro armoured_steps | assumption)+

lemma start_listener_armoured: "armour h \<Longrightarrow> armoured (start_listener opts io h)"
  by (auto simp: armoured_def start_listener_def split: option.split prod.split)

lemma stop_listener_armour [simp]: "armour (stop_listener failed l h) = armour h"
  by (simp add: stop_listener_def split: option.split prod.split)

lemma open_owner_armoured: "armour h \<Longrightarrow> armoured (open_owner env opts io seed h)"
  by (simp add: armoured_def open_owner_def split: prod.split)

lemma start_serving_armoured: "armour h \<Longrightarrow> armoured (start_serving env opts io c lifetime idle l h)"
  unfolding start_serving_def by (intro armoured_steps open_owner_armoured)

lemma startup_hardens: "hardens_first h (startup env jt opts io h)"
  unfolding startup_def
proof (rule hardens_first_and_then [OF take_over_hardens])
  show "armour (snd (take_over jt opts io h))" if "fst (take_over jt opts io h) = Inr a" for a
    using hardens_first_Inr [OF take_over_hardens that] .
  have "armoured (case start_serving env opts io c lifetime idle listener s of
      (Inl e, h) \<Rightarrow> (Inl e, stop_listener (su_unlink_failed io) listener h) | (Inr rn, h) \<Rightarrow> (Inr rn, h))"
    if "armour s" for c lifetime idle listener s
    using start_serving_armoured [OF that, of env opts io c lifetime idle listener]
    by (auto simp: armoured_def split: prod.split sum.split)
  then show "armoured ((case a of (c, lifetime, idle) \<Rightarrow> \<lambda>h. and_then (start_listener opts io h) (\<lambda>listener h.
       case start_serving env opts io c lifetime idle listener h of
         (Inl e, h) \<Rightarrow> (Inl e, stop_listener (su_unlink_failed io) listener h) | (Inr rn, h) \<Rightarrow> (Inr rn, h))) s)"
    if "armour s" for a s
    using that by (auto split: prod.split intro!: armoured_and_then start_listener_armoured)
qed

lemma serve_owner_hardens:
  assumes "serve_owner sv opts io rds unlink_failed h = (r, h')"
  shows "armour h' \<or> r = Some (Inl Invalid) \<and> host_fds h' = host_fds h \<and> ho_directory h' = ho_directory h \<and> ho_nodes h' = ho_nodes h"
proof -
  obtain q h1 where s: "startup (sv_env sv) (sv_text sv) opts io h = (q, h1)" by (metis surj_pair)
  note first = startup_hardens [of h "sv_env sv" "sv_text sv" opts io, unfolded s hardens_first_def]
  show ?thesis
  proof (cases q)
    case (Inl e)
    then show ?thesis using assms s first by (auto simp: serve_owner_def)
  next
    case (Inr rn)
    then show ?thesis using assms s first by (auto simp: serve_owner_def Let_def split: prod.splits if_splits)
  qed
qed

subsection \<open>Administration\<close>

lemma prepare_run_hardens: "hardens_first h (prepare_run io opts h)"
  unfolding prepare_run_def by (rule hardens_firstI) (intro armoured_steps; assumption)

lemma operations_armoured:
  assumes "armour h"
  shows "armoured (run_backup env io seed ctx secret_fd passphrase out_fd h)"
    and "armoured (run_restore env io seed ctx secret_fd passphrase backup_fd h)"
    and "armoured (run_recover env io seed ctx h)"
    and "armoured (run_rekey env io seed ctx new_seed_fd h)"
proof -
  show "armoured (run_backup env io seed ctx secret_fd passphrase out_fd h)"
    unfolding run_backup_def by (intro armoured_steps assms)
  show "armoured (run_restore env io seed ctx secret_fd passphrase backup_fd h)"
    unfolding run_restore_def using assms
    by (intro armoured_and_then armoured_on_fds) (auto simp: armoured_def split: prod.split sum.split)
  show "armoured (run_recover env io seed ctx h)"
    using assms by (auto simp: run_recover_def armoured_def split: prod.split sum.split)
  show "armoured (run_rekey env io seed ctx new_seed_fd h)"
    unfolding run_rekey_def using assms
    by (intro armoured_and_then armoured_on_fds) (auto simp: armoured_def split: prod.split sum.split)
qed

lemma run_operation_armoured: "armour h \<Longrightarrow> armoured (run_operation env io seed ctx op h)"
  by (cases op) (simp_all add: run_operation_def operations_armoured)

lemma run_hardens: "hardens_first h (run env io opts h)"
  unfolding run_def
proof (rule hardens_first_and_then [OF prepare_run_hardens])
  show "armour (snd (prepare_run io opts h))" if "fst (prepare_run io opts h) = Inr a" for a
    using hardens_first_Inr [OF prepare_run_hardens that] .
qed (auto split: prod.split intro: run_operation_armoured)

subsection \<open>The front end\<close>

lemma start_frontend_hardens:
  "hardens_first h (map_prod id (\<lambda>p. h\<lparr>ho_process := p\<rparr>) (start_frontend sv io path (ho_process h)))"
proof -
  obtain r p where r: "harden (fi_calls io) (ho_process h) = (r, p)" by (metis surj_pair)
  show ?thesis
  proof (cases r)
    case (Inl e)
    then have "e = Invalid" "pr_fds p = pr_fds (ho_process h)"
      using r by (auto simp: harden_def Let_def split: if_splits)
    then show ?thesis using r Inl by (simp add: start_frontend_def hardens_first_def)
  next
    case (Inr u)
    have "p = (ho_process h)\<lparr>pr_no_new_privs := True, pr_dumpable := False\<rparr>" using harden_Inr r Inr by blast
    then show ?thesis
      using r Inr by (auto simp: start_frontend_def hardens_first_def armour_def Let_def split: prod.split sum.split)
  qed
qed

section \<open>Every command\<close>

text \<open>
  C16: Every command hardens the process before anything else. However a command ends, and while it is
  still serving, the process can gain no privileges and is not dumpable, or the run has ended with the
  status of an invalid request, has opened, read and closed no descriptor, and has touched neither the
  vault nor the directory of the socket. The status is zero exactly if the command succeeded, and every
  failure is reported under the name of the command.
\<close>

theorem program_hardens_first:
  assumes "main_run sv io command h = (outcome, h')"
  shows "(armour h' \<or> (\<exists>message. outcome = Some (11, Some message)) \<and> host_fds h' = host_fds h
            \<and> ho_directory h' = ho_directory h \<and> ho_nodes h' = ho_nodes h)
     \<and> (outcome = Some (0, None) \<longleftrightarrow> fst (run_command sv io command h) = Some (Inr ()))
     \<and> (\<forall>status message. outcome = Some (status, Some message) \<longrightarrow>
          (\<exists>e. status = exit_code e \<and> message = ''credman '' @ (case command of ServeCommand _ _ _ _ _ \<Rightarrow> ''serve''
             | McpCommand _ \<Rightarrow> ''mcp'' | AdminCommand _ _ _ \<Rightarrow> ''admin'') @ '': '' @ error_text e))"
proof (cases command)
  case (ServeCommand seed_fd config_fd admin_fd create_new bridge_socket)
  let ?o = "\<lparr>ro_seed_fd = seed_fd, ro_config_fd = config_fd, ro_admin_fd = admin_fd, ro_create = create_new, ro_bridge_socket = bridge_socket\<rparr>"
  obtain r h1 where r: "serve_owner sv ?o (pg_serve io) (pg_rounds io) (pg_unlink_failed io) h = (r, h1)" by (metis surj_pair)
  show ?thesis
    using assms serve_owner_hardens [OF r] r ServeCommand
    by (cases r; cases "the r") (auto simp: main_run_def failed_as_def report_def)
next
  case (McpCommand session_file)
  obtain r fe p where r: "run_frontend sv (pg_frontend io) (pg_turns io) session_file (ho_process h) = (r, fe, p)" by (metis prod_cases3)
  have "armour (h\<lparr>ho_process := p\<rparr>) \<or> r = Some (Inl Invalid) \<and> pr_fds p = host_fds h"
    using r start_frontend_hardens [of h sv "pg_frontend io" session_file]
    by (auto simp: run_frontend_def hardens_first_def split: prod.splits sum.splits)
  then show ?thesis
    using assms r McpCommand by (cases r; cases "the r") (auto simp: main_run_def failed_as_def report_def)
next
  case (AdminCommand seed_fd identity_fd op)
  let ?o = "\<lparr>ao_seed_fd = seed_fd, ao_identity_fd = identity_fd, ao_operation = admin_operation op\<rparr>"
  obtain r h1 where r: "run (sv_env sv) (pg_admin io) ?o h = (r, h1)" by (metis surj_pair)
  show ?thesis
    using assms run_hardens [of h "sv_env sv" "pg_admin io" ?o] r AdminCommand
    by (cases r) (auto simp: main_run_def failed_as_def report_def hardens_first_def)
qed

section \<open>Witness\<close>

definition demo_program_io :: "admin_io \<Rightarrow> program_io" where
  "demo_program_io a = \<lparr>pg_serve = demo_startup, pg_rounds = [], pg_unlink_failed = False,
     pg_frontend = demo_frontend_io, pg_turns = replicate 4 demo_frontend_turn, pg_admin = a\<rparr>"

theorem program_hardens_first_witness:
  "\<forall>a. \<exists>h'. main_run demo_frontend_services (demo_program_io a) (McpCommand ''/s'') demo_host = (Some (0, None), h') \<and> armour h'"
proof
  fix a
  obtain fe p' where "run_frontend demo_frontend_services demo_frontend_io (replicate 4 demo_frontend_turn) ''/s'' (ho_process demo_host)
     = (Some (Inr ()), Some fe, p')"
    using demo_frontend_run by blast
  then obtain h' where h: "main_run demo_frontend_services (demo_program_io a) (McpCommand ''/s'') demo_host = (Some (0, None), h')"
    by (simp add: main_run_def demo_program_io_def)
  then show "\<exists>h'. main_run demo_frontend_services (demo_program_io a) (McpCommand ''/s'') demo_host = (Some (0, None), h') \<and> armour h'"
    using program_hardens_first [OF h] by auto
qed

end
