(* ===== verification/Spec2Isabelle.thy ===== *)
theory Spec2Isabelle
  imports
    Generation_Facts
    Policy_Authority
    Compaction_Properties
    Recovery_Properties
    Https_Properties
    Admin_View_Properties
    Mcp_Properties
    Admin_Properties
    Serve_Life
    Session_Handshake
    Files_Properties
    Curl_Properties
    Program_Properties
begin

text \<open>
  \<^bold>\<open>credman: a verification of the agent vault.\<close>

  The program is a credential broker for agents. An administrator approves tasks; under a task an
  agent stores, generates, patches, shares and deletes credentials, reads metadata, or has a secret
  sent to a configured HTTPS destination without seeing it. One owner process holds the vault: all
  state is one in-memory value that is staged, validated, encrypted and published to one file after
  each operation. Workloads reach the owner over preconnected sockets or, through the MCP front end,
  over sessions that the administrator issues.

  \<^bold>\<open>Parts and theories.\<close>

  \<^item> \<open>Prelude\<close>: words, saturating arithmetic, and \<^verbatim>\<open>BTreeMap\<close> as an association list in key order.
    The locale \<open>ordered_map\<close> states the laws of the map interface and is interpreted on the list
    operations. \<open>Chars\<close>: ASCII classes, UTF-8 whitespace and controls, and the address parsers of the
    standard library.
  \<^item> \<open>Vault_Types\<close> (\<^verbatim>\<open>src/src/agent/mod.rs\<close>, lines 24 to 458): identities, approvals, records, grants,
    mutations, receipts, deliveries, audit events, errors and the staging state \<^verbatim>\<open>Application\<close>.
  \<^item> \<open>Generation\<close> and \<open>Generation_Facts\<close> (lines 316 to 407): private generation of secrets. The random
    generator is an explicit stream of blocks, each of which may fail.
  \<^item> \<open>Policy\<close> (lines 461 to 782): clock, approvals, authorisation, mutation, reads and audit, one
    definition per method and, for the long methods, one per branch. \<open>Policy_Facts\<close> holds the
    equations of the clock and of the tables, \<open>Policy_Steps\<close> the requests of the engine as a step
    function with runs, and the locales for what every operation promises; \<open>Policy_Invariant\<close> proves
    the invariant of the state for every operation; \<open>Example_Vault\<close> is a small reachable vault on which
    the properties are exercised; \<open>Policy_Properties\<close> and \<open>Policy_Authority\<close> are the theorems.
  \<^item> \<open>Snapshot\<close>, \<open>Snapshot_Facts\<close>, \<open>Compaction\<close> (\<^verbatim>\<open>src/src/agent/snapshot.rs\<close>): validation of a stored state,
    encoding, decoding, and the compaction of old history. \<open>Compaction_Facts\<close> has the locale
    \<open>baseline_flag\<close> for what compaction keeps of a baseline, interpreted on its two flags, and
    \<open>Compaction_Properties\<close> what a sealed login means for later operations of the owner.
  \<^item> \<open>Codec\<close>, \<open>Crypto\<close>, \<open>Image\<close> (\<^verbatim>\<open>src/src/crypto.rs\<close>, \<^verbatim>\<open>src/src/agent/storage.rs\<close> lines 153 to 205): big-endian
    fields, key derivation and the sealed image.
  \<^item> \<open>Store\<close> and \<open>Store_Properties\<close> (\<^verbatim>\<open>storage.rs\<close>): the directory, the publication protocol, commits and
    the operations of the durable owner.
  \<^item> \<open>Files\<close> and \<open>Files_Properties\<close> (\<^verbatim>\<open>storage.rs\<close> lines 58 to 119 and 207 to 219): the private directory,
    the checks on each file that is opened, and the lock. A folder keeps metadata; its \<open>contents\<close> are
    the directory of \<open>Store\<close>, and opening from files is shown to be opening of the contents.
  \<^item> \<open>Workflow\<close> and \<open>Workflow_Properties\<close> (\<^verbatim>\<open>storage/workflow.rs\<close>): private delivery.
  \<^item> \<open>Recovery\<close>, \<open>Backup\<close> and \<open>Recovery_Properties\<close> (\<^verbatim>\<open>storage/recovery.rs\<close>, \<^verbatim>\<open>storage/backup.rs\<close>).
  \<^item> \<open>Owner\<close>, \<open>Owner_Durable\<close> and \<open>Owner_Properties\<close>: the life of the durable owner as a step relation
    over its operations, compaction and restarts. The locale \<open>settled_operation\<close> states what an
    operation promises between two commits and is interpreted on each of them. \<open>Recovery_Durable\<close> shows
    that a recovery leaves an owner that can begin such a life, from a state that the directory held,
    and a restored backup too.
  \<^item> \<open>Https\<close> and \<open>Https_Properties\<close> (\<^verbatim>\<open>src/src/agent_https.rs\<close>): validation of destinations, the
    configuration text given to the transfer program, and the delivery loop. The text is shown to read
    back as exactly the options written, to fit its buffer, and a definite status to need evidence.
  \<^item> \<open>Curl\<close> and \<open>Curl_Properties\<close> (the same file, lines 291 to 396 and 488 to 514): the child process of a
    delivery, what it can reach, and what preparing, delivering and dropping leave in the owner.
  \<^item> \<open>Ipc\<close> and \<open>Ipc_Properties\<close> (\<^verbatim>\<open>src/src/agent_ipc.rs\<close>): frames, strict JSON and bounded writers over a
    schedule of socket calls, with the round trip of a frame.
  \<^item> \<open>Admin_View\<close> and \<open>Admin_View_Properties\<close> (\<^verbatim>\<open>src/src/agent/admin_view.rs\<close>): status and listings.
  \<^item> \<open>Descriptors\<close> and \<open>Sockets\<close> (the system side of \<^verbatim>\<open>agent_admin.rs\<close>, \<^verbatim>\<open>agent_bridge.rs\<close> and
    \<^verbatim>\<open>agent_broker.rs\<close>): the table of descriptors of the process with its inspection, closing and
    marking, the hardening of the process, the checks on inherited channels, and the directory of the
    session socket with binding, removal, peer credentials and bounded connecting.
  \<^item> \<open>Sessions\<close> and \<open>Session_Properties\<close> (\<^verbatim>\<open>src/src/agent_bridge.rs\<close>): issued sessions, tokens, admission
    and the front end's connection; the operations as a step relation with its invariant.
    \<open>Session_Handshake\<close> puts the owner's and the front end's side of an admission together.
  \<^item> \<open>Broker\<close>, \<open>Startup\<close>, \<open>Serve\<close> (\<^verbatim>\<open>src/src/agent_broker.rs\<close>): requests of workloads and of the
    administrator; the start of the owner over its host, with the descriptors it takes over and the
    socket it binds; and the serving loop. \<open>Startup_Facts\<close> inverts a start step by step,
    \<open>Example_Start\<close> is a small start that succeeds, \<open>Startup_Properties\<close> holds what a start has checked
    and closed. \<open>Serve_Properties\<close> shows what workloads can be answered, where a secret can go, and the
    authority of the peers over any number of rounds; \<open>Serve_Life\<close> relates serving to the life of the
    owner of \<open>Owner\<close>: what a served vault has on disk after any rounds.
  \<^item> \<open>Mcp\<close> and \<open>Mcp_Properties\<close> (\<^verbatim>\<open>src/src/agent_mcp.rs\<close>): the JSON-RPC state machine, tool schemas and lines.
    \<open>Frontend\<close> is its process: start, polls, lines, answers and the loop. \<open>Frontend_Properties\<close> shows
    that a run is the conversation of the state machine with the lines of its input, what goes to the
    owner over all of it, and that it ends.
  \<^item> \<open>Admin\<close> and \<open>Admin_Properties\<close> (\<^verbatim>\<open>src/src/agent_admin.rs\<close>, \<^verbatim>\<open>src/src/cli.rs\<close>, \<^verbatim>\<open>src/src/main.rs\<close>): offline
    backup, restore, recovery and rekeying, and the status of the process. \<open>Program\<close> has the commands
    and \<open>Program_Properties\<close> what holds for each of them.

  \<^bold>\<open>Conventions.\<close> A method that takes \<^verbatim>\<open>&mut self\<close> and returns \<^verbatim>\<open>Result\<close> is a function from the state to
  a pair of a sum, \<^verbatim>\<open>Inl\<close> the error, and the new state. \<^verbatim>\<open>u64\<close> is a 64 bit word, \<^verbatim>\<open>Time\<close> an integer with the
  saturating subtraction of \<^verbatim>\<open>i64\<close> written out, a UUID a 128 bit word with 0 the nil UUID, a string
  the list of its bytes. Random identifiers, salts, nonces, clock readings and the result of every
  system call are arguments, so a theorem holds for each of their values.

  \<^bold>\<open>Parameters.\<close> Code outside the repository is an argument: \<^verbatim>\<open>serde_json\<close> and the derived decoders
  (\<open>json_codec\<close>, \<open>json_text\<close>, \<open>decoders\<close>, and the serialisers in \<open>externals\<close>), the text of a UUID, SHA-256,
  Argon2id, BIP39 and AES-GCM (\<open>primitives\<close>). Where a theorem needs their documented behaviour it
  says so: \<open>json_correct\<close> (decoding inverts encoding), \<open>reads_back\<close> (a printed value is read as itself),
  \<open>aead_correct\<close> (decryption inverts encryption) and \<open>digest_length\<close> (a digest has 32 bytes).

  \<^bold>\<open>Bounds.\<close> No fuel is used: the loops of the code are structural, or run over the finite list of what
  they observe, as sampling over generator blocks, reads and writes over a schedule of socket calls,
  the delivery loop over its passes and the serving loop over its rounds. Each has a theorem that it
  returns: enough useful blocks give a secret, enough moving calls a frame, and a pass or round at the
  deadline ends the delivery or the serving. A schedule that is exhausted stands for an expired
  deadline.

  \<^bold>\<open>What the theorems leave open.\<close> The run theorems of \<open>Policy_Properties\<close> and \<open>Policy_Authority\<close> are
  about sequences of policy operations without compaction in between: a receipt older than the retry
  window may be compacted away by the owner, after which the same request identifier is a new request,
  as the comments in \<^verbatim>\<open>snapshot.rs\<close> say. The theorems of \<open>Owner_Properties\<close> include compaction, rekeying and
  restarts; their lives start at the creation of an owner, at a restore, or at a recovery of any
  directory, provided that the entries of the recovered state have their times. What is gone before a
  recovery is not followed across it.

  \<^bold>\<open>Not modelled.\<close> Parsing of the command line by its crate, zeroisation of memory, a panic of an
  adapter, the fault injection and other code that is compiled for tests only. System calls are not
  modelled beyond what the code relies on: where a call decides a branch, its outcome is an argument,
  as the answers of polls and clocks, file locking with its three outcomes, and what the transfer
  program writes and how it ends. The files of a publication are written in the directory of contents;
  the metadata of \<open>Files\<close> is followed for opening a vault only.
\<close>

end
